(* ===== verification/Prelude.thy ===== *)
theory Prelude
  imports Main "HOL-Library.Word"
begin

text \<open>
  The vocabulary every component of the development shares.

  \<^item> Results. A Rust function that returns \<open>Result<T, E>\<close> and may also panic is a value of
    \<open>('e, 'a) res\<close>: \<open>Ok\<close>, \<open>Err\<close>, \<open>Panic\<close> (an assertion, an \<open>unwrap\<close>, an
    out-of-range slice or a checked overflow) or \<open>Hang\<close> (a loop that never ends). \<open>try_r\<close> is
    Rust's \<open>?\<close> operator, \<open>try_fold\<close> and \<open>try_map\<close> are \<open>Iterator::try_fold\<close> and the
    \<open>collect\<close> of an iterator of results.
  \<^item> Build profiles. \<open>overflow_checks\<close> and \<open>debug_assertions\<close> are compiler switches, not
    part of the source, so they are the fields of a record that every operation depending on them
    takes as its first argument: integer overflow panics or wraps, \<open>debug_assert!\<close> panics or is
    skipped.
  \<^item> Machine integers are naturals with the width written out (\<open>uadd\<close>, \<open>usub\<close>, \<open>umul\<close>,
    \<open>upow\<close>). The code supports 64-bit targets only (\<open>debug_assert_usize_is_u64\<close> in
    \<open>authfs/src/fsverity/editor.rs\<close>), so \<open>usize\<close> is \<open>u64\<close>.
  \<^item> Slices, chunks, little-endian bytes and rounding division, with the lemmas the component
    theories use.
\<close>

section \<open>Results\<close>

datatype ('e, 'a) res = Ok 'a | Err 'e | Panic | Hang

primrec try_r :: "('e, 'a) res \<Rightarrow> ('a \<Rightarrow> ('e, 'b) res) \<Rightarrow> ('e, 'b) res" where
  "try_r (Ok x) f = f x"
| "try_r (Err e) f = Err e"
| "try_r Panic f = Panic"
| "try_r Hang f = Hang"

primrec map_err :: "('e \<Rightarrow> 'f) \<Rightarrow> ('e, 'a) res \<Rightarrow> ('f, 'a) res" where
  "map_err f (Ok x) = Ok x"
| "map_err f (Err e) = Err (f e)"
| "map_err f Panic = Panic"
| "map_err f Hang = Hang"

lemma map_err_try_r: "map_err f (try_r m g) = try_r (map_err f m) (\<lambda>x. map_err f (g x))"
  by (cases m) auto

primrec ok_or :: "'e \<Rightarrow> 'a option \<Rightarrow> ('e, 'a) res" where
  "ok_or e None = Err e"
| "ok_or e (Some x) = Ok x"

primrec unwrap :: "'a option \<Rightarrow> ('e, 'a) res" where
  "unwrap None = Panic"
| "unwrap (Some x) = Ok x"

primrec try_fold :: "('b \<Rightarrow> 'a \<Rightarrow> ('e, 'b) res) \<Rightarrow> 'b \<Rightarrow> 'a list \<Rightarrow> ('e, 'b) res" where
  "try_fold f b [] = Ok b"
| "try_fold f b (x # xs) = try_r (f b x) (\<lambda>b'. try_fold f b' xs)"

primrec try_map :: "('a \<Rightarrow> ('e, 'b) res) \<Rightarrow> 'a list \<Rightarrow> ('e, 'b list) res" where
  "try_map f [] = Ok []"
| "try_map f (x # xs) = try_r (f x) (\<lambda>y. try_r (try_map f xs) (\<lambda>ys. Ok (y # ys)))"

lemma try_r_cong [fundef_cong]:
  "m = m' \<Longrightarrow> (\<And>x. m' = Ok x \<Longrightarrow> f x = f' x) \<Longrightarrow> try_r m f = try_r m' f'"
  by (cases m') auto

lemma try_r_Ok_iff: "try_r m f = Ok y \<longleftrightarrow> (\<exists>x. m = Ok x \<and> f x = Ok y)"
  by (cases m) auto

lemma try_r_Panic_iff: "try_r m f = Panic \<longleftrightarrow> m = Panic \<or> (\<exists>x. m = Ok x \<and> f x = Panic)"
  by (cases m) auto

lemma try_r_Err_iff: "try_r m f = Err e \<longleftrightarrow> m = Err e \<or> (\<exists>x. m = Ok x \<and> f x = Err e)"
  by (cases m) auto

lemma ok_or_not_Panic [simp]: "ok_or e m \<noteq> Panic" "ok_or e m \<noteq> Hang"
  by (cases m; simp)+

lemma try_r_assoc: "try_r (try_r m f) g = try_r m (\<lambda>x. try_r (f x) g)"
  by (cases m) auto

lemma map_err_Ok_iff [simp]: "map_err f m = Ok x \<longleftrightarrow> m = Ok x"
  by (cases m) auto

lemma ok_or_Ok_iff [simp]: "ok_or e m = Ok x \<longleftrightarrow> m = Some x"
  by (cases m) auto

lemma try_map_Ok: "(\<And>x. x \<in> set xs \<Longrightarrow> f x = Ok (g x)) \<Longrightarrow> try_map f xs = Ok (map g xs)"
  by (induction xs) auto

lemma try_map_map_Ok:
  "(\<And>x. x \<in> set xs \<Longrightarrow> f (g x) = Ok (h x)) \<Longrightarrow> try_map f (map g xs) = Ok (map h xs)"
  by (induction xs) auto

lemma try_map_Ok_length: "try_map f xs = Ok ys \<Longrightarrow> length ys = length xs"
  by (induction xs arbitrary: ys) (auto simp: try_r_Ok_iff)

lemma try_fold_append:
  "try_fold f b (xs @ ys) = try_r (try_fold f b xs) (\<lambda>b'. try_fold f b' ys)"
  by (induction xs arbitrary: b) (auto simp: try_r_assoc)

text \<open>A method that changes the object it is called on returns its result and the new state; \<open>and_then\<close>
  is \<open>?\<close> for such calls: a step that fails keeps the state it left behind.\<close>

fun and_then :: "('e, 'a) res \<times> 's \<Rightarrow> ('a \<Rightarrow> 's \<Rightarrow> ('e, 'b) res \<times> 's) \<Rightarrow> ('e, 'b) res \<times> 's" where
  "and_then (Ok x, s) f = f x s"
| "and_then (Err e, s) f = (Err e, s)"
| "and_then (Panic, s) f = (Panic, s)"
| "and_then (Hang, s) f = (Hang, s)"

lemma and_then_cong [fundef_cong]:
  "m = m' \<Longrightarrow> (\<And>x s. m' = (Ok x, s) \<Longrightarrow> f x s = f' x s) \<Longrightarrow> and_then m f = and_then m' f'"
  by (cases m'; cases "fst m'") auto

lemma and_then_Ok_iff:
  "and_then m f = (Ok y, s') \<longleftrightarrow> (\<exists>x s. m = (Ok x, s) \<and> f x s = (Ok y, s'))"
  by (cases m; cases "fst m") auto

text \<open>The same for an iteration whose steps change a state: it stops at the first step that fails.\<close>

primrec try_map_st ::
  "('a \<Rightarrow> 's \<Rightarrow> ('e, 'b) res \<times> 's) \<Rightarrow> 'a list \<Rightarrow> 's \<Rightarrow> ('e, 'b list) res \<times> 's" where
  "try_map_st f [] s = (Ok [], s)"
| "try_map_st f (x # xs) s =
     and_then (f x s) (\<lambda>y s. and_then (try_map_st f xs s) (\<lambda>ys s. (Ok (y # ys), s)))"

lemma and_thenE:
  assumes "and_then m f = (r, s')"
  obtains (ok) x s where "m = (Ok x, s)" "f x s = (r, s')"
  | (fail) "snd m = s'" "\<And>x. fst m \<noteq> Ok x" "\<And>y. r \<noteq> Ok y" "\<And>e. r = Err e \<longleftrightarrow> fst m = Err e" "r = Hang \<longleftrightarrow> fst m = Hang"
proof -
  obtain q s where "m = (q, s)" by fastforce
  with assms that show thesis by (cases q) auto
qed

lemma and_then_state:
  assumes "I (snd m)" "\<And>x s. m = (Ok x, s) \<Longrightarrow> I s \<Longrightarrow> I (snd (f x s))"
  shows "I (snd (and_then m f))"
proof -
  obtain r s where m: "m = (r, s)" by fastforce
  show ?thesis
  proof (cases r)
    case (Ok x)
    with m have "I (snd (f x s))" using assms(1) by (intro assms(2)) simp_all
    with m Ok show ?thesis by simp
  qed (use m assms(1) in simp_all)
qed

lemma try_map_st_state:
  assumes "\<And>x s. I s \<Longrightarrow> I (snd (f x s))"
  shows "I s \<Longrightarrow> I (snd (try_map_st f xs s))"
proof (induction xs arbitrary: s)
  case (Cons x xs)
  have step: "I (snd (and_then (try_map_st f xs t) (\<lambda>ys s. (Ok (y # ys), s))))" if "I t" for y t
    by (rule and_then_state[where I = I, OF Cons.IH[OF that]]) (simp only: snd_conv)
  show ?case unfolding try_map_st.simps
    by (rule and_then_state[where I = I, OF assms[OF Cons.prems]]) (rule step)
qed simp

text \<open>\<open>scopeguard::guard\<close>: the clean-up runs when the scope is left, by a value, an error or a panic. An error
  of the clean-up is only logged; if it does not return or panics, neither does the scope.\<close>

definition guarded :: "('s \<Rightarrow> ('f, 'b) res \<times> 's) \<Rightarrow> ('e, 'a) res \<times> 's \<Rightarrow> ('e, 'a) res \<times> 's" where
  "guarded cleanup m =
     (case m of
        (Hang, s) \<Rightarrow> (Hang, s)
      | (r, s) \<Rightarrow> (case cleanup s of (Hang, s) \<Rightarrow> (Hang, s) | (Panic, s) \<Rightarrow> (Panic, s) | (_, s) \<Rightarrow> (r, s)))"

lemma guardedE:
  assumes "guarded cleanup m = (r, s')" "r \<noteq> Hang"
  obtains q s k where "m = (q, s)" "q \<noteq> Hang" "cleanup s = (k, s')" "k \<noteq> Hang" "r = (if k = Panic then Panic else q)"
proof -
  obtain q s where m: "m = (q, s)" by fastforce
  obtain k t where k: "cleanup s = (k, t)" by fastforce
  from assms m k have "q \<noteq> Hang \<and> k \<noteq> Hang \<and> t = s' \<and> r = (if k = Panic then Panic else q)"
    by (cases q; cases k) (auto simp: guarded_def)
  with m k that show thesis by blast
qed

text \<open>\<open>Result::map_err\<close> and \<open>Result::expect\<close> on a call that changes the state.\<close>

definition map_err_st :: "('e \<Rightarrow> 'f) \<Rightarrow> ('e, 'a) res \<times> 's \<Rightarrow> ('f, 'a) res \<times> 's" where
  "map_err_st f m = (map_err f (fst m), snd m)"

definition expect_st :: "('e, 'a) res \<times> 's \<Rightarrow> ('f, 'a) res \<times> 's" where
  "expect_st m = (case m of (Ok x, s) \<Rightarrow> (Ok x, s) | (Hang, s) \<Rightarrow> (Hang, s) | (_, s) \<Rightarrow> (Panic, s))"

section \<open>Build profiles and machine integers\<close>

record profile =
  overflow_checks :: bool
  debug_assertions :: bool

text \<open>The default profiles of Cargo and Soong for release and debug builds.\<close>

definition release_profile :: profile where
  "release_profile = \<lparr>overflow_checks = False, debug_assertions = False\<rparr>"

definition debug_profile :: profile where
  "debug_profile = \<lparr>overflow_checks = True, debug_assertions = True\<rparr>"

lemma profile_simps [simp]:
  "\<not> overflow_checks release_profile" "\<not> debug_assertions release_profile"
  "overflow_checks debug_profile" "debug_assertions debug_profile"
  by (simp_all add: release_profile_def debug_profile_def)

definition wrapping :: "profile \<Rightarrow> nat \<Rightarrow> int \<Rightarrow> ('e, nat) res" where
  "wrapping p w v =
     (if 0 \<le> v \<and> v < 2 ^ w then Ok (nat v)
      else if overflow_checks p then Panic
      else Ok (nat (v mod 2 ^ w)))"

definition uadd :: "profile \<Rightarrow> nat \<Rightarrow> nat \<Rightarrow> nat \<Rightarrow> ('e, nat) res" where
  "uadd p w a b = wrapping p w (int a + int b)"

definition usub :: "profile \<Rightarrow> nat \<Rightarrow> nat \<Rightarrow> nat \<Rightarrow> ('e, nat) res" where
  "usub p w a b = wrapping p w (int a - int b)"

definition umul :: "profile \<Rightarrow> nat \<Rightarrow> nat \<Rightarrow> nat \<Rightarrow> ('e, nat) res" where
  "umul p w a b = wrapping p w (int a * int b)"

definition upow :: "profile \<Rightarrow> nat \<Rightarrow> nat \<Rightarrow> nat \<Rightarrow> ('e, nat) res" where
  "upow p w a b = wrapping p w (int a ^ b)"

definition udiv :: "nat \<Rightarrow> nat \<Rightarrow> ('e, nat) res" where
  "udiv a b = (if b = 0 then Panic else Ok (a div b))"

definition urem :: "nat \<Rightarrow> nat \<Rightarrow> ('e, nat) res" where
  "urem a b = (if b = 0 then Panic else Ok (a mod b))"

definition saturating_add :: "nat \<Rightarrow> nat \<Rightarrow> nat \<Rightarrow> nat" where
  "saturating_add w a b = min (a + b) (2 ^ w - 1)"

abbreviation (input) saturating_sub :: "nat \<Rightarrow> nat \<Rightarrow> nat" where
  "saturating_sub a b \<equiv> a - b"

abbreviation debug_assert :: "profile \<Rightarrow> bool \<Rightarrow> ('e, 'a) res \<Rightarrow> ('e, 'a) res" where
  "debug_assert p c k \<equiv> (if debug_assertions p \<and> \<not> c then Panic else k)"

abbreviation assert_r :: "bool \<Rightarrow> ('e, 'a) res \<Rightarrow> ('e, 'a) res" where
  "assert_r c k \<equiv> (if c then k else Panic)"

text \<open>\<open>in_range\<close> collects the facts that an operation whose exact result fits does not depend on
  the profile.\<close>

named_theorems in_range "integer operations whose exact result fits the width"

lemma uadd_ok [in_range]: "a + b < 2 ^ w \<Longrightarrow> uadd p w a b = Ok (a + b)"
  by (simp add: uadd_def wrapping_def flip: of_nat_add of_nat_less_iff)

lemma usub_ok [in_range]: "b \<le> a \<Longrightarrow> a < 2 ^ w \<Longrightarrow> usub p w a b = Ok (a - b)"
proof -
  assume *: "b \<le> a" "a < 2 ^ w"
  then have "int a < 2 ^ w" by (metis of_nat_less_iff of_nat_numeral of_nat_power)
  with * have "int a - int b < 2 ^ w" by linarith
  with * show ?thesis by (simp add: usub_def wrapping_def nat_diff_distrib)
qed

lemma umul_ok [in_range]: "a * b < 2 ^ w \<Longrightarrow> umul p w a b = Ok (a * b)"
  by (simp add: umul_def wrapping_def flip: of_nat_mult of_nat_less_iff)

lemma upow_ok [in_range]: "a ^ b < 2 ^ w \<Longrightarrow> upow p w a b = Ok (a ^ b)"
  by (simp add: upow_def wrapping_def flip: of_nat_power of_nat_less_iff)

lemma udiv_ok [simp]: "0 < b \<Longrightarrow> udiv a b = Ok (a div b)"
  by (simp add: udiv_def)

lemma urem_ok [simp]: "0 < b \<Longrightarrow> urem a b = Ok (a mod b)"
  by (simp add: urem_def)

lemma uadd_Ok_mod: "uadd p w a b = Ok c \<Longrightarrow> c = (a + b) mod 2 ^ w"
proof -
  assume u: "uadd p w a b = Ok c"
  have "nat ((int a + int b) mod 2 ^ w) = (a + b) mod 2 ^ w"
    by (metis nat_int of_nat_add of_nat_mod of_nat_numeral of_nat_power)
  moreover have "int a + int b < 2 ^ w \<Longrightarrow> (a + b) mod 2 ^ w = nat (int a + int b)"
    by (metis mod_less nat_int of_nat_add of_nat_less_iff of_nat_numeral of_nat_power)
  ultimately show ?thesis using u by (auto simp: uadd_def wrapping_def split: if_splits)
qed

lemma uadd_overflow:
  "2 ^ w \<le> a + b \<Longrightarrow> overflow_checks p \<Longrightarrow> uadd p w a b = Panic"
proof -
  assume *: "2 ^ w \<le> a + b" "overflow_checks p"
  then have "(2::int) ^ w \<le> int a + int b"
    by (metis of_nat_add of_nat_le_iff of_nat_numeral of_nat_power)
  with * show ?thesis by (simp add: uadd_def wrapping_def)
qed

lemma umul_overflow:
  "2 ^ w \<le> a * b \<Longrightarrow> overflow_checks p \<Longrightarrow> umul p w a b = Panic"
proof -
  assume *: "2 ^ w \<le> a * b" "overflow_checks p"
  then have "(2::int) ^ w \<le> int a * int b"
    by (metis of_nat_mult of_nat_le_iff of_nat_numeral of_nat_power)
  with * show ?thesis by (simp add: umul_def wrapping_def)
qed

lemma saturating_add_exact: "a + b < 2 ^ w \<Longrightarrow> saturating_add w a b = a + b"
  by (simp add: saturating_add_def)

section \<open>Rounding division\<close>

definition ceil_div :: "nat \<Rightarrow> nat \<Rightarrow> nat" where
  "ceil_div n d = (n + d - 1) div d"

lemma ceil_div_le_iff: "0 < d \<Longrightarrow> ceil_div n d \<le> k \<longleftrightarrow> n \<le> k * d"
  unfolding ceil_div_def by (auto simp: less_Suc_eq_le[symmetric] div_less_iff_less_mult)

lemma ceil_div_less_iff: "0 < d \<Longrightarrow> k < ceil_div n d \<longleftrightarrow> k * d < n"
  using ceil_div_le_iff[of d n k] by linarith

lemma ceil_div_0 [simp]: "0 < d \<Longrightarrow> ceil_div 0 d = 0"
  by (simp add: ceil_div_def)

lemma ceil_div_eq_0_iff [simp]: "0 < d \<Longrightarrow> ceil_div n d = 0 \<longleftrightarrow> n = 0"
  using ceil_div_le_iff[of d n 0] by simp

lemma ceil_div_mult_eq: "0 < d \<Longrightarrow> ceil_div (k * d) d = k"
  using ceil_div_le_iff[of d "k * d"] by (metis le_antisym mult_le_cancel2 order_refl)

lemma ceil_div_unique: "0 < d \<Longrightarrow> (\<And>k. m \<le> k \<longleftrightarrow> n \<le> k * d) \<Longrightarrow> ceil_div n d = m"
  by (metis ceil_div_le_iff le_antisym order_refl)

lemma ceil_div_ceil_div: "0 < a \<Longrightarrow> 0 < b \<Longrightarrow> ceil_div (ceil_div n a) b = ceil_div n (a * b)"
  by (rule ceil_div_unique) (simp_all add: ceil_div_le_iff ac_simps)

lemma ceil_div_1 [simp]: "ceil_div n 1 = n" "ceil_div n (Suc 0) = n"
  by (simp_all add: ceil_div_def)

lemma ceil_div_mono: "m \<le> n \<Longrightarrow> ceil_div m d \<le> ceil_div n d"
  by (simp add: ceil_div_def div_le_mono)

lemma ceil_div_le: "0 < d \<Longrightarrow> ceil_div n d \<le> n"
  by (simp add: ceil_div_le_iff)

lemma ceil_div_shrinks: "1 < n \<Longrightarrow> 1 < d \<Longrightarrow> ceil_div n d < n"
proof -
  assume *: "1 < n" "1 < d"
  then have "n \<le> (n - 1) * 2" by arith
  also have "\<dots> \<le> (n - 1) * d" using * by simp
  finally have "ceil_div n d \<le> n - 1" using * by (simp add: ceil_div_le_iff)
  with * show ?thesis by linarith
qed

lemma ceil_div_step: "0 < d \<Longrightarrow> 0 < n \<Longrightarrow> ceil_div n d = Suc (ceil_div (n - d) d)"
proof -
  assume *: "0 < d" "0 < n"
  then have "ceil_div n d = (n - 1 + d) div d" by (simp add: ceil_div_def)
  also have "\<dots> = Suc ((n - 1) div d)" using *(1) by (simp only: div_add_self2)
  also have "(n - 1) div d = ceil_div (n - d) d"
    using * by (cases "d \<le> n") (simp_all add: ceil_div_def)
  finally show ?thesis .
qed

section \<open>Slices and chunks\<close>

type_synonym u8 = "8 word"
type_synonym bytes = "u8 list"

abbreviation zeros :: "nat \<Rightarrow> bytes" where
  "zeros n \<equiv> replicate n 0"

text \<open>\<open>&xs[a..b]\<close>: panics when the range is inverted or ends beyond the slice.\<close>

definition slice :: "'a list \<Rightarrow> nat \<Rightarrow> nat \<Rightarrow> ('e, 'a list) res" where
  "slice xs a b = (if a \<le> b \<and> b \<le> length xs then Ok (take (b - a) (drop a xs)) else Panic)"

text \<open>\<open>buf[..n].copy_from_slice(data)\<close> with \<open>n = data.len()\<close>, for data that fits.\<close>

definition overwrite :: "'a list \<Rightarrow> 'a list \<Rightarrow> 'a list" where
  "overwrite buf data = data @ drop (length data) buf"

lemma length_overwrite [simp]: "length data \<le> length buf \<Longrightarrow> length (overwrite buf data) = length buf"
  by (simp add: overwrite_def)

lemma take_overwrite [simp]: "take (length data) (overwrite buf data) = data"
  by (simp add: overwrite_def)

lemma overwrite_zeros:
  "overwrite (zeros n) data = data @ zeros (n - length data)"
  by (simp add: overwrite_def)

text \<open>\<open>xs.chunks(n)\<close> for a positive \<open>n\<close>.\<close>

function chunks :: "nat \<Rightarrow> 'a list \<Rightarrow> 'a list list" where
  "chunks n xs = (if n = 0 \<or> xs = [] then [] else take n xs # chunks n (drop n xs))"
  by pat_completeness auto
termination
  by (relation "measure (\<lambda>(n, xs). length xs)") auto

declare chunks.simps [simp del]

lemma chunks_Nil [simp]: "chunks n [] = []"
  by (simp add: chunks.simps)

lemma chunks_step: "0 < n \<Longrightarrow> xs \<noteq> [] \<Longrightarrow> chunks n xs = take n xs # chunks n (drop n xs)"
  by (subst chunks.simps) simp

lemma length_chunks: "0 < n \<Longrightarrow> length (chunks n xs) = ceil_div (length xs) n"
proof (induction n xs rule: chunks.induct)
  case (1 n xs)
  then show ?case
    by (cases "xs = []") (simp_all add: chunks_step ceil_div_step[of _ "length xs"])
qed

lemma nth_chunks:
  "0 < n \<Longrightarrow> i < ceil_div (length xs) n \<Longrightarrow> chunks n xs ! i = take n (drop (i * n) xs)"
proof (induction n xs arbitrary: i rule: chunks.induct)
  case (1 n xs)
  then have "xs \<noteq> []" by auto
  with 1 show ?case
    by (cases i) (auto simp: chunks_step ceil_div_step[of _ "length xs"] ac_simps)
qed

lemma concat_chunks: "0 < n \<Longrightarrow> concat (chunks n xs) = xs"
proof (induction n xs rule: chunks.induct)
  case (1 n xs)
  then show ?case by (cases "xs = []") (simp_all add: chunks_step)
qed

lemma length_chunk_le: "c \<in> set (chunks n xs) \<Longrightarrow> length c \<le> n"
proof (induction n xs rule: chunks.induct)
  case (1 n xs)
  then show ?case by (cases "n = 0 \<or> xs = []") (auto simp: chunks.simps[of n xs])
qed

lemma take_drop_concat:
  "\<forall>x \<in> set xs. length x = n \<Longrightarrow> k < length xs \<Longrightarrow> take n (drop (k * n) (concat xs)) = xs ! k"
proof (induction xs arbitrary: k)
  case (Cons x xs)
  then show ?case by (cases k) simp_all
qed simp

lemma length_concat_const: "\<forall>x \<in> set xs. length x = n \<Longrightarrow> length (concat xs) = length xs * n"
  by (induction xs) auto

lemma chunks_map: "chunks n (map f xs) = map (map f) (chunks n xs)"
proof (induction n xs rule: chunks.induct)
  case (1 n xs)
  then show ?case
    by (cases "n = 0 \<or> xs = []")
      (auto simp: chunks.simps[of n xs] chunks.simps[of n "map f xs"] take_map drop_map)
qed

section \<open>Little-endian bytes\<close>

text \<open>\<open>v.to_le_bytes()\<close> of a \<open>k\<close>-byte integer.\<close>

definition to_le_bytes :: "nat \<Rightarrow> nat \<Rightarrow> bytes" where
  "to_le_bytes k v = map (\<lambda>i. word_of_nat (v div 256 ^ i)) [0..<k]"

lemma length_to_le_bytes [simp]: "length (to_le_bytes k v) = k"
  by (simp add: to_le_bytes_def)

lemma to_le_bytes_Suc: "to_le_bytes (Suc k) v = word_of_nat v # to_le_bytes k (v div 256)"
  by (simp add: to_le_bytes_def map_upt_Suc div_mult2_eq del: upt_Suc)

lemma to_le_bytes_inj:
  "to_le_bytes k v = to_le_bytes k w \<Longrightarrow> v < 256 ^ k \<Longrightarrow> w < 256 ^ k \<Longrightarrow> v = w"
proof (induction k arbitrary: v w)
  case (Suc k)
  then have eq: "(word_of_nat v :: u8) = word_of_nat w" "v div 256 = w div 256"
    by (simp_all add: to_le_bytes_Suc Suc.IH div_less_iff_less_mult mult.commute)
  from arg_cong[OF eq(1), of unat] have "v mod 256 = w mod 256" by (simp add: unat_of_nat)
  with eq(2) show ?case by (metis div_mult_mod_eq)
qed simp

section \<open>I/O errors\<close>

text \<open>\<open>std::io::Error\<close>: an OS error (\<open>from_raw_os_error\<close>) or an error of a kind with a message, of
  which the model keeps the kind. The constants of \<open>libc\<close> the sources name are constructors; any
  other error number is \<open>OtherErrno\<close>.\<close>

datatype errno =
    EACCES | EBADF | EFBIG | EINVAL | EIO | ENODATA | ENOENT | ENOSYS | EOVERFLOW
  | OtherErrno int

datatype error_kind = KindOther | KindInvalidData | KindInvalidInput | KindUnexpectedEof

datatype io_error = Os errno | Custom error_kind

end
