(* ===== verification/Authfs_Common.thy ===== *)
theory Authfs_Common
  imports Prelude
begin

text \<open>
  \<open>authfs/src/common.rs\<close>: the chunk size, rounding division, and \<open>ChunkedSizeIter\<close>, the iterator
  that cuts a byte range into pieces that do not cross an alignment boundary. The iterator is used
  by \<open>fusefs.rs\<close> (reads) and \<open>fsverity/editor.rs\<close> (writes); its contract is the reference list
  \<open>chunk_items\<close>, whose pieces are adjacent, non-empty, aligned and cover the range exactly.
\<close>

definition CHUNK_SIZE :: nat where
  "CHUNK_SIZE = 4096"

definition divide_roundup :: "profile \<Rightarrow> nat \<Rightarrow> nat \<Rightarrow> ('e, nat) res" where
  "divide_roundup p dividend divisor =
     try_r (uadd p 64 dividend divisor) (\<lambda>s.
     try_r (usub p 64 s 1) (\<lambda>t.
     udiv t divisor))"

record chunked_size_iter =
  remaining :: nat
  offset :: nat
  alignment :: nat

definition ChunkedSizeIter_new :: "nat \<Rightarrow> nat \<Rightarrow> nat \<Rightarrow> chunked_size_iter" where
  "ChunkedSizeIter_new r off al = \<lparr>remaining = r, offset = off, alignment = al\<rparr>"

text \<open>The remainder is below the alignment, so \<open>self.alignment - (self.offset % self.alignment)\<close>
  cannot underflow and is the plain difference.\<close>

definition ChunkedSizeIter_next ::
  "profile \<Rightarrow> chunked_size_iter \<Rightarrow> ('e, (nat \<times> nat) option \<times> chunked_size_iter) res" where
  "ChunkedSizeIter_next p self =
     (if remaining self = 0 then Ok (None, self)
      else
        try_r (urem (offset self) (alignment self)) (\<lambda>m.
        let chunk_data_size = min (remaining self) (alignment self - m);
            retval = (offset self, chunk_data_size)
        in
        try_r (uadd p 64 (offset self) chunk_data_size) (\<lambda>new_offset.
        Ok (Some retval,
            self\<lparr>offset := new_offset,
                 remaining := saturating_sub (remaining self) chunk_data_size\<rparr>))))"

lemma ChunkedSizeIter_next_decreases:
  "ChunkedSizeIter_next p it = Ok (Some x, it') \<Longrightarrow> remaining it' < remaining it"
  by (auto simp: ChunkedSizeIter_next_def try_r_Ok_iff Let_def urem_def split: if_splits)

text \<open>\<open>iter.try_fold(init, f)\<close> on this iterator: the body runs between two calls of \<open>next\<close>. The
  iterator ends because every item is at least one byte long.\<close>

function chunked_try_fold ::
  "profile \<Rightarrow> ('b \<Rightarrow> nat \<times> nat \<Rightarrow> ('e, 'b) res) \<Rightarrow> 'b \<Rightarrow> chunked_size_iter \<Rightarrow> ('e, 'b) res" where
  "chunked_try_fold p f acc it =
     try_r (ChunkedSizeIter_next p it) (\<lambda>(item, it').
     case item of
       None \<Rightarrow> Ok acc
     | Some x \<Rightarrow> try_r (f acc x) (\<lambda>acc'. chunked_try_fold p f acc' it'))"
  by pat_completeness auto
termination
  by (relation "measure (\<lambda>(p, f, acc, it). remaining it)")
    (auto dest: ChunkedSizeIter_next_decreases)

declare chunked_try_fold.simps [simp del]

section \<open>The reference decomposition\<close>

function chunk_items :: "nat \<Rightarrow> nat \<Rightarrow> nat \<Rightarrow> (nat \<times> nat) list" where
  "chunk_items al off r =
     (if r = 0 \<or> al = 0 then []
      else let k = min r (al - off mod al) in (off, k) # chunk_items al (off + k) (r - k))"
  by pat_completeness auto
termination
  by (relation "measure (\<lambda>(al, off, r). r)") (auto simp: min_def)

declare chunk_items.simps [simp del]

lemma chunk_items_0 [simp]: "chunk_items al off 0 = []"
  by (simp add: chunk_items.simps)

lemma chunk_items_step:
  "0 < r \<Longrightarrow> 0 < al \<Longrightarrow>
   chunk_items al off r =
     (off, min r (al - off mod al))
     # chunk_items al (off + min r (al - off mod al)) (r - min r (al - off mod al))"
  by (subst chunk_items.simps) (simp add: Let_def)

lemma ChunkedSizeIter_next_step:
  assumes "0 < r" "0 < al" "off + r < 2 ^ 64"
  shows "ChunkedSizeIter_next p (ChunkedSizeIter_new r off al) =
    (let k = min r (al - off mod al)
     in Ok (Some (off, k), ChunkedSizeIter_new (r - k) (off + k) al))"
  using assms
  by (auto simp: ChunkedSizeIter_next_def ChunkedSizeIter_new_def Let_def uadd_ok)

text \<open>As long as the range ends below \<open>2 ^ 64\<close>, folding over the iterator is folding over the
  reference list, in every build profile.\<close>

lemma chunked_try_fold_eq:
  "0 < al \<Longrightarrow> off + r < 2 ^ 64 \<Longrightarrow>
   chunked_try_fold p f acc (ChunkedSizeIter_new r off al) = try_fold f acc (chunk_items al off r)"
proof (induction r arbitrary: off acc rule: less_induct)
  case (less r)
  show ?case
  proof (cases "r = 0")
    case True
    then show ?thesis
      by (simp add: chunked_try_fold.simps ChunkedSizeIter_next_def ChunkedSizeIter_new_def)
  next
    case False
    define k where "k = min r (al - off mod al)"
    have k: "0 < k" "k \<le> r" using False less.prems by (auto simp: k_def)
    have IH: "chunked_try_fold p f acc' (ChunkedSizeIter_new (r - k) (off + k) al) =
        try_fold f acc' (chunk_items al (off + k) (r - k))" for acc'
      using k less.prems False by (intro less.IH) auto
    show ?thesis
      using False less.prems
      by (subst chunked_try_fold.simps)
        (simp add: ChunkedSizeIter_next_step chunk_items_step IH[unfolded k_def] Let_def)
  qed
qed

lemma chunk_items_sum: "0 < al \<Longrightarrow> sum_list (map snd (chunk_items al off r)) = r"
proof (induction al off r rule: chunk_items.induct)
  case (1 al off r)
  then show ?case by (cases "r = 0") (simp_all add: chunk_items_step)
qed

lemma chunk_items_bounds:
  "(o', k) \<in> set (chunk_items al off r) \<Longrightarrow>
   0 < k \<and> o' mod al + k \<le> al \<and> off \<le> o' \<and> o' + k \<le> off + r"
proof (induction al off r rule: chunk_items.induct)
  case (1 al off r)
  then have pos: "0 < r" "0 < al" by (auto simp: chunk_items.simps split: if_splits)
  define m where "m = min r (al - off mod al)"
  have m: "0 < m" "off mod al + m \<le> al" "m \<le> r"
    using pos by (auto simp: m_def min_def Suc_leI)
  from 1(2) pos consider "(o', k) = (off, m)" | "(o', k) \<in> set (chunk_items al (off + m) (r - m))"
    by (auto simp: chunk_items_step m_def)
  then show ?case
  proof cases
    case 1
    with m show ?thesis by simp
  next
    case 2
    with "1.IH" pos m_def m show ?thesis by force
  qed
qed

text \<open>The pieces are adjacent: concatenating the slices they name gives back the whole range.\<close>

lemma chunk_items_concat:
  "0 < al \<Longrightarrow> concat (map (\<lambda>(o', k). take k (drop o' xs)) (chunk_items al off r)) = take r (drop off xs)"
proof (induction al off r rule: chunk_items.induct)
  case (1 al off r)
  show ?case
  proof (cases "r = 0")
    case False
    define m where "m = min r (al - off mod al)"
    have "m \<le> r" by (simp add: m_def)
    have "take m (drop off xs) @ take (r - m) (drop (off + m) xs) = take r (drop off xs)"
      using \<open>m \<le> r\<close> by (metis add.commute drop_drop le_add_diff_inverse take_add)
    with 1 False m_def show ?thesis by (simp add: chunk_items_step)
  qed simp
qed

lemma divide_roundup_ok [in_range]:
  "0 < d \<Longrightarrow> n + d < 2 ^ 64 \<Longrightarrow> divide_roundup p n d = Ok (ceil_div n d)"
  by (simp add: divide_roundup_def ceil_div_def uadd_ok usub_ok)

lemma CHUNK_SIZE_pos [simp]: "0 < CHUNK_SIZE" "CHUNK_SIZE \<noteq> 0"
  by (simp_all add: CHUNK_SIZE_def)

end
