(* ===== verification/Crypto.thy ===== *)
theory Crypto
  imports Prelude
begin

text \<open>
  \<open>authfs/src/crypto.rs\<close> and \<open>authfs/src/auth.rs\<close>. The three BoringSSL functions behind
  \<open>Sha256Hasher\<close> are not part of the repository: they are the fields of \<open>sha256_ffi\<close>, over an
  abstract context type, where \<open>None\<close> is the return value 0. \<open>sha256_spec\<close> is what the library
  documents: initialisation and the streaming interface succeed and hash the concatenation of the
  data, digests are 32 bytes long, and the digest of 4096 zero bytes is the constant that the unit
  test \<open>sha256_of_4096_zeros\<close> checks.
\<close>

datatype crypto_error = Unexpected string

record 'c sha256_ffi =
  SHA256_Init :: "'c option"
  SHA256_Update :: "'c \<Rightarrow> bytes \<Rightarrow> 'c option"
  SHA256_Final :: "'c \<Rightarrow> bytes option"

record 'c sha256_hasher =
  ctx :: 'c

type_synonym hash = bytes

definition HASH_SIZE :: nat where
  "HASH_SIZE = 32"

definition HASH_OF_4096_ZEROS :: hash where
  "HASH_OF_4096_ZEROS =
    [0xad, 0x7f, 0xac, 0xb2, 0x58, 0x6f, 0xc6, 0xe9, 0x66, 0xc0, 0x04, 0xd7, 0xd1, 0xd1, 0x6b,
     0x02, 0x4f, 0x58, 0x05, 0xff, 0x7c, 0xb4, 0x7c, 0x7a, 0x85, 0xda, 0xbd, 0x8b, 0x48, 0x89,
     0x2c, 0xa7]"

definition Sha256Hasher_new :: "'c sha256_ffi \<Rightarrow> (crypto_error, 'c sha256_hasher) res" where
  "Sha256Hasher_new ffi =
     (case SHA256_Init ffi of
        None \<Rightarrow> Err (Unexpected ''SHA256_Init'')
      | Some c \<Rightarrow> Ok \<lparr>ctx = c\<rparr>)"

definition Sha256Hasher_update ::
  "'c sha256_ffi \<Rightarrow> 'c sha256_hasher \<Rightarrow> bytes \<Rightarrow> (crypto_error, 'c sha256_hasher) res" where
  "Sha256Hasher_update ffi self data =
     (case SHA256_Update ffi (ctx self) data of
        None \<Rightarrow> Err (Unexpected ''SHA256_Update'')
      | Some c \<Rightarrow> Ok (self\<lparr>ctx := c\<rparr>))"

definition Sha256Hasher_update_from ::
  "'c sha256_ffi \<Rightarrow> 'c sha256_hasher \<Rightarrow> bytes list \<Rightarrow> (crypto_error, 'c sha256_hasher) res" where
  "Sha256Hasher_update_from ffi self iter = try_fold (Sha256Hasher_update ffi) self iter"

definition Sha256Hasher_finalize ::
  "'c sha256_ffi \<Rightarrow> 'c sha256_hasher \<Rightarrow> (crypto_error, hash) res" where
  "Sha256Hasher_finalize ffi self =
     (case SHA256_Final ffi (ctx self) of
        None \<Rightarrow> Err (Unexpected ''SHA256_Final'')
      | Some md \<Rightarrow> Ok md)"

text \<open>The call chain \<open>Sha256Hasher::new()?.update(d1)? ... .update(dn)?.finalize()\<close>, which is the only
  way the sources use the hasher.\<close>

definition sha256_chain :: "'c sha256_ffi \<Rightarrow> bytes list \<Rightarrow> (crypto_error, hash) res" where
  "sha256_chain ffi parts =
     try_r (Sha256Hasher_new ffi) (\<lambda>h.
     try_r (Sha256Hasher_update_from ffi h parts) (\<lambda>h'.
     Sha256Hasher_finalize ffi h'))"

definition sha256_spec :: "'c sha256_ffi \<Rightarrow> (bytes \<Rightarrow> hash) \<Rightarrow> bool" where
  "sha256_spec ffi sha \<longleftrightarrow>
     (\<exists>absorbed c0.
        SHA256_Init ffi = Some c0 \<and> absorbed c0 = [] \<and>
        (\<forall>c d. \<exists>c'. SHA256_Update ffi c d = Some c' \<and> absorbed c' = absorbed c @ d) \<and>
        (\<forall>c. SHA256_Final ffi c = Some (sha (absorbed c)))) \<and>
     (\<forall>m. length (sha m) = HASH_SIZE) \<and>
     sha (zeros 4096) = HASH_OF_4096_ZEROS"

section \<open>Authenticators\<close>

text \<open>\<open>auth.rs\<close>: an \<open>Authenticator\<close> is its \<open>verify\<close> method.\<close>

type_synonym authenticator = "bytes \<Rightarrow> bytes \<Rightarrow> (io_error, bool) res"

record fake_authenticator =
  should_allow :: bool

definition FakeAuthenticator_always_succeed :: fake_authenticator where
  "FakeAuthenticator_always_succeed = \<lparr>should_allow = True\<rparr>"

definition FakeAuthenticator_always_fail :: fake_authenticator where
  "FakeAuthenticator_always_fail = \<lparr>should_allow = False\<rparr>"

definition FakeAuthenticator_verify :: "fake_authenticator \<Rightarrow> authenticator" where
  "FakeAuthenticator_verify self signature_pem signed_data = Ok (should_allow self)"

section \<open>Streaming is hashing the concatenation\<close>

lemma sha256_spec_update_from:
  assumes upd: "\<forall>c d. \<exists>c'. SHA256_Update ffi c d = Some c' \<and> absorbed c' = absorbed c @ d"
  shows "\<exists>h'. Sha256Hasher_update_from ffi h parts = Ok h' \<and>
    absorbed (ctx h') = absorbed (ctx h) @ concat parts"
proof (induction parts arbitrary: h)
  case Nil
  then show ?case by (simp add: Sha256Hasher_update_from_def)
next
  case (Cons d parts)
  from upd obtain c' where c': "SHA256_Update ffi (ctx h) d = Some c'"
      "absorbed c' = absorbed (ctx h) @ d" by blast
  from Cons[of "h\<lparr>ctx := c'\<rparr>"] c' show ?case
    by (auto simp: Sha256Hasher_update_from_def Sha256Hasher_update_def)
qed

lemma sha256_chain_eq:
  assumes "sha256_spec ffi sha"
  shows "sha256_chain ffi parts = Ok (sha (concat parts))"
proof -
  from assms obtain absorbed c0 where init: "SHA256_Init ffi = Some c0" "absorbed c0 = []"
    and upd: "\<forall>c d. \<exists>c'. SHA256_Update ffi c d = Some c' \<and> absorbed c' = absorbed c @ d"
    and fin: "\<forall>c. SHA256_Final ffi c = Some (sha (absorbed c))"
    unfolding sha256_spec_def by blast
  from sha256_spec_update_from[OF upd, of "\<lparr>ctx = c0\<rparr>" parts] init
  obtain h' where "Sha256Hasher_update_from ffi \<lparr>ctx = c0\<rparr> parts = Ok h'"
    "absorbed (ctx h') = concat parts" by auto
  with init fin show ?thesis
    by (simp add: sha256_chain_def Sha256Hasher_new_def Sha256Hasher_finalize_def)
qed

text \<open>The same chain with every error mapped on its own, as in the callers that return \<open>io::Result\<close>.\<close>

lemma sha256_chain_mapped:
  assumes "sha256_spec ffi sha"
  shows "try_r (map_err e (Sha256Hasher_new ffi)) (\<lambda>h.
    try_r (map_err e (Sha256Hasher_update ffi h a)) (\<lambda>h.
    try_r (map_err e (Sha256Hasher_update ffi h b)) (\<lambda>h.
    map_err e (Sha256Hasher_finalize ffi h)))) = Ok (sha (a @ b))"
  and "try_r (map_err e (Sha256Hasher_new ffi)) (\<lambda>h.
    try_r (map_err e (Sha256Hasher_update ffi h a)) (\<lambda>h.
    try_r (map_err e (Sha256Hasher_update ffi h b)) (\<lambda>h.
    try_r (map_err e (Sha256Hasher_update ffi h c)) (\<lambda>h.
    map_err e (Sha256Hasher_finalize ffi h))))) = Ok (sha (a @ b @ c))"
  using arg_cong[OF sha256_chain_eq[OF assms, of "[a, b]"], of "map_err e"]
    arg_cong[OF sha256_chain_eq[OF assms, of "[a, b, c]"], of "map_err e"]
  by (simp_all add: sha256_chain_def Sha256Hasher_update_from_def try_r_assoc map_err_try_r)

lemma sha256_spec_length [simp]: "sha256_spec ffi sha \<Longrightarrow> length (sha m) = HASH_SIZE"
  by (simp add: sha256_spec_def)

lemma sha256_spec_zeros: "sha256_spec ffi sha \<Longrightarrow> sha (zeros 4096) = HASH_OF_4096_ZEROS"
  by (simp add: sha256_spec_def)

lemma length_HASH_OF_4096_ZEROS [simp]: "length HASH_OF_4096_ZEROS = HASH_SIZE"
  by (simp add: HASH_OF_4096_ZEROS_def HASH_SIZE_def)

section \<open>Collisions\<close>

text \<open>Collision resistance cannot be assumed of a function on all byte strings. What the security
  statements assume is that, in the run at hand, none of the messages \<open>seen\<close> has the hash of a
  different \<open>genuine\<close> message.\<close>

definition no_collision :: "(bytes \<Rightarrow> hash) \<Rightarrow> bytes set \<Rightarrow> bytes set \<Rightarrow> bool" where
  "no_collision sha seen genuine \<longleftrightarrow> (\<forall>m \<in> seen. \<forall>g \<in> genuine. sha m = sha g \<longrightarrow> m = g)"

lemma no_collisionD: "no_collision sha S G \<Longrightarrow> m \<in> S \<Longrightarrow> g \<in> G \<Longrightarrow> sha m = sha g \<Longrightarrow> m = g"
  by (simp add: no_collision_def)

lemma no_collision_mono:
  "no_collision sha S G \<Longrightarrow> S' \<subseteq> S \<Longrightarrow> no_collision sha S' G"
  by (auto simp: no_collision_def)

section \<open>A concrete instance of the interface\<close>

text \<open>Used to evaluate the properties that assume \<open>sha256_spec\<close> on concrete inputs: a context that
  keeps the absorbed data and a "digest" that is its first 32 bytes, except on 4096 zero bytes.\<close>

definition sample_sha :: "bytes \<Rightarrow> hash" where
  "sample_sha m = (if m = zeros 4096 then HASH_OF_4096_ZEROS else take 32 (m @ zeros 32))"

definition sample_ffi :: "bytes sha256_ffi" where
  "sample_ffi =
     \<lparr>SHA256_Init = Some [], SHA256_Update = (\<lambda>c d. Some (c @ d)),
      SHA256_Final = (\<lambda>c. Some (sample_sha c))\<rparr>"

lemma sample_sha256_spec: "sha256_spec sample_ffi sample_sha"
  unfolding sha256_spec_def
  by (intro conjI exI[of _ "\<lambda>c. c"] exI[of _ "[]"])
    (simp_all add: sample_ffi_def sample_sha_def HASH_SIZE_def HASH_OF_4096_ZEROS_def
      min_def)

end
