(* ===== verification/Fsverity_Common.thy ===== *)
theory Fsverity_Common
  imports Authfs_Common Crypto
begin

text \<open>
  \<open>authfs/src/fsverity/common.rs\<close> and \<open>fsverity/sys.rs\<close>: the error type of the fs-verity code, the
  height of the Merkle tree of a file and the fs-verity digest (the hash of the
  \<open>fsverity_descriptor\<close> of \<open>linux/fsverity.h\<close>). The lemmas show that \<open>log128_ceil\<close>, computed from
  the number of leading zeros, is the exact ceiling of the logarithm, and so that
  \<open>merkle_tree_height\<close> is the least number of 128-way levels that brings the hash pages down to
  one.
\<close>

definition FS_VERITY_MAGIC :: bytes where
  "FS_VERITY_MAGIC = map of_char ''FSVerity''"

definition FS_VERITY_VERSION :: nat where
  "FS_VERITY_VERSION = 1"

definition FS_VERITY_HASH_ALG_SHA256 :: nat where
  "FS_VERITY_HASH_ALG_SHA256 = 1"

definition FS_VERITY_LOG_BLOCKSIZE :: nat where
  "FS_VERITY_LOG_BLOCKSIZE = 12"

datatype fsverity_error =
    BadSignature
  | InsufficientData nat
  | CannotVerify
  | FsverityIo io_error
  | UnexpectedCryptoError crypto_error
  | InvalidState

fun bit_length :: "nat \<Rightarrow> nat" where
  "bit_length n = (if n = 0 then 0 else Suc (bit_length (n div 2)))"

declare bit_length.simps [simp del]

text \<open>\<open>u64::leading_zeros\<close>.\<close>

definition leading_zeros_u64 :: "nat \<Rightarrow> nat" where
  "leading_zeros_u64 n = 64 - bit_length n"

definition log128_ceil :: "profile \<Rightarrow> nat \<Rightarrow> ('e, nat option) res" where
  "log128_ceil p num =
     (if num = 0 then Ok None
      else
        try_r (usub p 64 num 1) (\<lambda>m.
        try_r (usub p 64 64 (leading_zeros_u64 m)) (\<lambda>bits.
        try_r (divide_roundup p bits 7) (\<lambda>k. Ok (Some k)))))"

definition merkle_tree_height :: "profile \<Rightarrow> nat \<Rightarrow> ('e, nat option) res" where
  "merkle_tree_height p data_size =
     (let hashes_per_node = CHUNK_SIZE div HASH_SIZE in
      try_r (umul p 64 hashes_per_node CHUNK_SIZE) (\<lambda>node_span.
      try_r (divide_roundup p data_size node_span) (\<lambda>hash_pages.
      log128_ceil p hash_pages)))"

definition build_fsverity_digest ::
  "'c sha256_ffi \<Rightarrow> hash \<Rightarrow> nat \<Rightarrow> (crypto_error, hash) res" where
  "build_fsverity_digest ffi root_hash file_size =
     sha256_chain ffi
       [to_le_bytes 1 FS_VERITY_VERSION,
        to_le_bytes 1 FS_VERITY_HASH_ALG_SHA256,
        to_le_bytes 1 FS_VERITY_LOG_BLOCKSIZE,
        to_le_bytes 1 0,
        to_le_bytes 4 0,
        to_le_bytes 8 file_size,
        root_hash,
        zeros 32,
        zeros 32,
        zeros 32,
        zeros 32,
        zeros 32,
        zeros 32,
        zeros 16]"

section \<open>The logarithm is exact\<close>

lemma bit_length_le_iff: "bit_length n \<le> k \<longleftrightarrow> n < 2 ^ k"
proof (induction n arbitrary: k rule: bit_length.induct)
  case (1 n)
  show ?case
  proof (cases "n = 0")
    case True
    then show ?thesis by (simp add: bit_length.simps)
  next
    case False
    show ?thesis
    proof (cases k)
      case 0
      with False show ?thesis by (simp add: bit_length.simps[of n])
    next
      case (Suc j)
      have "n div 2 < 2 ^ j \<longleftrightarrow> n < 2 ^ k"
        using Suc by (simp add: div_less_iff_less_mult mult.commute)
      with "1.IH"[OF False, of j] False Suc show ?thesis by (simp add: bit_length.simps[of n])
    qed
  qed
qed

definition log128 :: "nat \<Rightarrow> nat" where
  "log128 n = ceil_div (bit_length (n - 1)) 7"

lemma log128_le_iff: "0 < n \<Longrightarrow> log128 n \<le> k \<longleftrightarrow> n \<le> 128 ^ k"
proof -
  assume "0 < n"
  have "log128 n \<le> k \<longleftrightarrow> n - 1 < 2 ^ (k * 7)"
    by (simp add: log128_def ceil_div_le_iff bit_length_le_iff)
  also have "(2::nat) ^ (k * 7) = 128 ^ k"
    by (simp add: mult.commute[of k] power_mult)
  finally show ?thesis using \<open>0 < n\<close> by linarith
qed

lemma usub_leading_zeros [in_range]:
  "m < 2 ^ 64 \<Longrightarrow> usub p 64 64 (leading_zeros_u64 m) = Ok (bit_length m)"
  using bit_length_le_iff[of m 64] by (simp add: leading_zeros_u64_def usub_ok)

lemma log128_ceil_eq [in_range]:
  assumes "num < 2 ^ 64"
  shows "log128_ceil p num = Ok (if num = 0 then None else Some (log128 num))"
proof -
  have "bit_length (num - 1) \<le> 64"
    using assms by (simp add: bit_length_le_iff)
  then show ?thesis
    using assms by (simp add: log128_ceil_def in_range log128_def)
qed

lemma hashes_per_node [simp]: "CHUNK_SIZE div HASH_SIZE = 128"
  by (simp add: CHUNK_SIZE_def HASH_SIZE_def)

text \<open>The number of pages of the lowest level of the tree, and the index of the top level.\<close>

definition hash_pages :: "nat \<Rightarrow> nat" where
  "hash_pages n = ceil_div n (128 * CHUNK_SIZE)"

definition max_level_of :: "nat \<Rightarrow> nat" where
  "max_level_of n = log128 (hash_pages n)"

lemma hash_pages_pos [simp]: "0 < n \<Longrightarrow> 0 < hash_pages n"
  by (simp add: hash_pages_def flip: neq0_conv)

lemma merkle_tree_height_eq [in_range]:
  assumes "n + 128 * CHUNK_SIZE < 2 ^ 64"
  shows "merkle_tree_height p n = Ok (if n = 0 then None else Some (max_level_of n))"
proof -
  have "hash_pages n \<le> n" by (simp add: hash_pages_def ceil_div_le)
  then have "hash_pages n < 2 ^ 64" using assms by linarith
  with assms show ?thesis
    by (simp add: merkle_tree_height_def in_range max_level_of_def flip: hash_pages_def)
      (simp add: hash_pages_def)
qed

end
