(* ===== verification/File_Blocks.thy ===== *)
theory File_Blocks
  imports Authfs_Common
begin

text \<open>
  The abstract view of a file that the specifications of the readers, the builder and the editor
  share: a byte string, read block by block with zero padding. \<open>byte_at\<close> extends the content with
  zeros, so that equal padded blocks, growing a file with zeros and overwriting a range can all be
  stated on bytes. \<open>write_bytes\<close> and \<open>resize_bytes\<close> are \<open>pwrite(2)\<close> and \<open>ftruncate(2)\<close> on the
  content of a regular file.
\<close>

lemma div_same_block: "off mod c + d < c \<Longrightarrow> (off + d) div c = off div (c :: nat)"
proof -
  assume "off mod c + d < c"
  moreover have "off + d = off mod c + d + off div c * c" by simp
  ultimately show ?thesis by (simp only: div_mult_self1) simp
qed

definition byte_at :: "bytes \<Rightarrow> nat \<Rightarrow> u8" where
  "byte_at c k = (if k < length c then c ! k else 0)"

definition block :: "bytes \<Rightarrow> nat \<Rightarrow> bytes" where
  "block c i = take CHUNK_SIZE (drop (i * CHUNK_SIZE) c)"

definition pad_block :: "bytes \<Rightarrow> bytes" where
  "pad_block b = b @ zeros (CHUNK_SIZE - length b)"

definition num_blocks :: "bytes \<Rightarrow> nat" where
  "num_blocks c = ceil_div (length c) CHUNK_SIZE"

definition write_bytes :: "bytes \<Rightarrow> nat \<Rightarrow> bytes \<Rightarrow> bytes" where
  "write_bytes c off data =
     (if data = [] then c
      else take off (c @ zeros (off - length c)) @ data @ drop (off + length data) c)"

definition resize_bytes :: "bytes \<Rightarrow> nat \<Rightarrow> bytes" where
  "resize_bytes c n = take n c @ zeros (n - length c)"

lemma length_block: "length (block c i) = min CHUNK_SIZE (length c - i * CHUNK_SIZE)"
  by (simp add: block_def)

lemma length_block_le [simp]: "length (block c i) \<le> CHUNK_SIZE"
  by (simp add: length_block)

lemma length_pad_block: "length b \<le> CHUNK_SIZE \<Longrightarrow> length (pad_block b) = CHUNK_SIZE"
  by (simp add: pad_block_def)

lemma length_pad_block_block [simp]: "length (pad_block (block c i)) = CHUNK_SIZE"
  by (simp add: length_pad_block)

lemma nth_pad_block_block:
  "j < CHUNK_SIZE \<Longrightarrow> pad_block (block c i) ! j = byte_at c (i * CHUNK_SIZE + j)"
  by (auto simp: pad_block_def block_def byte_at_def nth_append)

lemma pad_block_block_eq_iff:
  "pad_block (block c i) = pad_block (block d i) \<longleftrightarrow>
   (\<forall>j < CHUNK_SIZE. byte_at c (i * CHUNK_SIZE + j) = byte_at d (i * CHUNK_SIZE + j))"
  by (auto simp: list_eq_iff_nth_eq nth_pad_block_block)

lemma overwrite_zeros_block: "overwrite (zeros CHUNK_SIZE) b = pad_block b"
  by (simp add: overwrite_zeros pad_block_def)

lemma block_in_range_nonempty: "i * CHUNK_SIZE < length c \<Longrightarrow> block c i \<noteq> []"
  by (simp add: block_def)

lemma block_beyond [simp]: "length c \<le> i * CHUNK_SIZE \<Longrightarrow> block c i = []"
  by (simp add: block_def)

lemma less_num_blocks_iff: "i < num_blocks c \<longleftrightarrow> i * CHUNK_SIZE < length c"
  by (simp add: num_blocks_def ceil_div_less_iff)

lemma chunks_blocks: "chunks CHUNK_SIZE c = map (block c) [0..<num_blocks c]"
  by (rule nth_equalityI) (simp_all add: length_chunks num_blocks_def nth_chunks block_def)

lemma length_write_bytes:
  "length (write_bytes c off data) = (if data = [] then length c else max (length c) (off + length data))"
  by (auto simp: write_bytes_def)

lemma byte_at_write_bytes:
  "byte_at (write_bytes c off data) k =
     (if off \<le> k \<and> k < off + length data then data ! (k - off) else byte_at c k)"
  by (cases "data = []") (auto simp: byte_at_def write_bytes_def nth_append min_def)

lemma length_resize_bytes [simp]: "length (resize_bytes c n) = n"
  by (simp add: resize_bytes_def)

lemma byte_at_resize_bytes: "byte_at (resize_bytes c n) k = (if k < n then byte_at c k else 0)"
  by (auto simp: byte_at_def resize_bytes_def nth_append)

lemma bytes_eqI: "length c = length d \<Longrightarrow> (\<And>k. k < length c \<Longrightarrow> byte_at c k = byte_at d k) \<Longrightarrow> c = d"
  by (auto simp: list_eq_iff_nth_eq byte_at_def)

lemma read_written: "take (length data) (drop off (write_bytes c off data)) = data"
  by (simp add: write_bytes_def)

text \<open>Writing a buffer piece by piece, in the order of the offsets, is writing it at once.\<close>

lemma write_bytes_append:
  "write_bytes (write_bytes c off xs) (off + length xs) ys = write_bytes c off (xs @ ys)"
  by (rule bytes_eqI) (auto simp: length_write_bytes byte_at_write_bytes nth_append)

lemma take_drop_blocks:
  "off mod CHUNK_SIZE + k \<le> CHUNK_SIZE \<Longrightarrow>
   take k (drop (off mod CHUNK_SIZE) (block c (off div CHUNK_SIZE))) = take k (drop off c)"
  by (simp add: block_def drop_take min_absorb1 add.commute)

text \<open>Replacing a range inside a block is writing it to the file.\<close>

lemma splice_block:
  fixes c :: bytes
  assumes "off mod CHUNK_SIZE + length src \<le> CHUNK_SIZE"
  defines "b \<equiv> pad_block (block c (off div CHUNK_SIZE))" and "m \<equiv> off mod CHUNK_SIZE"
  shows "take m b @ src @ drop (m + length src) b =
    pad_block (block (write_bytes c off src) (off div CHUNK_SIZE))"
proof (rule nth_equalityI)
  have len: "length b = CHUNK_SIZE" by (simp add: b_def)
  have off: "off = off div CHUNK_SIZE * CHUNK_SIZE + m" by (simp add: m_def)
  show "length (take m b @ src @ drop (m + length src) b) =
      length (pad_block (block (write_bytes c off src) (off div CHUNK_SIZE)))"
    using assms(1) len by (simp add: m_def)
  fix j assume "j < length (take m b @ src @ drop (m + length src) b)"
  then have j: "j < CHUNK_SIZE" using assms(1) len by (simp add: m_def)
  let ?k = "off div CHUNK_SIZE * CHUNK_SIZE + j"
  have k: "?k - off = j - m" "off \<le> ?k \<longleftrightarrow> m \<le> j" "?k < off + length src \<longleftrightarrow> j < m + length src"
    using off by linarith+
  have "pad_block (block (write_bytes c off src) (off div CHUNK_SIZE)) ! j =
      (if m \<le> j \<and> j < m + length src then src ! (j - m) else byte_at c ?k)"
    using j by (simp add: nth_pad_block_block byte_at_write_bytes k)
  moreover have "b ! j = byte_at c ?k" using j by (simp add: b_def nth_pad_block_block)
  moreover have "m \<le> CHUNK_SIZE" using assms(1) by (simp add: m_def)
  ultimately show "(take m b @ src @ drop (m + length src) b) ! j =
      pad_block (block (write_bytes c off src) (off div CHUNK_SIZE)) ! j"
    using len j by (auto simp: nth_append)
qed

end
