(* ===== verification/Merkle_Builder.thy ===== *)
theory Merkle_Builder
  imports Fsverity_Common File_Blocks
begin

text \<open>
  \<open>authfs/src/fsverity/builder.rs\<close>: \<open>MerkleLeaves\<close>, the leaf hashes and the size of a file that is
  being written, and the computation of its fs-verity digest. The reference definitions are
  \<open>leaves_of\<close> (one hash per zero-padded block), \<open>merkle_root\<close> (hash pages of 128 hashes until one
  hash is left) and \<open>fsverity_digest\<close>. The lemmas show that every level computation of
  \<open>calculate_root_hash\<close> ends in exactly one hash, and that growing and updating the leaves are
  growing and overwriting the file.
\<close>

definition HASH_PER_PAGE :: nat where
  "HASH_PER_PAGE = CHUNK_SIZE div HASH_SIZE"

record merkle_leaves =
  leaves :: "hash list"
  file_size :: nat

definition hash_all_pages :: "'c sha256_ffi \<Rightarrow> hash list \<Rightarrow> (crypto_error, hash list) res" where
  "hash_all_pages ffi source =
     try_map
       (\<lambda>chunk.
          let padding_bytes = (HASH_PER_PAGE - length chunk) * HASH_SIZE
          in sha256_chain ffi (chunk @ [zeros padding_bytes]))
       (chunks HASH_PER_PAGE source)"

definition MerkleLeaves_new :: merkle_leaves where
  "MerkleLeaves_new = \<lparr>leaves = [], file_size = 0\<rparr>"

definition MerkleLeaves_file_size :: "merkle_leaves \<Rightarrow> nat" where
  "MerkleLeaves_file_size self = file_size self"

text \<open>\<open>Vec::resize\<close>.\<close>

definition vec_resize :: "'a list \<Rightarrow> nat \<Rightarrow> 'a \<Rightarrow> 'a list" where
  "vec_resize xs n v = take n xs @ replicate (n - length xs) v"

definition MerkleLeaves_resize ::
  "profile \<Rightarrow> merkle_leaves \<Rightarrow> nat \<Rightarrow> ('e, merkle_leaves) res" where
  "MerkleLeaves_resize p self new_file_size =
     try_r (divide_roundup p new_file_size CHUNK_SIZE) (\<lambda>leaves_size.
     Ok (self\<lparr>leaves := vec_resize (leaves self) leaves_size HASH_OF_4096_ZEROS,
              file_size := new_file_size\<rparr>))"

definition MerkleLeaves_update_hash ::
  "profile \<Rightarrow> merkle_leaves \<Rightarrow> nat \<Rightarrow> hash \<Rightarrow> nat \<Rightarrow> ('e, merkle_leaves) res" where
  "MerkleLeaves_update_hash p self index hash size_at_least =
     try_r (uadd p 64 index 1) (\<lambda>needed.
     let grown =
           (if length (leaves self) < needed
            then vec_resize (leaves self) needed HASH_OF_4096_ZEROS else leaves self)
     in
     assert_r (index < length grown)
       (let self' = self\<lparr>leaves := grown[index := hash]\<rparr>
        in Ok (if size_at_least > file_size self' then self'\<lparr>file_size := size_at_least\<rparr>
               else self')))"

definition MerkleLeaves_is_index_valid :: "merkle_leaves \<Rightarrow> nat \<Rightarrow> bool" where
  "MerkleLeaves_is_index_valid self index \<longleftrightarrow> index < length (leaves self)"

definition MerkleLeaves_is_consistent :: "merkle_leaves \<Rightarrow> nat \<Rightarrow> hash \<Rightarrow> bool" where
  "MerkleLeaves_is_consistent self index hash \<longleftrightarrow>
     (if index < length (leaves self) then leaves self ! index = hash else False)"

definition MerkleLeaves_calculate_root_hash ::
  "profile \<Rightarrow> 'c sha256_ffi \<Rightarrow> merkle_leaves \<Rightarrow> (fsverity_error, hash) res" where
  "MerkleLeaves_calculate_root_hash p ffi self =
     (let n = length (leaves self) in
      if n = 0 then
        debug_assert p (file_size self = 0) (Ok (zeros HASH_SIZE))
      else if n = 1 then
        debug_assert p (file_size self \<le> CHUNK_SIZE \<and> file_size self > 0) (Ok (leaves self ! 0))
      else
        try_r (if debug_assertions p
               then try_r (usub p 64 (file_size self) 1) (\<lambda>m. assert_r (m div CHUNK_SIZE = n) (Ok ()))
               else Ok ()) (\<lambda>_.
        try_r (umul p 64 n CHUNK_SIZE) (\<lambda>size_for_equivalent.
        try_r (try_r (merkle_tree_height p size_for_equivalent) unwrap) (\<lambda>level.
        try_r (map_err UnexpectedCryptoError (hash_all_pages ffi (leaves self))) (\<lambda>second_level.
        try_r (map_err UnexpectedCryptoError
                 (try_fold (\<lambda>source _. hash_all_pages ffi source) second_level [1..<Suc level]))
          (\<lambda>hashes.
        if length hashes \<noteq> 1 then Err InvalidState else Ok (hashes ! 0)))))))"

definition MerkleLeaves_calculate_fsverity_digest ::
  "profile \<Rightarrow> 'c sha256_ffi \<Rightarrow> merkle_leaves \<Rightarrow> (fsverity_error, hash) res" where
  "MerkleLeaves_calculate_fsverity_digest p ffi self =
     try_r (MerkleLeaves_calculate_root_hash p ffi self) (\<lambda>root_hash.
     map_err UnexpectedCryptoError (build_fsverity_digest ffi root_hash (file_size self)))"

section \<open>Reference definitions\<close>

definition hash_page :: "(bytes \<Rightarrow> hash) \<Rightarrow> hash list \<Rightarrow> hash" where
  "hash_page sha hs = sha (concat hs @ zeros ((128 - length hs) * HASH_SIZE))"

definition next_level :: "(bytes \<Rightarrow> hash) \<Rightarrow> hash list \<Rightarrow> hash list" where
  "next_level sha hs = map (hash_page sha) (chunks 128 hs)"

lemma length_next_level [simp]: "length (next_level sha hs) = ceil_div (length hs) 128"
  by (simp add: next_level_def length_chunks)

function merkle_root :: "(bytes \<Rightarrow> hash) \<Rightarrow> hash list \<Rightarrow> hash" where
  "merkle_root sha hs =
     (if hs = [] then zeros HASH_SIZE
      else if length hs = 1 then hs ! 0
      else merkle_root sha (next_level sha hs))"
  by pat_completeness auto
termination
  by (relation "measure (\<lambda>(sha, hs). length hs)")
    (auto intro!: ceil_div_shrinks simp: neq_Nil_conv)

declare merkle_root.simps [simp del]

definition leaves_of :: "(bytes \<Rightarrow> hash) \<Rightarrow> bytes \<Rightarrow> hash list" where
  "leaves_of sha content = map (\<lambda>i. sha (pad_block (block content i))) [0..<num_blocks content]"

definition fsverity_descriptor :: "hash \<Rightarrow> nat \<Rightarrow> bytes" where
  "fsverity_descriptor root_hash n =
     [1, 1, 12, 0] @ zeros 4 @ to_le_bytes 8 n @ root_hash @ zeros 208"

definition fsverity_digest :: "(bytes \<Rightarrow> hash) \<Rightarrow> bytes \<Rightarrow> hash" where
  "fsverity_digest sha content =
     sha (fsverity_descriptor (merkle_root sha (leaves_of sha content)) (length content))"

definition merkle_of :: "(bytes \<Rightarrow> hash) \<Rightarrow> bytes \<Rightarrow> merkle_leaves" where
  "merkle_of sha content = \<lparr>leaves = leaves_of sha content, file_size = length content\<rparr>"

section \<open>The levels of the tree\<close>

lemma HASH_PER_PAGE_eq [simp]: "HASH_PER_PAGE = 128"
  by (simp add: HASH_PER_PAGE_def)

lemma hash_all_pages_eq:
  "sha256_spec ffi sha \<Longrightarrow> hash_all_pages ffi hs = Ok (next_level sha hs)"
  by (simp add: hash_all_pages_def next_level_def hash_page_def Let_def sha256_chain_eq try_map_Ok)

lemma length_iterate_next_level:
  "length ((next_level sha ^^ k) hs) = ceil_div (length hs) (128 ^ k)"
  by (induction k) (simp_all add: ceil_div_ceil_div mult.commute)

lemma try_fold_next_level:
  "try_fold (\<lambda>source _. Ok (next_level sha source)) hs xs = Ok ((next_level sha ^^ length xs) hs)"
  by (induction xs arbitrary: hs) (simp_all add: funpow_swap1)

lemma merkle_root_iterate:
  assumes "\<And>j. j < k \<Longrightarrow> 1 < length ((next_level sha ^^ j) hs)"
    and "length ((next_level sha ^^ k) hs) = 1"
  shows "merkle_root sha hs = (next_level sha ^^ k) hs ! 0"
  using assms
proof (induction k arbitrary: hs)
  case 0
  then show ?case by (subst merkle_root.simps) auto
next
  case (Suc k)
  have "1 < length hs" using Suc.prems(1)[of 0] by simp
  then have "hs \<noteq> []" "length hs \<noteq> 1" by auto
  then have "merkle_root sha hs = merkle_root sha (next_level sha hs)"
    by (subst merkle_root.simps) auto
  also have "\<dots> = (next_level sha ^^ k) (next_level sha hs) ! 0"
    using Suc.prems(1)[of "Suc j" for j] Suc.prems(2)
    by (intro Suc.IH) (simp_all add: funpow_swap1)
  finally show ?case by (simp add: funpow_swap1)
qed

text \<open>The level that \<open>calculate_root_hash\<close> computes from the number of leaves is where the reference
  recursion stops.\<close>

lemma merkle_root_levels:
  assumes "1 < length hs"
  defines "k \<equiv> Suc (log128 (ceil_div (length hs) 128))"
  shows "length ((next_level sha ^^ k) hs) = 1"
    and "merkle_root sha hs = (next_level sha ^^ k) hs ! 0"
proof -
  let ?m = "ceil_div (length hs) 128"
  have pos: "0 < ?m" using assms(1) by (auto simp flip: neq0_conv)
  have iter: "length ((next_level sha ^^ Suc j) hs) = ceil_div ?m (128 ^ j)" for j
    by (simp only: length_iterate_next_level power_Suc) (simp add: ceil_div_ceil_div)
  have "ceil_div ?m (128 ^ log128 ?m) \<le> 1"
    using log128_le_iff[OF pos, of "log128 ?m"] by (simp add: ceil_div_le_iff)
  moreover have "0 < ceil_div ?m (128 ^ log128 ?m)" using pos by (simp flip: neq0_conv)
  ultimately show one: "length ((next_level sha ^^ k) hs) = 1"
    unfolding k_def iter by linarith
  have "1 < length ((next_level sha ^^ j) hs)" if "j < k" for j
  proof (cases j)
    case 0
    then show ?thesis using assms(1) by simp
  next
    case (Suc i)
    with that have "\<not> log128 ?m \<le> i" by (simp add: k_def)
    then have "1 * 128 ^ i < ?m" using log128_le_iff[OF pos] by simp
    then show ?thesis unfolding Suc iter by (subst ceil_div_less_iff) simp_all
  qed
  then show "merkle_root sha hs = (next_level sha ^^ k) hs ! 0"
    using one by (rule merkle_root_iterate)
qed

lemma hash_pages_leaves: "hash_pages (n * CHUNK_SIZE) = ceil_div n 128"
  using ceil_div_ceil_div[of CHUNK_SIZE 128 "n * CHUNK_SIZE"] ceil_div_mult_eq[of CHUNK_SIZE n]
  by (simp add: hash_pages_def mult.commute[of CHUNK_SIZE 128])

lemma calculate_root_hash_eq:
  assumes sha: "sha256_spec ffi sha" and dbg: "\<not> debug_assertions p"
    and fits: "length (leaves t) * CHUNK_SIZE + 128 * CHUNK_SIZE < 2 ^ 64"
  shows "MerkleLeaves_calculate_root_hash p ffi t = Ok (merkle_root sha (leaves t))"
proof (cases "length (leaves t) \<le> 1")
  case True
  then consider "leaves t = []" | h where "leaves t = [h]"
    by (metis One_nat_def le_SucE le_zero_eq length_0_conv length_Suc_conv)
  then show ?thesis
    using dbg by cases (simp_all add: MerkleLeaves_calculate_root_hash_def merkle_root.simps)
next
  case False
  then have many: "1 < length (leaves t)" by simp
  then have "leaves t \<noteq> []" "length (leaves t) \<noteq> 1" by auto
  with dbg fits merkle_root_levels[OF many, of sha] show ?thesis
    by (simp add: MerkleLeaves_calculate_root_hash_def Let_def in_range max_level_of_def
        hash_pages_leaves hash_all_pages_eq[OF sha] try_fold_next_level funpow_swap1
        del: upt_Suc)
qed

section \<open>The leaves of a file\<close>

lemma length_leaves_of [simp]: "length (leaves_of sha c) = num_blocks c"
  by (simp add: leaves_of_def)

lemma nth_leaves_of: "i < num_blocks c \<Longrightarrow> leaves_of sha c ! i = sha (pad_block (block c i))"
  by (simp add: leaves_of_def)

lemma length_vec_resize [simp]: "length (vec_resize xs n v) = n"
  by (simp add: vec_resize_def)

lemma nth_vec_resize:
  "i < n \<Longrightarrow> vec_resize xs n v ! i = (if i < length xs then xs ! i else v)"
  by (auto simp: vec_resize_def nth_append)

lemma pad_block_beyond: "num_blocks c \<le> i \<Longrightarrow> pad_block (block c i) = zeros 4096"
  using less_num_blocks_iff[of i c] by (simp add: pad_block_def CHUNK_SIZE_def not_less)

lemma vec_resize_leaves_nth:
  assumes "sha256_spec ffi sha" "i < n"
  shows "vec_resize (leaves_of sha c) n HASH_OF_4096_ZEROS ! i = sha (pad_block (block c i))"
  using assms
  by (simp add: nth_vec_resize nth_leaves_of pad_block_beyond sha256_spec_zeros)

lemma pad_block_resize:
  assumes "length c \<le> n \<or> CHUNK_SIZE dvd n" "i < num_blocks (resize_bytes c n)"
  shows "pad_block (block (resize_bytes c n) i) = pad_block (block c i)"
proof -
  have "byte_at c k = 0" if "n \<le> k" "k < Suc i * CHUNK_SIZE" for k
  proof -
    have "i * CHUNK_SIZE < n" using assms(2) by (simp add: less_num_blocks_iff)
    moreover have "\<not> (CHUNK_SIZE dvd n)"
    proof
      assume "CHUNK_SIZE dvd n"
      then obtain q where q: "n = q * CHUNK_SIZE" by (auto elim: dvdE simp: mult.commute)
      with \<open>i * CHUNK_SIZE < n\<close> have "Suc i \<le> q" by simp
      then have "Suc i * CHUNK_SIZE \<le> n" unfolding q by (rule mult_le_mono1)
      with that show False by linarith
    qed
    ultimately have "length c \<le> n" using assms(1) by blast
    with that show ?thesis by (simp add: byte_at_def)
  qed
  then show ?thesis
    by (auto simp: pad_block_block_eq_iff byte_at_resize_bytes not_less)
qed

lemma resize_leaves:
  assumes sha: "sha256_spec ffi sha" and fits: "n + CHUNK_SIZE < 2 ^ 64"
    and ok: "length c \<le> n \<or> CHUNK_SIZE dvd n"
  shows "MerkleLeaves_resize p (merkle_of sha c) n = Ok (merkle_of sha (resize_bytes c n))"
proof -
  have "vec_resize (leaves_of sha c) (ceil_div n CHUNK_SIZE) HASH_OF_4096_ZEROS =
      leaves_of sha (resize_bytes c n)"
    using pad_block_resize[OF ok]
    by (intro nth_equalityI)
      (simp_all add: vec_resize_leaves_nth[OF sha] nth_leaves_of num_blocks_def)
  with fits show ?thesis
    by (simp add: MerkleLeaves_resize_def merkle_of_def in_range)
qed

lemma pad_block_write_other:
  assumes "off mod CHUNK_SIZE + length data \<le> CHUNK_SIZE" "i \<noteq> off div CHUNK_SIZE"
  shows "pad_block (block (write_bytes c off data) i) = pad_block (block c i)"
proof -
  have "\<not> (off \<le> k \<and> k < off + length data)" if "k div CHUNK_SIZE = i" for k
  proof
    assume *: "off \<le> k \<and> k < off + length data"
    then have "(off + (k - off)) div CHUNK_SIZE = off div CHUNK_SIZE"
      using assms(1) by (intro div_same_block) linarith
    with * that assms(2) show False by simp
  qed
  then show ?thesis
    by (auto simp: pad_block_block_eq_iff byte_at_write_bytes)
qed

lemma num_blocks_write:
  assumes "data \<noteq> []" "off mod CHUNK_SIZE + length data \<le> CHUNK_SIZE"
  shows "num_blocks (write_bytes c off data) = max (num_blocks c) (Suc (off div CHUNK_SIZE))"
proof -
  have len: "0 < length data" using assms(1) by simp
  then have last: "(off + (length data - 1)) div CHUNK_SIZE = off div CHUNK_SIZE"
    using assms(2) by (intro div_same_block) linarith
  have "k * CHUNK_SIZE < off + length data \<longleftrightarrow> k < Suc (off div CHUNK_SIZE)" for k
  proof -
    have "k * CHUNK_SIZE < off + length data \<longleftrightarrow> k * CHUNK_SIZE \<le> off + (length data - 1)"
      using len by linarith
    also have "\<dots> \<longleftrightarrow> k \<le> off div CHUNK_SIZE"
      by (simp add: less_eq_div_iff_mult_less_eq flip: last)
    finally show ?thesis by (simp add: less_Suc_eq_le)
  qed
  with assms(1) have "k < num_blocks (write_bytes c off data) \<longleftrightarrow>
      k < max (num_blocks c) (Suc (off div CHUNK_SIZE))" for k
    by (auto simp: less_num_blocks_iff length_write_bytes less_max_iff_disj)
  then show ?thesis by (metis nat_neq_iff)
qed

text \<open>Updating the leaf of the block that a write touches gives the leaves of the new content, holes
  included: they are blocks of zeros, which is what the new leaves are initialised to.\<close>

lemma update_hash_write:
  assumes sha: "sha256_spec ffi sha"
    and data: "data \<noteq> []" "off mod CHUNK_SIZE + length data \<le> CHUNK_SIZE"
    and t: "leaves t = leaves_of sha c"
    and fits: "off < 2 ^ 64"
    and h: "h = sha (pad_block (block (write_bytes c off data) (off div CHUNK_SIZE)))"
  shows "MerkleLeaves_update_hash p t (off div CHUNK_SIZE) h s =
    Ok \<lparr>leaves = leaves_of sha (write_bytes c off data), file_size = max (file_size t) s\<rparr>"
proof -
  let ?i = "off div CHUNK_SIZE" and ?c' = "write_bytes c off data"
  define grown where "grown = (if num_blocks c < Suc ?i
    then vec_resize (leaves_of sha c) (Suc ?i) HASH_OF_4096_ZEROS else leaves_of sha c)"
  have len: "length grown = num_blocks ?c'"
    using num_blocks_write[OF data, of c] by (simp add: grown_def max_def)
  have i: "?i < length grown" using len num_blocks_write[OF data, of c] by simp
  have "grown ! j = sha (pad_block (block c j))" if "j < length grown" for j
    using that vec_resize_leaves_nth[OF sha] by (auto simp: grown_def nth_leaves_of split: if_splits)
  then have "grown[?i := h] = leaves_of sha ?c'"
    using pad_block_write_other[OF data(2)] h i by (simp add: len nth_leaves_of nth_list_update list_eq_iff_nth_eq[of "_[_ := _]"])
  moreover have "?i + 1 < 2 ^ 64"
  proof -
    have "?i \<le> off div 2" by (simp add: CHUNK_SIZE_def div_le_mono2)
    then show ?thesis using fits by simp
  qed
  ultimately show ?thesis
    using t i
    by (cases t)
      (auto simp: MerkleLeaves_update_hash_def uadd_ok max_def Let_def grown_def split: if_splits)
qed

section \<open>Properties\<close>

lemma num_blocks_fits:
  "length c < 2 ^ 63 \<Longrightarrow> num_blocks c * CHUNK_SIZE + 128 * CHUNK_SIZE < 2 ^ 64"
proof -
  assume "length c < 2 ^ 63"
  then have "num_blocks c \<le> 2 ^ 51" by (simp add: num_blocks_def ceil_div_le_iff CHUNK_SIZE_def)
  then show ?thesis by (simp add: CHUNK_SIZE_def)
qed

lemma build_fsverity_digest_eq:
  assumes "sha256_spec ffi sha"
  shows "build_fsverity_digest ffi root_hash n = Ok (sha (fsverity_descriptor root_hash n))"
proof -
  have "to_le_bytes 1 v = [word_of_nat v]" "to_le_bytes 4 0 = zeros 4" for v
    by (simp_all add: to_le_bytes_def numeral_eq_Suc)
  moreover have "zeros 208 = zeros 32 @ zeros 32 @ zeros 32 @ zeros 32 @ zeros 32 @ zeros 32 @ zeros 16"
    by (simp flip: replicate_add)
  ultimately show ?thesis
    by (simp add: build_fsverity_digest_def sha256_chain_eq[OF assms] fsverity_descriptor_def
        FS_VERITY_VERSION_def FS_VERITY_HASH_ALG_SHA256_def FS_VERITY_LOG_BLOCKSIZE_def)
qed

lemma builder_digest_eq:
  assumes "sha256_spec ffi sha" "\<not> debug_assertions p" "length c < 2 ^ 63"
  shows "MerkleLeaves_calculate_fsverity_digest p ffi (merkle_of sha c) = Ok (fsverity_digest sha c)"
proof -
  have "MerkleLeaves_calculate_root_hash p ffi (merkle_of sha c) =
      Ok (merkle_root sha (leaves_of sha c))"
    using calculate_root_hash_eq[OF assms(1,2), of "merkle_of sha c"] num_blocks_fits[OF assms(3)]
    by (simp add: merkle_of_def)
  then show ?thesis
    by (simp add: MerkleLeaves_calculate_fsverity_digest_def build_fsverity_digest_eq[OF assms(1)]
        fsverity_digest_def merkle_of_def)
qed

text \<open>C6: In a release build the digest that \<open>MerkleLeaves\<close> computes for the leaves of a file is the
  fs-verity digest of the file: the hash of the descriptor that holds the root of the Merkle tree
  over the zero-padded 4096-byte blocks and the file size. No file below 8 EiB makes the
  computation fail or end in \<open>InvalidState\<close>.\<close>

theorem builder_digest_correct:
  assumes "sha256_spec ffi sha" "\<not> debug_assertions p" "length c < 2 ^ 63"
  shows "MerkleLeaves_calculate_fsverity_digest p ffi (merkle_of sha c) = Ok (fsverity_digest sha c)"
  using assms by (rule builder_digest_eq)

theorem builder_digest_correct_witness:
  "MerkleLeaves_calculate_fsverity_digest release_profile sample_ffi
     (merkle_of sample_sha (zeros 5000)) = Ok (fsverity_digest sample_sha (zeros 5000))"
  using builder_digest_correct[OF sample_sha256_spec,
      of "release_profile" "zeros 5000"] by simp

text \<open>C37: In a build with debug assertions the digest of every file of more than one block is a
  panic: the assertion compares the number of leaves with the index of the last block.\<close>

theorem builder_digest_debug_panics:
  assumes "debug_assertions p" "1 < num_blocks c" "length c < 2 ^ 64"
  shows "MerkleLeaves_calculate_fsverity_digest p ffi (merkle_of sha c) = Panic"
proof -
  have pos: "0 < length c" using assms(2) by (auto simp: num_blocks_def simp flip: neq0_conv)
  have "(length c - 1) div CHUNK_SIZE \<noteq> num_blocks c"
  proof
    assume "(length c - 1) div CHUNK_SIZE = num_blocks c"
    then have "num_blocks c * CHUNK_SIZE \<le> length c - 1"
      by (metis div_times_less_eq_dividend)
    moreover have "length c \<le> num_blocks c * CHUNK_SIZE"
      using less_num_blocks_iff[of "num_blocks c" c] by simp
    ultimately show False using pos by linarith
  qed
  moreover have "(usub p 64 (length c) 1 :: (fsverity_error, nat) res) = Ok (length c - 1)"
    using pos assms(3) by (intro usub_ok) (simp_all add: Suc_le_eq)
  ultimately show ?thesis
    using assms(1,2)
    by (auto simp: MerkleLeaves_calculate_fsverity_digest_def MerkleLeaves_calculate_root_hash_def
        merkle_of_def Let_def)
qed

theorem builder_digest_debug_panics_witness:
  "MerkleLeaves_calculate_fsverity_digest debug_profile sample_ffi
     (merkle_of sample_sha (zeros 5000)) = Panic"
  by (rule builder_digest_debug_panics) (simp_all add: num_blocks_def ceil_div_def CHUNK_SIZE_def)

end
