(* ===== verification/Host_File.thy ===== *)
theory Host_File
  imports File_Blocks
begin

text \<open>
  \<open>std::fs::File\<close> as the sources use it. The operating system behind a file is not part of the
  repository, so its calls are the fields of \<open>file_api\<close>, over an abstract type of files, and may
  fail. \<open>regular_file\<close> says what POSIX documents for a regular file without I/O errors; the
  content of the file is a byte string, and a write may be short but not empty.
  \<open>mem_file\<close> is the instance whose files are their content.
\<close>

text \<open>The argument of the \<open>FS_IOC_READ_VERITY_METADATA\<close> ioctl, less the buffer pointer.\<close>

record fsverity_read_metadata_arg =
  metadata_type :: nat
  md_offset :: nat
  md_length :: nat

datatype nix_error = Sys errno | OtherNix

record 'f file_api =
  metadata_len :: "'f \<Rightarrow> (io_error, nat) res"
  read_exact_at :: "'f \<Rightarrow> nat \<Rightarrow> nat \<Rightarrow> (io_error, bytes) res"
  file_write_at :: "'f \<Rightarrow> bytes \<Rightarrow> nat \<Rightarrow> (io_error, nat) res \<times> 'f"
  set_len :: "'f \<Rightarrow> nat \<Rightarrow> (io_error, unit) res \<times> 'f"
  read_verity_metadata :: "'f \<Rightarrow> fsverity_read_metadata_arg \<Rightarrow> (nix_error, bytes) res"

definition regular_file :: "'f file_api \<Rightarrow> ('f \<Rightarrow> bytes) \<Rightarrow> bool" where
  "regular_file api content \<longleftrightarrow>
     (\<forall>f. metadata_len api f = Ok (length (content f))) \<and>
     (\<forall>f n off. read_exact_at api f n off =
        (if off + n \<le> length (content f) then Ok (take n (drop off (content f)))
         else if n = 0 then Ok [] else Err (Custom KindUnexpectedEof))) \<and>
     (\<forall>f buf off. \<exists>n f'. file_write_at api f buf off = (Ok n, f') \<and>
        n \<le> length buf \<and> (buf \<noteq> [] \<longrightarrow> 0 < n) \<and>
        content f' = write_bytes (content f) off (take n buf)) \<and>
     (\<forall>f n. \<exists>f'. set_len api f n = (Ok (), f') \<and> content f' = resize_bytes (content f) n)"

definition mem_file :: "bytes file_api" where
  "mem_file =
     \<lparr>metadata_len = (\<lambda>f. Ok (length f)),
      read_exact_at = (\<lambda>f n off.
        if off + n \<le> length f then Ok (take n (drop off f))
        else if n = 0 then Ok [] else Err (Custom KindUnexpectedEof)),
      file_write_at = (\<lambda>f buf off. (Ok (length buf), write_bytes f off buf)),
      set_len = (\<lambda>f n. (Ok (), resize_bytes f n)),
      read_verity_metadata = (\<lambda>f arg. Err (Sys (OtherErrno 95)))\<rparr>"

lemma regular_mem_file: "regular_file mem_file (\<lambda>f. f)"
  by (simp add: regular_file_def mem_file_def)

lemma regular_file_len: "regular_file api content \<Longrightarrow> metadata_len api f = Ok (length (content f))"
  by (simp add: regular_file_def)

lemma regular_file_read:
  "regular_file api content \<Longrightarrow> off + n \<le> length (content f) \<or> n = 0 \<Longrightarrow>
   read_exact_at api f n off = Ok (take n (drop off (content f)))"
  by (auto simp: regular_file_def)

lemma regular_file_writeE:
  assumes "regular_file api content"
  obtains n f' where "file_write_at api f buf off = (Ok n, f')" "n \<le> length buf"
    "buf \<noteq> [] \<Longrightarrow> 0 < n" "content f' = write_bytes (content f) off (take n buf)"
  using assms unfolding regular_file_def by blast

lemma regular_file_set_lenE:
  assumes "regular_file api content"
  obtains f' where "set_len api f n = (Ok (), f')" "content f' = resize_bytes (content f) n"
  using assms unfolding regular_file_def by blast

end
