(* ===== verification/File_Traits.thy ===== *)
theory File_Traits
  imports Host_File
begin

text \<open>
  \<open>authfs/src/file.rs\<close> and \<open>authfs/src/file/local_file.rs\<close>. The trait \<open>ReadByChunk\<close> is its method,
  a \<open>chunk_reader\<close>; a type that is both \<open>ReadByChunk\<close> and \<open>RandomWrite\<close> is the record
  \<open>backing_file\<close> of its methods over the type of its state. Buffers are passed by value: a
  successful read returns the number of bytes read and the updated buffer; every caller drops
  the buffer on an error. \<open>write_all_at\<close> is the provided method of \<open>RandomWrite\<close>, whose loop need
  not end (a \<open>write_at\<close> that keeps returning 0 makes no progress): not ending is \<open>Hang\<close>.

  The contracts that the comments in \<open>file.rs\<close> state are two locales: \<open>read_by_chunk\<close> for readers
  and \<open>random_access_file\<close> for files that are also written. \<open>LocalFileReader\<close> is interpreted here,
  the remote readers and the remote editor in the theory of the service that backs them.
\<close>

type_synonym chunk_reader = "nat \<Rightarrow> bytes \<Rightarrow> (io_error, nat \<times> bytes) res"

record 'f backing_file =
  bf_read_chunk :: "'f \<Rightarrow> chunk_reader"
  bf_write_at :: "'f \<Rightarrow> bytes \<Rightarrow> nat \<Rightarrow> (io_error, nat) res \<times> 'f"
  bf_resize :: "'f \<Rightarrow> nat \<Rightarrow> (io_error, unit) res \<times> 'f"

partial_function (option) write_all_at_loop ::
  "profile \<Rightarrow> 'f backing_file \<Rightarrow> bytes \<Rightarrow> 'f \<Rightarrow> nat \<Rightarrow> nat \<Rightarrow> ((io_error, unit) res \<times> 'f) option" where
  "write_all_at_loop p ops buf self input_offset output_offset =
     (if input_offset < length buf then
        case and_then (bf_write_at ops self (drop input_offset buf) output_offset) (\<lambda>n self.
             and_then (uadd p 64 input_offset n, self) (\<lambda>input_offset' self.
             and_then (uadd p 64 output_offset n, self) (\<lambda>output_offset' self.
             (Ok (input_offset', output_offset'), self)))) of
          (r, self') \<Rightarrow>
            (case r of
               Ok (i, j) \<Rightarrow> write_all_at_loop p ops buf self' i j
             | Err e \<Rightarrow> Some (Err e, self')
             | Panic \<Rightarrow> Some (Panic, self')
             | Hang \<Rightarrow> Some (Hang, self'))
      else Some (Ok (), self))"

definition write_all_at ::
  "profile \<Rightarrow> 'f backing_file \<Rightarrow> 'f \<Rightarrow> bytes \<Rightarrow> nat \<Rightarrow> (io_error, unit) res \<times> 'f" where
  "write_all_at p ops self buf off =
     (case write_all_at_loop p ops buf self 0 off of None \<Rightarrow> (Hang, self) | Some r \<Rightarrow> r)"

section \<open>Local files\<close>

record 'f local_file_reader =
  lf_file :: 'f
  lf_size :: nat

definition LocalFileReader_new :: "'f file_api \<Rightarrow> 'f \<Rightarrow> (io_error, 'f local_file_reader) res" where
  "LocalFileReader_new api file =
     try_r (metadata_len api file) (\<lambda>n. Ok \<lparr>lf_file = file, lf_size = n\<rparr>)"

definition LocalFileReader_len :: "'f local_file_reader \<Rightarrow> nat" where
  "LocalFileReader_len self = lf_size self"

definition LocalFileReader_read_chunk ::
  "profile \<Rightarrow> 'f file_api \<Rightarrow> 'f local_file_reader \<Rightarrow> chunk_reader" where
  "LocalFileReader_read_chunk p api self chunk_index buf =
     try_r (umul p 64 chunk_index CHUNK_SIZE) (\<lambda>start.
     if start \<ge> lf_size self then Ok (0, buf)
     else
       try_r (uadd p 64 start CHUNK_SIZE) (\<lambda>full_end.
       let end' = min (lf_size self) full_end in
       try_r (usub p 64 end' start) (\<lambda>read_size.
       debug_assert p (read_size \<le> length buf)
         (assert_r (read_size \<le> length buf)
           (try_r (read_exact_at api (lf_file self) read_size start) (\<lambda>data.
            Ok (read_size, overwrite buf data)))))))"

section \<open>The contract of \<open>ReadByChunk\<close>\<close>

text \<open>"Returns the size read, which has to be \<open>CHUNK_SIZE\<close> except for the last incomplete chunk.
  Reading beyond the file size (including empty file) should return 0." Offsets are bounded by
  \<open>i64::MAX\<close>, the largest offset the file systems accept.\<close>

locale read_by_chunk =
  fixes rd :: chunk_reader and content :: bytes
  assumes read_block:
    "i * CHUNK_SIZE < 2 ^ 63 \<Longrightarrow> length content < 2 ^ 63 \<Longrightarrow> length buf = CHUNK_SIZE \<Longrightarrow>
     rd i buf = Ok (length (block content i), overwrite buf (block content i))"
begin

lemma read_into_zeros:
  "i * CHUNK_SIZE < 2 ^ 63 \<Longrightarrow> length content < 2 ^ 63 \<Longrightarrow>
   rd i (zeros CHUNK_SIZE) = Ok (length (block content i), pad_block (block content i))"
  by (simp add: read_block overwrite_zeros_block)

lemma read_beyond_end:
  "length content \<le> i * CHUNK_SIZE \<Longrightarrow> i * CHUNK_SIZE < 2 ^ 63 \<Longrightarrow> length buf = CHUNK_SIZE \<Longrightarrow>
   rd i buf = Ok (0, buf)"
  by (simp add: read_block overwrite_def)

end

text \<open>What holds of a reader for the chunks of the file only. The verified reader promises no more, and the
  editor needs no more of the file it writes.\<close>

locale reads_blocks =
  fixes rd :: chunk_reader and content :: bytes
  assumes read_within:
    "i < num_blocks content \<Longrightarrow> length content < 2 ^ 63 \<Longrightarrow> length buf = CHUNK_SIZE \<Longrightarrow>
     rd i buf = Ok (length (block content i), overwrite buf (block content i))"
begin

lemma read_within_zeros:
  "i < num_blocks content \<Longrightarrow> length content < 2 ^ 63 \<Longrightarrow>
   rd i (zeros CHUNK_SIZE) = Ok (length (block content i), pad_block (block content i))"
  by (simp add: read_within overwrite_zeros_block)

end

sublocale read_by_chunk \<subseteq> within: reads_blocks rd content
  using read_block by unfold_locales (auto simp: less_num_blocks_iff)

lemma read_by_chunk_within: "read_by_chunk rd content \<Longrightarrow> reads_blocks rd content"
  by (rule reads_blocks.intro) (auto simp: read_by_chunk_def less_num_blocks_iff)

lemma LocalFileReader_reads:
  assumes reg: "regular_file api content" and sz: "n = length (content f)"
  shows "read_by_chunk (LocalFileReader_read_chunk p api \<lparr>lf_file = f, lf_size = n\<rparr>) (content f)"
proof
  fix i and buf :: bytes
  let ?start = "i * CHUNK_SIZE"
  assume i: "?start < 2 ^ 63" and len: "length (content f) < 2 ^ 63" and buf: "length buf = CHUNK_SIZE"
  have small: "?start + CHUNK_SIZE < 2 ^ 64" using i by (simp add: CHUNK_SIZE_def)
  then have mul: "umul p 64 i CHUNK_SIZE = Ok ?start" by (simp add: umul_ok)
  show "LocalFileReader_read_chunk p api \<lparr>lf_file = f, lf_size = n\<rparr> i buf =
    Ok (length (block (content f) i), overwrite buf (block (content f) i))"
  proof (cases "?start \<ge> n")
    case True
    with sz show ?thesis
      using small by (simp add: LocalFileReader_read_chunk_def umul_ok overwrite_def)
  next
    case False
    let ?k = "min n (?start + CHUNK_SIZE) - ?start"
    have k: "?k = length (block (content f) i)" "?k \<le> CHUNK_SIZE" "?start + ?k \<le> n"
      using False sz by (auto simp: length_block min_def)
    have "take ?k (drop ?start (content f)) = block (content f) i"
      unfolding block_def using False sz by (auto simp: min_def)
    then have "read_exact_at api f ?k ?start = Ok (block (content f) i)"
      using regular_file_read[OF reg, of ?start ?k f] k(3) sz by simp
    with False k buf small len sz show ?thesis
      by (simp add: LocalFileReader_read_chunk_def umul_ok uadd_ok usub_ok Let_def)
  qed
qed

interpretation local_file: read_by_chunk
  "LocalFileReader_read_chunk p mem_file \<lparr>lf_file = c, lf_size = length c\<rparr>" c
  for p c
  using LocalFileReader_reads[OF regular_mem_file] by blast

section \<open>The contract of a file that is read and written\<close>

locale random_access_file =
  fixes ops :: "'f backing_file" and content :: "'f \<Rightarrow> bytes" and wf :: "'f \<Rightarrow> bool"
  assumes reads: "wf f \<Longrightarrow> reads_blocks (bf_read_chunk ops f) (content f)"
    and size_bound: "wf f \<Longrightarrow> length (content f) < 2 ^ 63"
    and writes: "wf f \<Longrightarrow> buf \<noteq> [] \<Longrightarrow> off + length buf < 2 ^ 63 \<Longrightarrow> length buf < 2 ^ 31 \<Longrightarrow>
      \<exists>n f'. bf_write_at ops f buf off = (Ok n, f') \<and> 0 < n \<and> n \<le> length buf \<and> wf f' \<and>
        content f' = write_bytes (content f) off (take n buf)"
    and resizes: "wf f \<Longrightarrow> n < 2 ^ 63 \<Longrightarrow>
      \<exists>f'. bf_resize ops f n = (Ok (), f') \<and> wf f' \<and> content f' = resize_bytes (content f) n"
begin

text \<open>Short writes are continued until the buffer is written: with a file that makes progress the
  loop of \<open>write_all_at\<close> ends.\<close>

lemma write_all_at_loop_ok:
  assumes "wf f" "i \<le> length buf" "off + length buf < 2 ^ 63" "length buf < 2 ^ 31"
  shows "\<exists>f'. write_all_at_loop p ops buf f i (off + i) = Some (Ok (), f') \<and> wf f' \<and>
    content f' = write_bytes (content f) (off + i) (drop i buf)"
  using assms
proof (induction "length buf - i" arbitrary: f i rule: less_induct)
  case less
  show ?case
  proof (cases "i < length buf")
    case False
    with less.prems show ?thesis by (simp add: write_all_at_loop.simps write_bytes_def)
  next
    case True
    have "length (drop i buf) < 2 ^ 31" using less.prems(4) by simp
    with writes[of f "drop i buf" "off + i"] less.prems True obtain n f' where
      w: "bf_write_at ops f (drop i buf) (off + i) = (Ok n, f')" and n: "0 < n" "n \<le> length buf - i"
      and f': "wf f'" "content f' = write_bytes (content f) (off + i) (take n (drop i buf))"
      by auto
    have "\<exists>f''. write_all_at_loop p ops buf f' (i + n) (off + (i + n)) = Some (Ok (), f'') \<and> wf f'' \<and>
        content f'' = write_bytes (content f') (off + (i + n)) (drop (i + n) buf)"
      using less.prems n f'(1) True by (intro less.hyps) auto
    then obtain f'' where rec: "write_all_at_loop p ops buf f' (i + n) (off + i + n) = Some (Ok (), f'')"
      and f'': "wf f''" "content f'' = write_bytes (content f') (off + i + n) (drop (i + n) buf)"
      by (auto simp: add.assoc)
    have "content f'' = write_bytes (content f) (off + i) (take n (drop i buf) @ drop (i + n) buf)"
      using n f''(2) f'(2) write_bytes_append[of "content f" "off + i" "take n (drop i buf)"]
      by (simp add: min_absorb2)
    moreover have "take n (drop i buf) @ drop (i + n) buf = drop i buf"
      by (metis add.commute append_take_drop_id drop_drop)
    ultimately show ?thesis
      using True w rec f''(1) n less.prems
      by (subst write_all_at_loop.simps) (simp add: uadd_ok)
  qed
qed

lemma write_all_at_ok:
  assumes "wf f" "off + length buf < 2 ^ 63" "length buf < 2 ^ 31"
  shows "\<exists>f'. write_all_at p ops f buf off = (Ok (), f') \<and> wf f' \<and>
    content f' = write_bytes (content f) off buf"
  using write_all_at_loop_ok[OF assms(1) _ assms(2,3), of 0 p] by (auto simp: write_all_at_def)

end

end
