(* ===== verification/Editor.thy ===== *)
theory Editor
  imports Merkle_Builder File_Traits
begin

text \<open>
  \<open>authfs/src/fsverity/editor.rs\<close>: \<open>VerifiedFileEditor\<close>, the integrity layer over a file on untrusted
  storage. The storage is a \<open>backing_file\<close>, the state of the editor is the storage's state and the
  \<open>MerkleLeaves\<close> kept in trusted memory. Methods pass the state explicitly; the lock around the
  leaves is held for the whole of each loop iteration and is not modelled.

  Two readings of \<open>write_at\<close> are proved. With storage that meets \<open>random_access_file\<close> it writes the
  file and keeps the leaves those of the content. With arbitrary storage the leaves still follow
  the content that the trusted side intended to write, unless the storage produced a second
  preimage of a block.
\<close>

record 'f verified_file_editor =
  ed_file :: 'f
  ed_merkle_tree :: merkle_leaves

definition crypto_io_error :: "crypto_error \<Rightarrow> io_error" where
  "crypto_io_error e = Custom KindOther"

definition VerifiedFileEditor_new :: "'f \<Rightarrow> 'f verified_file_editor" where
  "VerifiedFileEditor_new file = \<lparr>ed_file = file, ed_merkle_tree = MerkleLeaves_new\<rparr>"

definition VerifiedFileEditor_calculate_fsverity_digest ::
  "profile \<Rightarrow> 'c sha256_ffi \<Rightarrow> 'f verified_file_editor \<Rightarrow> (io_error, hash) res" where
  "VerifiedFileEditor_calculate_fsverity_digest p ffi self =
     map_err (\<lambda>_. Custom KindOther)
       (MerkleLeaves_calculate_fsverity_digest p ffi (ed_merkle_tree self))"

definition VerifiedFileEditor_read_chunk ::
  "'f backing_file \<Rightarrow> 'f verified_file_editor \<Rightarrow> chunk_reader" where
  "VerifiedFileEditor_read_chunk ops self chunk_index buf =
     bf_read_chunk ops (ed_file self) chunk_index buf"

text \<open>\<open>new_hash_for_incomplete_write\<close>, in two parts: the previous data of the chunk, read back and
  verified if the chunk exists, and the hash of the new data.\<close>

definition original_chunk ::
  "'c sha256_ffi \<Rightarrow> 'f backing_file \<Rightarrow> 'f verified_file_editor \<Rightarrow> nat \<Rightarrow> (io_error, bytes) res" where
  "original_chunk ffi ops self output_chunk_index =
     (if MerkleLeaves_is_index_valid (ed_merkle_tree self) output_chunk_index then
        try_r (VerifiedFileEditor_read_chunk ops self output_chunk_index (zeros CHUNK_SIZE))
          (\<lambda>(_, orig_data).
        try_r (map_err crypto_io_error (sha256_chain ffi [orig_data])) (\<lambda>hash.
        if \<not> MerkleLeaves_is_consistent (ed_merkle_tree self) output_chunk_index hash
        then Err (Custom KindInvalidData) else Ok orig_data))
      else Ok (zeros CHUNK_SIZE))"

definition new_hash_for_incomplete_write ::
  "profile \<Rightarrow> 'c sha256_ffi \<Rightarrow> 'f backing_file \<Rightarrow> 'f verified_file_editor \<Rightarrow> bytes \<Rightarrow> nat \<Rightarrow> nat \<Rightarrow>
   (io_error, hash) res" where
  "new_hash_for_incomplete_write p ffi ops self source offset_from_alignment output_chunk_index =
     try_r (original_chunk ffi ops self output_chunk_index) (\<lambda>orig_data.
     try_r (map_err crypto_io_error (Sha256Hasher_new ffi)) (\<lambda>h.
     try_r (slice orig_data 0 offset_from_alignment) (\<lambda>head.
     try_r (map_err crypto_io_error (Sha256Hasher_update ffi h head)) (\<lambda>h.
     try_r (map_err crypto_io_error (Sha256Hasher_update ffi h source)) (\<lambda>h.
     try_r (uadd p 64 offset_from_alignment (length source)) (\<lambda>tail_start.
     try_r (slice orig_data tail_start (length orig_data)) (\<lambda>tail.
     try_r (map_err crypto_io_error (Sha256Hasher_update ffi h tail)) (\<lambda>h.
     map_err crypto_io_error (Sha256Hasher_finalize ffi h)))))))))"

definition new_chunk_hash ::
  "profile \<Rightarrow> 'c sha256_ffi \<Rightarrow> 'f backing_file \<Rightarrow> 'f verified_file_editor \<Rightarrow> bytes \<Rightarrow> nat \<Rightarrow> nat \<Rightarrow> nat \<Rightarrow>
   (io_error, hash) res" where
  "new_chunk_hash p ffi ops self source offset_from_alignment current_size output_chunk_index =
     (if current_size = CHUNK_SIZE then map_err crypto_io_error (sha256_chain ffi [source])
      else new_hash_for_incomplete_write p ffi ops self source offset_from_alignment
             output_chunk_index)"

definition VerifiedFileEditor_size :: "'f verified_file_editor \<Rightarrow> nat" where
  "VerifiedFileEditor_size self = MerkleLeaves_file_size (ed_merkle_tree self)"

text \<open>One iteration of the loop in \<open>write_at\<close>: \<open>Some n\<close> is an early \<open>return Ok(n)\<close>.\<close>

definition write_at_chunk ::
  "profile \<Rightarrow> 'c sha256_ffi \<Rightarrow> 'f backing_file \<Rightarrow> bytes \<Rightarrow> nat \<Rightarrow> 'f verified_file_editor \<Rightarrow> nat \<times> nat \<Rightarrow>
   (io_error, nat option) res \<times> 'f verified_file_editor" where
  "write_at_chunk p ffi ops buf off self item =
     (case item of (output_offset, current_size) \<Rightarrow>
      and_then (usub p 64 output_offset off, self) (\<lambda>offset_in_buf self.
      and_then (uadd p 64 offset_in_buf current_size, self) (\<lambda>end_in_buf self.
      and_then (slice buf offset_in_buf end_in_buf, self) (\<lambda>source self.
      let output_chunk_index = output_offset div CHUNK_SIZE;
          offset_from_alignment = output_offset mod CHUNK_SIZE in
      case new_chunk_hash p ffi ops self source offset_from_alignment current_size
             output_chunk_index of
        Err e \<Rightarrow>
          and_then (usub p 64 output_offset off, self) (\<lambda>written self.
          if written > 0 then (Ok (Some written), self) else (Err e, self))
      | Panic \<Rightarrow> (Panic, self)
      | Hang \<Rightarrow> (Hang, self)
      | Ok new_hash \<Rightarrow>
          (case write_all_at p ops (ed_file self) source output_offset of (r, file) \<Rightarrow>
           and_then (r, self\<lparr>ed_file := file\<rparr>) (\<lambda>_ self.
           let size_at_least = saturating_add 64 off (length buf) in
           and_then (MerkleLeaves_update_hash p (ed_merkle_tree self) output_chunk_index new_hash
                       size_at_least, self) (\<lambda>tree self.
           (Ok None, self\<lparr>ed_merkle_tree := tree\<rparr>))))))))"

function write_at_loop ::
  "profile \<Rightarrow> 'c sha256_ffi \<Rightarrow> 'f backing_file \<Rightarrow> bytes \<Rightarrow> nat \<Rightarrow> chunked_size_iter \<Rightarrow>
   'f verified_file_editor \<Rightarrow> (io_error, nat) res \<times> 'f verified_file_editor" where
  "write_at_loop p ffi ops buf off it self =
     and_then (ChunkedSizeIter_next p it, self) (\<lambda>(item, it') self.
     case item of
       None \<Rightarrow> (Ok (length buf), self)
     | Some x \<Rightarrow>
         and_then (write_at_chunk p ffi ops buf off self x) (\<lambda>early self.
         case early of
           Some written \<Rightarrow> (Ok written, self)
         | None \<Rightarrow> write_at_loop p ffi ops buf off it' self))"
  by pat_completeness auto
termination
  by (relation "measure (\<lambda>(p, ffi, ops, buf, off, it, self). remaining it)")
    (auto dest: ChunkedSizeIter_next_decreases)

declare write_at_loop.simps [simp del]

definition VerifiedFileEditor_write_at ::
  "profile \<Rightarrow> 'c sha256_ffi \<Rightarrow> 'f backing_file \<Rightarrow> 'f verified_file_editor \<Rightarrow> bytes \<Rightarrow> nat \<Rightarrow>
   (io_error, nat) res \<times> 'f verified_file_editor" where
  "VerifiedFileEditor_write_at p ffi ops self buf off =
     write_at_loop p ffi ops buf off (ChunkedSizeIter_new (length buf) off CHUNK_SIZE) self"

text \<open>The recalculation of the hash of the new last chunk in \<open>resize\<close>.\<close>

definition resize_tail_hash ::
  "profile \<Rightarrow> 'c sha256_ffi \<Rightarrow> 'f backing_file \<Rightarrow> 'f verified_file_editor \<Rightarrow> nat \<Rightarrow> nat \<Rightarrow>
   (io_error, hash) res" where
  "resize_tail_hash p ffi ops self chunk_index new_tail_size =
     try_r (VerifiedFileEditor_read_chunk ops self chunk_index (zeros CHUNK_SIZE)) (\<lambda>(s, buf).
     debug_assert p (new_tail_size \<le> s)
       (try_r (map_err crypto_io_error (Sha256Hasher_new ffi)) (\<lambda>h.
        try_r (slice buf 0 new_tail_size) (\<lambda>head.
        try_r (map_err crypto_io_error (Sha256Hasher_update ffi h head)) (\<lambda>h.
        try_r (map_err crypto_io_error
                 (Sha256Hasher_update ffi h (zeros (CHUNK_SIZE - new_tail_size)))) (\<lambda>h.
        map_err crypto_io_error (Sha256Hasher_finalize ffi h)))))))"

definition VerifiedFileEditor_resize ::
  "profile \<Rightarrow> 'c sha256_ffi \<Rightarrow> 'f backing_file \<Rightarrow> 'f verified_file_editor \<Rightarrow> nat \<Rightarrow>
   (io_error, unit) res \<times> 'f verified_file_editor" where
  "VerifiedFileEditor_resize p ffi ops self n =
     and_then
       (if n < MerkleLeaves_file_size (ed_merkle_tree self) \<and> n mod CHUNK_SIZE > 0 then
          let new_tail_size = n mod CHUNK_SIZE;
              chunk_index = n div CHUNK_SIZE in
          if new_tail_size > 0 then
            and_then (resize_tail_hash p ffi ops self chunk_index new_tail_size, self)
              (\<lambda>new_hash self.
            and_then (MerkleLeaves_update_hash p (ed_merkle_tree self) chunk_index new_hash n, self)
              (\<lambda>tree self.
            (Ok (), self\<lparr>ed_merkle_tree := tree\<rparr>)))
          else (Ok (), self)
        else (Ok (), self)) (\<lambda>_ self.
     case bf_resize ops (ed_file self) n of (r, file) \<Rightarrow>
       and_then (r, self\<lparr>ed_file := file\<rparr>) (\<lambda>_ self.
       and_then (MerkleLeaves_resize p (ed_merkle_tree self) n, self) (\<lambda>tree self.
       (Ok (), self\<lparr>ed_merkle_tree := tree\<rparr>))))"

text \<open>The editor is itself a file that is read by chunk and written at random offsets.\<close>

definition VerifiedFileEditor ::
  "profile \<Rightarrow> 'c sha256_ffi \<Rightarrow> 'f backing_file \<Rightarrow> 'f verified_file_editor backing_file" where
  "VerifiedFileEditor p ffi ops =
     \<lparr>bf_read_chunk = VerifiedFileEditor_read_chunk ops,
      bf_write_at = VerifiedFileEditor_write_at p ffi ops,
      bf_resize = VerifiedFileEditor_resize p ffi ops\<rparr>"

section \<open>The loop over the chunks\<close>

primrec write_items ::
  "profile \<Rightarrow> 'c sha256_ffi \<Rightarrow> 'f backing_file \<Rightarrow> bytes \<Rightarrow> nat \<Rightarrow> (nat \<times> nat) list \<Rightarrow>
   'f verified_file_editor \<Rightarrow> (io_error, nat) res \<times> 'f verified_file_editor" where
  "write_items p ffi ops buf off [] self = (Ok (length buf), self)"
| "write_items p ffi ops buf off (x # xs) self =
     and_then (write_at_chunk p ffi ops buf off self x) (\<lambda>early self.
     case early of
       Some written \<Rightarrow> (Ok written, self)
     | None \<Rightarrow> write_items p ffi ops buf off xs self)"

lemma write_at_loop_eq:
  "o' + r < 2 ^ 64 \<Longrightarrow>
   write_at_loop p ffi ops buf off (ChunkedSizeIter_new r o' CHUNK_SIZE) self =
   write_items p ffi ops buf off (chunk_items CHUNK_SIZE o' r) self"
proof (induction r arbitrary: o' self rule: less_induct)
  case (less r)
  show ?case
  proof (cases "r = 0")
    case True
    then show ?thesis
      by (simp add: write_at_loop.simps ChunkedSizeIter_next_def ChunkedSizeIter_new_def)
  next
    case False
    define k where "k = min r (CHUNK_SIZE - o' mod CHUNK_SIZE)"
    have k: "0 < k" "k \<le> r" using False by (auto simp: k_def)
    have IH: "write_at_loop p ffi ops buf off (ChunkedSizeIter_new (r - k) (o' + k) CHUNK_SIZE) s =
        write_items p ffi ops buf off (chunk_items CHUNK_SIZE (o' + k) (r - k)) s" for s
      using k less.prems False by (intro less.IH) auto
    show ?thesis
      using False less.prems
      by (subst write_at_loop.simps)
        (simp add: ChunkedSizeIter_next_step chunk_items_step IH[unfolded k_def] Let_def
          cong: option.case_cong)
  qed
qed

text \<open>An iteration whose item lies in the range of the write, with the arithmetic evaluated.\<close>

lemma write_at_chunk_eq:
  assumes "off \<le> o'" "o' + k \<le> off + length buf" "off + length buf < 2 ^ 64"
  defines "src \<equiv> take k (drop (o' - off) buf)"
  shows "write_at_chunk p ffi ops buf off self (o', k) =
    (case new_chunk_hash p ffi ops self src (o' mod CHUNK_SIZE) k (o' div CHUNK_SIZE) of
       Err e \<Rightarrow> if off < o' then (Ok (Some (o' - off)), self) else (Err e, self)
     | Panic \<Rightarrow> (Panic, self)
     | Hang \<Rightarrow> (Hang, self)
     | Ok new_hash \<Rightarrow>
         (case write_all_at p ops (ed_file self) src o' of (r, file) \<Rightarrow>
          and_then (r, self\<lparr>ed_file := file\<rparr>) (\<lambda>_ self.
          and_then (MerkleLeaves_update_hash p (ed_merkle_tree self) (o' div CHUNK_SIZE) new_hash
                      (off + length buf), self) (\<lambda>tree self.
          (Ok None, self\<lparr>ed_merkle_tree := tree\<rparr>)))))"
proof -
  have "(slice buf (o' - off) (o' - off + k) :: (io_error, bytes) res) = Ok src"
    using assms(1,2) by (auto simp: slice_def src_def)
  moreover have "(usub p 64 o' off :: (io_error, nat) res) = Ok (o' - off)"
    using assms(1-3) by (intro usub_ok) auto
  moreover have "o' - off + k < 2 ^ 64" using assms(1-3) by linarith
  then have "(uadd p 64 (o' - off) k :: (io_error, nat) res) = Ok (o' - off + k)" by (rule uadd_ok)
  ultimately show ?thesis
    using assms(3)
    by (simp add: write_at_chunk_def saturating_add_exact Let_def split: res.split prod.split)
qed

section \<open>The hash of a chunk that is written\<close>

lemma incomplete_hash_eq:
  assumes "sha256_spec ffi sha" "length orig = CHUNK_SIZE" "m + length src \<le> CHUNK_SIZE"
  shows "try_r (map_err crypto_io_error (Sha256Hasher_new ffi)) (\<lambda>h.
     try_r (slice orig 0 m) (\<lambda>head.
     try_r (map_err crypto_io_error (Sha256Hasher_update ffi h head)) (\<lambda>h.
     try_r (map_err crypto_io_error (Sha256Hasher_update ffi h src)) (\<lambda>h.
     try_r (uadd p 64 m (length src)) (\<lambda>tail_start.
     try_r (slice orig tail_start (length orig)) (\<lambda>tail.
     try_r (map_err crypto_io_error (Sha256Hasher_update ffi h tail)) (\<lambda>h.
     map_err crypto_io_error (Sha256Hasher_finalize ffi h)))))))) =
    Ok (sha (take m orig @ src @ drop (m + length src) orig))"
proof -
  have "m + length src < 2 ^ 64" using assms(3) by (simp add: CHUNK_SIZE_def)
  with assms(2,3) show ?thesis
    by (simp add: slice_def uadd_ok sha256_chain_mapped(2)[OF assms(1)])
qed

text \<open>Sound for any storage: either the data read back is the block the leaves stand for, or it is
  rejected.\<close>

lemma new_chunk_hash_sound:
  assumes sha: "sha256_spec ffi sha" and t: "leaves (ed_merkle_tree self) = leaves_of sha g"
    and src: "o' mod CHUNK_SIZE + length src \<le> CHUNK_SIZE"
    and sec: "no_collision sha
      {b. \<exists>n. bf_read_chunk ops (ed_file self) (o' div CHUNK_SIZE) (zeros CHUNK_SIZE) = Ok (n, b)}
      {pad_block (block g (o' div CHUNK_SIZE))}"
    and run: "new_chunk_hash p ffi ops self src (o' mod CHUNK_SIZE) (length src) (o' div CHUNK_SIZE) = Ok h"
  shows "h = sha (pad_block (block (write_bytes g o' src) (o' div CHUNK_SIZE)))"
proof (cases "length src = CHUNK_SIZE")
  case True
  with run have "h = sha src" by (simp add: new_chunk_hash_def sha256_chain_eq[OF sha])
  with True splice_block[OF src, of g] src show ?thesis by simp
next
  case False
  let ?i = "o' div CHUNK_SIZE"
  from run False obtain orig where orig: "original_chunk ffi ops self ?i = Ok orig"
    by (auto simp: new_chunk_hash_def new_hash_for_incomplete_write_def try_r_Ok_iff)
  have "orig = pad_block (block g ?i)"
  proof (cases "?i < num_blocks g")
    case True
    with orig t obtain n where "bf_read_chunk ops (ed_file self) ?i (zeros CHUNK_SIZE) = Ok (n, orig)"
      and "sha orig = sha (pad_block (block g ?i))"
      by (auto simp: original_chunk_def MerkleLeaves_is_index_valid_def MerkleLeaves_is_consistent_def
          VerifiedFileEditor_read_chunk_def sha256_chain_eq[OF sha] nth_leaves_of try_r_Ok_iff
          split: if_splits)
    then show ?thesis using sec by (auto simp: no_collision_def)
  next
    case False
    with orig t show ?thesis
      using pad_block_beyond[of g ?i]
      by (simp add: original_chunk_def MerkleLeaves_is_index_valid_def CHUNK_SIZE_def)
  qed
  with run False orig incomplete_hash_eq[OF sha, of orig "o' mod CHUNK_SIZE" src p] src
    splice_block[OF src, of g]
  show ?thesis by (simp add: new_chunk_hash_def new_hash_for_incomplete_write_def)
qed

lemma new_chunk_hash_complete:
  assumes sha: "sha256_spec ffi sha" and t: "leaves (ed_merkle_tree self) = leaves_of sha c"
    and src: "o' mod CHUNK_SIZE + length src \<le> CHUNK_SIZE"
    and rd: "o' div CHUNK_SIZE < num_blocks c \<Longrightarrow>
      bf_read_chunk ops (ed_file self) (o' div CHUNK_SIZE) (zeros CHUNK_SIZE) =
      Ok (n, pad_block (block c (o' div CHUNK_SIZE)))"
  shows "new_chunk_hash p ffi ops self src (o' mod CHUNK_SIZE) (length src) (o' div CHUNK_SIZE) =
    Ok (sha (pad_block (block (write_bytes c o' src) (o' div CHUNK_SIZE))))"
proof (cases "length src = CHUNK_SIZE")
  case True
  with splice_block[OF src, of c] src show ?thesis
    by (simp add: new_chunk_hash_def sha256_chain_eq[OF sha])
next
  case False
  let ?b = "pad_block (block c (o' div CHUNK_SIZE))"
  have "\<not> o' div CHUNK_SIZE < num_blocks c \<Longrightarrow> zeros CHUNK_SIZE = ?b"
    using pad_block_beyond[of c "o' div CHUNK_SIZE"] by (simp add: CHUNK_SIZE_def)
  with False rd t incomplete_hash_eq[OF sha, of ?b "o' mod CHUNK_SIZE" src p] src splice_block[OF src, of c]
  show ?thesis
    by (simp add: new_chunk_hash_def new_hash_for_incomplete_write_def original_chunk_def
        MerkleLeaves_is_index_valid_def MerkleLeaves_is_consistent_def VerifiedFileEditor_read_chunk_def
        sha256_chain_eq[OF sha] nth_leaves_of)
qed

section \<open>Writing to untrusted storage\<close>

lemma chunk_head:
  fixes o' r :: nat
  assumes "0 < r"
  defines "k \<equiv> min r (CHUNK_SIZE - o' mod CHUNK_SIZE)"
  shows "0 < k" "k \<le> r" "o' mod CHUNK_SIZE + k \<le> CHUNK_SIZE"
    "k < r \<Longrightarrow> (o' + k) mod CHUNK_SIZE = 0"
proof -
  have m: "o' mod CHUNK_SIZE < CHUNK_SIZE" by simp
  then show "0 < k" "k \<le> r" "o' mod CHUNK_SIZE + k \<le> CHUNK_SIZE"
    using assms(1) by (auto simp: k_def min_def)
  assume "k < r"
  then have "o' mod CHUNK_SIZE + k = CHUNK_SIZE" using m by (auto simp: k_def min_def split: if_splits)
  then show "(o' + k) mod CHUNK_SIZE = 0" by (metis mod_add_left_eq mod_self)
qed

text \<open>The chunk that the loop is about to change still has the content it had before the write.\<close>

lemma block_not_yet_written:
  assumes "off \<le> o'" "o' = off \<or> o' mod CHUNK_SIZE = 0"
  shows "pad_block (block (write_bytes g off (take (o' - off) buf)) (o' div CHUNK_SIZE)) =
    pad_block (block g (o' div CHUNK_SIZE))"
proof -
  have "o' div CHUNK_SIZE * CHUNK_SIZE = o'" if "o' mod CHUNK_SIZE = 0"
    using that by (metis add.right_neutral div_mult_mod_eq)
  with assms show ?thesis
    by (auto simp: pad_block_block_eq_iff byte_at_write_bytes)
qed

lemma take_write_step:
  assumes "off \<le> o'" "o' + k \<le> off + length buf"
  shows "write_bytes (write_bytes g off (take (o' - off) buf)) o' (take k (drop (o' - off) buf)) =
    write_bytes g off (take (o' + k - off) buf)"
proof -
  have "length (take (o' - off) buf) = o' - off" using assms by simp
  moreover have "take (o' + k - off) buf = take (o' - off) buf @ take k (drop (o' - off) buf)"
    using assms(1) take_add[of "o' - off" k buf] by simp
  ultimately show ?thesis
    using write_bytes_append[of g off "take (o' - off) buf" "take k (drop (o' - off) buf)"] assms(1)
    by simp
qed

definition storage_no_collision :: "(bytes \<Rightarrow> hash) \<Rightarrow> 'f backing_file \<Rightarrow> bytes \<Rightarrow> bool" where
  "storage_no_collision sha ops g \<longleftrightarrow>
     (\<forall>f i. no_collision sha {b. \<exists>n. bf_read_chunk ops f i (zeros CHUNK_SIZE) = Ok (n, b)}
        {pad_block (block g i)})"

text \<open>One iteration that succeeds moves the leaves from the content written so far to the content
  with this chunk written.\<close>

lemma write_at_chunk_secure:
  assumes sha: "sha256_spec ffi sha" and sec: "storage_no_collision sha ops g"
    and rng: "off \<le> o'" "o' + k \<le> off + length buf" "off + length buf < 2 ^ 64"
    and chunk: "0 < k" "o' mod CHUNK_SIZE + k \<le> CHUNK_SIZE" "o' = off \<or> o' mod CHUNK_SIZE = 0"
    and t: "leaves (ed_merkle_tree s) = leaves_of sha (write_bytes g off (take (o' - off) buf))"
    and run: "write_at_chunk p ffi ops buf off s (o', k) = (Ok early, s')"
  shows "(early = None \<and> leaves (ed_merkle_tree s') = leaves_of sha (write_bytes g off (take (o' + k - off) buf)) \<and>
      file_size (ed_merkle_tree s') = max (file_size (ed_merkle_tree s)) (off + length buf)) \<or>
    (early = Some (o' - off) \<and> off < o' \<and> s' = s)"
proof -
  let ?src = "take k (drop (o' - off) buf)" and ?g = "write_bytes g off (take (o' - off) buf)"
  have len: "length ?src = k" using rng by simp
  show ?thesis
  proof (cases "new_chunk_hash p ffi ops s ?src (o' mod CHUNK_SIZE) k (o' div CHUNK_SIZE)")
    case (Ok h)
    have "no_collision sha
        {b. \<exists>n. bf_read_chunk ops (ed_file s) (o' div CHUNK_SIZE) (zeros CHUNK_SIZE) = Ok (n, b)}
        {pad_block (block ?g (o' div CHUNK_SIZE))}"
      using sec block_not_yet_written[OF rng(1) chunk(3), of g buf] by (simp add: storage_no_collision_def)
    from new_chunk_hash_sound[OF sha t, of o' ?src ops, OF _ this] Ok len chunk(2)
    have h: "h = sha (pad_block (block (write_bytes ?g o' ?src) (o' div CHUNK_SIZE)))" by simp
    from run Ok obtain f' tree where
      tree: "MerkleLeaves_update_hash p (ed_merkle_tree s) (o' div CHUNK_SIZE) h (off + length buf) =
        (Ok tree :: (io_error, merkle_leaves) res)"
      and s': "early = None" "s' = s\<lparr>ed_file := f', ed_merkle_tree := tree\<rparr>"
      by (auto simp: write_at_chunk_eq[OF rng] and_then_Ok_iff split: prod.splits)
    have "?src \<noteq> []" "o' < 2 ^ 64" using len chunk(1) rng by auto
    moreover have "o' mod CHUNK_SIZE + length ?src \<le> CHUNK_SIZE" using len chunk(2) by simp
    ultimately have "(MerkleLeaves_update_hash p (ed_merkle_tree s) (o' div CHUNK_SIZE) h (off + length buf)
          :: (io_error, merkle_leaves) res) =
        Ok \<lparr>leaves = leaves_of sha (write_bytes ?g o' ?src),
            file_size = max (file_size (ed_merkle_tree s)) (off + length buf)\<rparr>"
      using update_hash_write[OF sha _ _ t _ h] by blast
    with tree s' show ?thesis using take_write_step[OF rng(1,2), of g] by auto
  next
    case (Err e)
    with run show ?thesis by (auto simp: write_at_chunk_eq[OF rng] split: if_splits)
  qed (use run in \<open>simp_all add: write_at_chunk_eq[OF rng]\<close>)
qed

lemma write_items_secure:
  assumes sha: "sha256_spec ffi sha" and sec: "storage_no_collision sha ops g"
    and fits: "off + length buf < 2 ^ 64"
  shows "off \<le> o' \<Longrightarrow> o' + r = off + length buf \<Longrightarrow> r = 0 \<or> o' = off \<or> o' mod CHUNK_SIZE = 0 \<Longrightarrow>
    leaves (ed_merkle_tree s) = leaves_of sha (write_bytes g off (take (o' - off) buf)) \<Longrightarrow>
    file_size (ed_merkle_tree s) = (if o' = off then n0 else max n0 (off + length buf)) \<Longrightarrow>
    write_items p ffi ops buf off (chunk_items CHUNK_SIZE o' r) s = (Ok n, s') \<Longrightarrow>
    n \<le> length buf \<and> leaves (ed_merkle_tree s') = leaves_of sha (write_bytes g off (take n buf)) \<and>
    file_size (ed_merkle_tree s') = (if n = 0 then n0 else max n0 (off + length buf))"
proof (induction r arbitrary: o' s rule: less_induct)
  case (less r)
  show ?case
  proof (cases "r = 0")
    case True
    with less.prems show ?thesis by (auto split: if_splits)
  next
    case False
    define k where "k = min r (CHUNK_SIZE - o' mod CHUNK_SIZE)"
    have k: "0 < k" "k \<le> r" "o' mod CHUNK_SIZE + k \<le> CHUNK_SIZE" "k < r \<Longrightarrow> (o' + k) mod CHUNK_SIZE = 0"
      using chunk_head[of r o'] False by (simp_all add: k_def)
    have rng: "o' + k \<le> off + length buf" using less.prems(2) k(2) by simp
    have aligned: "o' = off \<or> o' mod CHUNK_SIZE = 0" using less.prems(3) False by simp
    have items: "chunk_items CHUNK_SIZE o' r = (o', k) # chunk_items CHUNK_SIZE (o' + k) (r - k)"
      using False by (simp add: chunk_items_step k_def)
    from less.prems(6) obtain early s1 where
      step: "write_at_chunk p ffi ops buf off s (o', k) = (Ok early, s1)"
      and rest: "(case early of Some w \<Rightarrow> (Ok w, s1)
        | None \<Rightarrow> write_items p ffi ops buf off (chunk_items CHUNK_SIZE (o' + k) (r - k)) s1) = (Ok n, s')"
      unfolding items by (auto simp: and_then_Ok_iff)
    from write_at_chunk_secure[OF sha sec less.prems(1) rng fits k(1,3) aligned less.prems(4) step]
    consider (go) "early = None"
        "leaves (ed_merkle_tree s1) = leaves_of sha (write_bytes g off (take (o' + k - off) buf))"
        "file_size (ed_merkle_tree s1) = max (file_size (ed_merkle_tree s)) (off + length buf)"
      | (stop) "early = Some (o' - off)" "off < o'" "s1 = s" by blast
    then show ?thesis
    proof cases
      case go
      have "file_size (ed_merkle_tree s1) = max n0 (off + length buf)"
        using go(3) less.prems(5) by (simp split: if_splits)
      moreover have "r - k = 0 \<or> o' + k = off \<or> (o' + k) mod CHUNK_SIZE = 0" using k(4) by linarith
      ultimately show ?thesis
        using less.IH[of "r - k" "o' + k" s1] go(1,2) rest k(1,2) less.prems(1,2) by simp
    next
      case stop
      with rest less.prems show ?thesis by auto
    qed
  qed
qed

section \<open>Truncation\<close>

lemma truncated_block:
  assumes "n mod CHUNK_SIZE = m" "n div CHUNK_SIZE = i"
  shows "take m (pad_block (block c i)) @ zeros (CHUNK_SIZE - m) = pad_block (block (resize_bytes c n) i)"
proof (rule nth_equalityI)
  have m: "m < CHUNK_SIZE" using assms(1) by (metis CHUNK_SIZE_pos(1) mod_less_divisor)
  then show "length (take m (pad_block (block c i)) @ zeros (CHUNK_SIZE - m)) =
      length (pad_block (block (resize_bytes c n) i))" by simp
  fix j assume "j < length (take m (pad_block (block c i)) @ zeros (CHUNK_SIZE - m))"
  then have j: "j < CHUNK_SIZE" using m by simp
  have "n = i * CHUNK_SIZE + m" using assms by (metis div_mult_mod_eq)
  with j m show "(take m (pad_block (block c i)) @ zeros (CHUNK_SIZE - m)) ! j =
      pad_block (block (resize_bytes c n) i) ! j"
    by (auto simp: nth_append nth_pad_block_block byte_at_resize_bytes)
qed

lemma pad_block_resize_below:
  "Suc i * CHUNK_SIZE \<le> n \<Longrightarrow> pad_block (block (resize_bytes c n) i) = pad_block (block c i)"
  by (auto simp: pad_block_block_eq_iff byte_at_resize_bytes)

lemma ceil_div_partial:
  assumes "0 < n mod CHUNK_SIZE"
  shows "ceil_div n CHUNK_SIZE = Suc (n div CHUNK_SIZE)"
proof (rule ceil_div_unique)
  fix k
  let ?i = "n div CHUNK_SIZE"
  have n: "n = ?i * CHUNK_SIZE + n mod CHUNK_SIZE" by simp
  show "Suc ?i \<le> k \<longleftrightarrow> n \<le> k * CHUNK_SIZE"
  proof
    assume "Suc ?i \<le> k"
    then have "Suc ?i * CHUNK_SIZE \<le> k * CHUNK_SIZE" by (rule mult_le_mono1)
    moreover have "n < Suc ?i * CHUNK_SIZE"
      unfolding mult_Suc using n mod_less_divisor[OF CHUNK_SIZE_pos(1), of n] by linarith
    ultimately show "n \<le> k * CHUNK_SIZE" by linarith
  next
    assume "n \<le> k * CHUNK_SIZE"
    then have "?i * CHUNK_SIZE < k * CHUNK_SIZE" using n assms by linarith
    then show "Suc ?i \<le> k" by simp
  qed
qed simp

text \<open>Truncating inside a block: the leaf of the new last block is replaced, then the leaves are cut.\<close>

lemma truncate_leaves:
  assumes "n < length c" "0 < n mod CHUNK_SIZE" "n div CHUNK_SIZE = i"
  shows "vec_resize ((leaves_of sha c)[i := sha (pad_block (block (resize_bytes c n) i))])
      (ceil_div n CHUNK_SIZE) v = leaves_of sha (resize_bytes c n)"
proof -
  have n: "n = i * CHUNK_SIZE + n mod CHUNK_SIZE" using assms(3) by (metis div_mult_mod_eq)
  have i: "i < num_blocks c" using n assms(1) by (simp add: less_num_blocks_iff)
  have cd: "ceil_div n CHUNK_SIZE = Suc i" using ceil_div_partial[OF assms(2)] assms(3) by simp
  have "leaves_of sha (resize_bytes c n) ! j = sha (pad_block (block c j))" if "j < i" for j
  proof -
    have "Suc j * CHUNK_SIZE \<le> i * CHUNK_SIZE" using that by (intro mult_le_mono1) simp
    then have "Suc j * CHUNK_SIZE \<le> n" using n by linarith
    with that show ?thesis
      by (simp add: nth_leaves_of num_blocks_def cd pad_block_resize_below del: mult_Suc)
  qed
  then show ?thesis
    using i
    by (intro nth_equalityI)
      (auto simp: nth_vec_resize num_blocks_def cd nth_leaves_of less_Suc_eq nth_list_update)
qed

lemma resize_tail_hash_eq:
  assumes "sha256_spec ffi sha" "length b = CHUNK_SIZE" "m \<le> k" "m \<le> CHUNK_SIZE"
    and "bf_read_chunk ops (ed_file s) i (zeros CHUNK_SIZE) = Ok (k, b)"
  shows "resize_tail_hash p ffi ops s i m = Ok (sha (take m b @ zeros (CHUNK_SIZE - m)))"
  using assms(2-5)
  by (simp add: resize_tail_hash_def VerifiedFileEditor_read_chunk_def slice_def
      sha256_chain_mapped(1)[OF assms(1)])

section \<open>The editor on storage that meets its contract\<close>

definition editor_inv ::
  "(bytes \<Rightarrow> hash) \<Rightarrow> ('f \<Rightarrow> bytes) \<Rightarrow> ('f \<Rightarrow> bool) \<Rightarrow> 'f verified_file_editor \<Rightarrow> bool" where
  "editor_inv sha content valid s \<longleftrightarrow>
     valid (ed_file s) \<and> ed_merkle_tree s = merkle_of sha (content (ed_file s))"

context random_access_file
begin

lemma read_back:
  assumes "wf f" "i < num_blocks (content f)"
  shows "bf_read_chunk ops f i (zeros CHUNK_SIZE) =
    Ok (length (block (content f) i), pad_block (block (content f) i))"
  using reads_blocks.read_within_zeros[OF reads[OF assms(1)] assms(2) size_bound[OF assms(1)]] .

lemma write_at_chunk_ok:
  assumes sha: "sha256_spec ffi sha" and wf: "wf (ed_file s)"
    and t: "leaves (ed_merkle_tree s) = leaves_of sha (content (ed_file s))"
    and rng: "off \<le> o'" "o' + k \<le> off + length buf" "off + length buf < 2 ^ 63"
    and chunk: "0 < k" "o' mod CHUNK_SIZE + k \<le> CHUNK_SIZE"
  defines "src \<equiv> take k (drop (o' - off) buf)"
  shows "\<exists>s'. write_at_chunk p ffi ops buf off s (o', k) = (Ok None, s') \<and> wf (ed_file s') \<and>
    content (ed_file s') = write_bytes (content (ed_file s)) o' src \<and>
    ed_merkle_tree s' = \<lparr>leaves = leaves_of sha (content (ed_file s')),
      file_size = max (file_size (ed_merkle_tree s)) (off + length buf)\<rparr>"
proof -
  let ?c = "content (ed_file s)" and ?i = "o' div CHUNK_SIZE"
  have len: "length src = k" using rng by (simp add: src_def)
  from new_chunk_hash_complete[OF sha t _ read_back[OF wf], of o' src p] len chunk(2)
  have h: "new_chunk_hash p ffi ops s src (o' mod CHUNK_SIZE) k ?i =
      Ok (sha (pad_block (block (write_bytes ?c o' src) ?i)))" by simp
  have small: "o' + length src < 2 ^ 63" "length src < 2 ^ 31"
    using rng len chunk(2) by (auto simp: CHUNK_SIZE_def)
  from write_all_at_ok[OF wf this, of p] obtain f' where
    w: "write_all_at p ops (ed_file s) src o' = (Ok (), f')" and f': "wf f'" "content f' = write_bytes ?c o' src"
    by blast
  have "(MerkleLeaves_update_hash p (ed_merkle_tree s) ?i (sha (pad_block (block (write_bytes ?c o' src) ?i)))
        (off + length buf) :: (io_error, merkle_leaves) res) =
      Ok \<lparr>leaves = leaves_of sha (write_bytes ?c o' src),
          file_size = max (file_size (ed_merkle_tree s)) (off + length buf)\<rparr>"
    using len chunk rng by (intro update_hash_write[OF sha _ _ t]) auto
  with h w f' rng(3) show ?thesis
    by (simp add: write_at_chunk_eq[OF rng(1,2), folded src_def])
qed

lemma write_items_ok:
  assumes sha: "sha256_spec ffi sha" and fits: "off + length buf < 2 ^ 63"
  shows "wf (ed_file s) \<Longrightarrow> leaves (ed_merkle_tree s) = leaves_of sha (content (ed_file s)) \<Longrightarrow>
    off \<le> o' \<Longrightarrow> o' + r = off + length buf \<Longrightarrow>
    \<exists>s'. write_items p ffi ops buf off (chunk_items CHUNK_SIZE o' r) s = (Ok (length buf), s') \<and>
      wf (ed_file s') \<and> content (ed_file s') = write_bytes (content (ed_file s)) o' (drop (o' - off) buf) \<and>
      ed_merkle_tree s' = \<lparr>leaves = leaves_of sha (content (ed_file s')),
        file_size = if r = 0 then file_size (ed_merkle_tree s)
          else max (file_size (ed_merkle_tree s)) (off + length buf)\<rparr>"
proof (induction r arbitrary: o' s rule: less_induct)
  case (less r)
  show ?case
  proof (cases "r = 0")
    case True
    with less.prems show ?thesis by (cases "ed_merkle_tree s") (auto simp: write_bytes_def)
  next
    case False
    define k where "k = min r (CHUNK_SIZE - o' mod CHUNK_SIZE)"
    have k: "0 < k" "k \<le> r" "o' mod CHUNK_SIZE + k \<le> CHUNK_SIZE"
      using chunk_head[of r o'] False by (simp_all add: k_def)
    have items: "chunk_items CHUNK_SIZE o' r = (o', k) # chunk_items CHUNK_SIZE (o' + k) (r - k)"
      using False by (simp add: chunk_items_step k_def)
    have rng: "o' + k \<le> off + length buf" using less.prems(4) k(2) by simp
    let ?src = "take k (drop (o' - off) buf)"
    from write_at_chunk_ok[OF sha less.prems(1,2,3) rng fits k(1,3), of p] obtain s1 where
      s1: "write_at_chunk p ffi ops buf off s (o', k) = (Ok None, s1)" "wf (ed_file s1)"
        "content (ed_file s1) = write_bytes (content (ed_file s)) o' ?src"
        "ed_merkle_tree s1 = \<lparr>leaves = leaves_of sha (content (ed_file s1)),
          file_size = max (file_size (ed_merkle_tree s)) (off + length buf)\<rparr>" by blast
    from less.IH[of "r - k" s1 "o' + k"] s1(2,4) k(1,2) less.prems(3,4) obtain s2 where
      s2: "write_items p ffi ops buf off (chunk_items CHUNK_SIZE (o' + k) (r - k)) s1 = (Ok (length buf), s2)"
        "wf (ed_file s2)"
        "content (ed_file s2) = write_bytes (content (ed_file s1)) (o' + k) (drop (o' + k - off) buf)"
        "ed_merkle_tree s2 = \<lparr>leaves = leaves_of sha (content (ed_file s2)),
          file_size = max (file_size (ed_merkle_tree s)) (off + length buf)\<rparr>"
      by (auto split: if_splits)
    have "length ?src = k" "?src @ drop (o' + k - off) buf = drop (o' - off) buf"
      using rng less.prems(3) append_take_drop_id[of k "drop (o' - off) buf"] by (auto simp: add.commute)
    with s1(3) s2(3) have "content (ed_file s2) = write_bytes (content (ed_file s)) o' (drop (o' - off) buf)"
      using write_bytes_append[of "content (ed_file s)" o' ?src "drop (o' + k - off) buf"] by simp
    with s1(1) s2 False show ?thesis by (simp add: items)
  qed
qed

lemma editor_write_at_ok:
  assumes sha: "sha256_spec ffi sha" and inv: "editor_inv sha content wf s"
    and fits: "off + length buf < 2 ^ 63"
  shows "\<exists>s'. VerifiedFileEditor_write_at p ffi ops s buf off = (Ok (length buf), s') \<and>
    editor_inv sha content wf s' \<and>
    content (ed_file s') = write_bytes (content (ed_file s)) off buf"
proof -
  have "VerifiedFileEditor_write_at p ffi ops s buf off =
      write_items p ffi ops buf off (chunk_items CHUNK_SIZE off (length buf)) s"
    using fits by (simp add: VerifiedFileEditor_write_at_def write_at_loop_eq)
  with write_items_ok[OF sha fits, of s off "length buf" p] inv show ?thesis
    by (auto simp: editor_inv_def merkle_of_def length_write_bytes)
qed

lemma editor_resize_ok:
  assumes sha: "sha256_spec ffi sha" and inv: "editor_inv sha content wf s" and fits: "n < 2 ^ 63"
  shows "\<exists>s'. VerifiedFileEditor_resize p ffi ops s n = (Ok (), s') \<and> editor_inv sha content wf s' \<and>
    content (ed_file s') = resize_bytes (content (ed_file s)) n"
proof -
  let ?c = "content (ed_file s)" and ?i = "n div CHUNK_SIZE" and ?m = "n mod CHUNK_SIZE"
  have wf: "wf (ed_file s)" and t: "ed_merkle_tree s = merkle_of sha ?c"
    using inv by (auto simp: editor_inv_def)
  obtain f' where f': "bf_resize ops (ed_file s) n = (Ok (), f')" "wf f'" "content f' = resize_bytes ?c n"
    using resizes[OF wf fits] by blast
  have n64: "n + CHUNK_SIZE < 2 ^ 64" using fits by (simp add: CHUNK_SIZE_def)
  show ?thesis
  proof (cases "n < length ?c \<and> 0 < ?m")
    case False
    then have "length ?c \<le> n \<or> CHUNK_SIZE dvd n" by (auto simp: dvd_eq_mod_eq_0)
    from resize_leaves[OF sha n64 this, of p] have "MerkleLeaves_resize p (merkle_of sha ?c) n =
        (Ok (merkle_of sha (resize_bytes ?c n)) :: (io_error, merkle_leaves) res)" .
    with False f' t show ?thesis
      by (auto simp: VerifiedFileEditor_resize_def editor_inv_def MerkleLeaves_file_size_def merkle_of_def)
  next
    case True
    let ?h = "sha (pad_block (block (resize_bytes ?c n) ?i))"
    have i: "?i < num_blocks ?c"
      unfolding less_num_blocks_iff using True by (intro le_less_trans[OF div_times_less_eq_dividend]) simp
    from read_back[OF wf i]
    have "bf_read_chunk ops (ed_file s) ?i (zeros CHUNK_SIZE) =
        Ok (length (block ?c ?i), pad_block (block ?c ?i))" .
    moreover have "?m \<le> length (block ?c ?i)"
    proof -
      have "?i * CHUNK_SIZE + ?m = n" by simp
      then have "?m < length ?c - ?i * CHUNK_SIZE" using True by linarith
      then show ?thesis by (simp add: length_block less_imp_le)
    qed
    ultimately have h: "resize_tail_hash p ffi ops s ?i ?m = Ok ?h"
      using resize_tail_hash_eq[OF sha, of "pad_block (block ?c ?i)" ?m] truncated_block[OF refl refl, of n ?c]
      by (simp add: less_imp_le)
    have "?i < 2 ^ 63" using div_le_dividend fits by (rule le_less_trans)
    then have "?i + 1 < 2 ^ 64" by simp
    then have u: "(MerkleLeaves_update_hash p (merkle_of sha ?c) ?i ?h n :: (io_error, merkle_leaves) res) =
        Ok \<lparr>leaves = (leaves_of sha ?c)[?i := ?h], file_size = length ?c\<rparr>"
      using i True by (simp add: MerkleLeaves_update_hash_def merkle_of_def uadd_ok Let_def)
    have "(MerkleLeaves_resize p \<lparr>leaves = (leaves_of sha ?c)[?i := ?h], file_size = length ?c\<rparr> n
        :: (io_error, merkle_leaves) res) = Ok (merkle_of sha (resize_bytes ?c n))"
      using truncate_leaves[of n ?c ?i sha] True n64
      by (simp add: MerkleLeaves_resize_def divide_roundup_ok merkle_of_def)
    with True h u f' t show ?thesis
      by (auto simp: VerifiedFileEditor_resize_def editor_inv_def MerkleLeaves_file_size_def Let_def
          merkle_of_def)
  qed
qed

lemma editor_random_access:
  assumes sha: "sha256_spec ffi sha"
  shows "random_access_file (VerifiedFileEditor p ffi ops) (\<lambda>s. content (ed_file s))
    (editor_inv sha content wf)"
proof (rule random_access_file.intro)
  fix s :: "'f verified_file_editor" assume inv: "editor_inv sha content wf s"
  then have "wf (ed_file s)" by (simp add: editor_inv_def)
  from size_bound[OF this] show "length (content (ed_file s)) < 2 ^ 63" .
  from reads[OF \<open>wf (ed_file s)\<close>]
  show "reads_blocks (bf_read_chunk (VerifiedFileEditor p ffi ops) s) (content (ed_file s))"
    by (simp add: VerifiedFileEditor_def VerifiedFileEditor_read_chunk_def[abs_def])
  show "\<exists>s'. bf_resize (VerifiedFileEditor p ffi ops) s n = (Ok (), s') \<and> editor_inv sha content wf s' \<and>
      content (ed_file s') = resize_bytes (content (ed_file s)) n" if "n < 2 ^ 63" for n
    using editor_resize_ok[OF sha inv that, of p] by (simp add: VerifiedFileEditor_def)
  fix buf :: bytes and off :: nat
  assume "buf \<noteq> []" "off + length buf < 2 ^ 63" "length buf < 2 ^ 31"
  with editor_write_at_ok[OF sha inv, of off buf p]
  show "\<exists>n s'. bf_write_at (VerifiedFileEditor p ffi ops) s buf off = (Ok n, s') \<and> 0 < n \<and>
      n \<le> length buf \<and> editor_inv sha content wf s' \<and>
      content (ed_file s') = write_bytes (content (ed_file s)) off (take n buf)"
    by (auto simp: VerifiedFileEditor_def)
qed

end

end
