(* ===== verification/Remote_File.thy ===== *)
theory Remote_File
  imports File_Traits
begin

text \<open>
  \<open>authfs/src/file/remote_file.rs\<close>: the files that authfs reads and writes through the binder
  interface \<open>IVirtFdService\<close>. The service runs on the untrusted side, so the interface is the record
  \<open>virt_fd_service\<close> of its methods over an abstract server state, with nothing assumed about it in
  the definitions; file descriptors, offsets and sizes are the \<open>int\<close> and \<open>long\<close> values of the AIDL
  file. The locale \<open>virt_fd_file\<close> is what the AIDL comments promise for one readable and writable
  file id; under it \<open>RemoteFileReader\<close> and \<open>RemoteFileEditor\<close> meet the contracts of \<open>file.rs\<close>.
\<close>

datatype exception_code = ILLEGAL_ARGUMENT | UNSUPPORTED_OPERATION

datatype status_code =
    INVALID_OPERATION | UNKNOWN_ERROR | BAD_VALUE | PERMISSION_DENIED | FAILED_TRANSACTION

text \<open>A binder \<open>Status\<close>: from a \<open>status_t\<close> number, a status code, or a new exception.\<close>

datatype status = FromStatusT int | FromStatusCode status_code | NewException exception_code

record 's virt_fd_service =
  svc_readFile :: "'s \<Rightarrow> int \<Rightarrow> int \<Rightarrow> int \<Rightarrow> (status, bytes) res"
  svc_readFsverityMerkleTree :: "'s \<Rightarrow> int \<Rightarrow> int \<Rightarrow> int \<Rightarrow> (status, bytes) res"
  svc_readFsveritySignature :: "'s \<Rightarrow> int \<Rightarrow> (status, bytes) res"
  svc_writeFile :: "'s \<Rightarrow> int \<Rightarrow> bytes \<Rightarrow> int \<Rightarrow> (status, int) res \<times> 's"
  svc_resize :: "'s \<Rightarrow> int \<Rightarrow> int \<Rightarrow> (status, unit) res \<times> 's"

text \<open>\<open>i64::try_from(v).map_err(|_| EOVERFLOW)\<close>, and \<open>v as usize\<close> of an \<open>i32\<close>.\<close>

definition i64_try_from :: "nat \<Rightarrow> (io_error, int) res" where
  "i64_try_from v = (if v < 2 ^ 63 then Ok (int v) else Err (Os EOVERFLOW))"

definition i32_as_usize :: "int \<Rightarrow> nat" where
  "i32_as_usize v = nat (v mod 2 ^ 64)"

definition binder_error :: "status \<Rightarrow> io_error" where
  "binder_error e = Custom KindOther"

definition remote_read_chunk ::
  "profile \<Rightarrow> 's virt_fd_service \<Rightarrow> 's \<Rightarrow> int \<Rightarrow> chunk_reader" where
  "remote_read_chunk p service st remote_fd chunk_index buf =
     try_r (umul p 64 chunk_index CHUNK_SIZE) (\<lambda>byte_offset.
     try_r (i64_try_from byte_offset) (\<lambda>off.
     try_r (map_err binder_error (svc_readFile service st remote_fd off (int (length buf)))) (\<lambda>chunk.
     let n = min (length buf) (length chunk)
     in Ok (n, overwrite buf (take n chunk)))))"

definition RemoteFileReader_read_chunk ::
  "profile \<Rightarrow> 's virt_fd_service \<Rightarrow> 's \<Rightarrow> int \<Rightarrow> chunk_reader" where
  "RemoteFileReader_read_chunk p service st file_fd chunk_index buf =
     remote_read_chunk p service st file_fd chunk_index buf"

definition RemoteMerkleTreeReader_read_chunk ::
  "profile \<Rightarrow> 's virt_fd_service \<Rightarrow> 's \<Rightarrow> int \<Rightarrow> chunk_reader" where
  "RemoteMerkleTreeReader_read_chunk p service st file_fd chunk_index buf =
     try_r (umul p 64 chunk_index CHUNK_SIZE) (\<lambda>byte_offset.
     try_r (i64_try_from byte_offset) (\<lambda>off.
     try_r (map_err binder_error
              (svc_readFsverityMerkleTree service st file_fd off (int (length buf)))) (\<lambda>chunk.
     let n = min (length buf) (length chunk)
     in Ok (n, overwrite buf (take n chunk)))))"

definition RemoteFileEditor_write_at ::
  "'s virt_fd_service \<Rightarrow> int \<Rightarrow> 's \<Rightarrow> bytes \<Rightarrow> nat \<Rightarrow> (io_error, nat) res \<times> 's" where
  "RemoteFileEditor_write_at service file_fd st buf off =
     and_then (i64_try_from off, st) (\<lambda>off' st.
     and_then (map_err_st binder_error (svc_writeFile service st file_fd buf off')) (\<lambda>n st.
     (Ok (i32_as_usize n), st)))"

definition RemoteFileEditor_resize ::
  "'s virt_fd_service \<Rightarrow> int \<Rightarrow> 's \<Rightarrow> nat \<Rightarrow> (io_error, unit) res \<times> 's" where
  "RemoteFileEditor_resize service file_fd st n =
     and_then (i64_try_from n, st) (\<lambda>n' st.
     map_err_st binder_error (svc_resize service st file_fd n'))"

definition RemoteFileEditor_read_chunk ::
  "profile \<Rightarrow> 's virt_fd_service \<Rightarrow> int \<Rightarrow> 's \<Rightarrow> chunk_reader" where
  "RemoteFileEditor_read_chunk p service file_fd st chunk_index buf =
     remote_read_chunk p service st file_fd chunk_index buf"

definition RemoteFileEditor :: "profile \<Rightarrow> 's virt_fd_service \<Rightarrow> int \<Rightarrow> 's backing_file" where
  "RemoteFileEditor p service file_fd =
     \<lparr>bf_read_chunk = RemoteFileEditor_read_chunk p service file_fd,
      bf_write_at = RemoteFileEditor_write_at service file_fd,
      bf_resize = RemoteFileEditor_resize service file_fd\<rparr>"

section \<open>Reading through the service\<close>

text \<open>Whatever the service answers, a remote read leaves the buffer beyond the returned size as it
  was: bytes that were not read cannot come from the service.\<close>

lemma remote_read_chunk_shape:
  "remote_read_chunk p service st fd i buf = Ok (n, buf') \<Longrightarrow>
   n \<le> length buf \<and> length buf' = length buf \<and> buf' = overwrite buf (take n buf')"
  by (auto simp: remote_read_chunk_def try_r_Ok_iff Let_def overwrite_def)

lemma remote_read_chunk_pads:
  assumes "remote_read_chunk p service st fd i (zeros CHUNK_SIZE) = Ok (n, buf)"
  shows "buf = pad_block (take n buf)" and "n \<le> CHUNK_SIZE"
proof -
  from remote_read_chunk_shape[OF assms]
  have "n \<le> CHUNK_SIZE" and buf: "buf = overwrite (zeros CHUNK_SIZE) (take n buf)"
    and "length buf = CHUNK_SIZE" by auto
  then show "n \<le> CHUNK_SIZE" by simp
  from buf show "buf = pad_block (take n buf)" by (simp only: overwrite_zeros_block)
qed

text \<open>A read that returns the requested range of the content, or what is left of it.\<close>

definition serves :: "(int \<Rightarrow> int \<Rightarrow> (status, bytes) res) \<Rightarrow> bytes \<Rightarrow> bool" where
  "serves rd content \<longleftrightarrow>
     (\<forall>off n. off < 2 ^ 63 \<longrightarrow> n \<le> CHUNK_SIZE \<longrightarrow>
        rd (int off) (int n) = Ok (take n (drop off content)))"

lemma serves_block:
  "serves rd c \<Longrightarrow> i * CHUNK_SIZE < 2 ^ 63 \<Longrightarrow> n = CHUNK_SIZE \<Longrightarrow>
   rd (int (i * CHUNK_SIZE)) (int n) = Ok (block c i)"
  by (simp add: serves_def block_def del: of_nat_mult)

lemma block_read_shape:
  assumes "i * CHUNK_SIZE < 2 ^ 63"
  shows "(umul p 64 i CHUNK_SIZE :: (io_error, nat) res) = Ok (i * CHUNK_SIZE)"
    and "i64_try_from (i * CHUNK_SIZE) = Ok (int (i * CHUNK_SIZE))"
  using assms by (simp_all add: umul_ok i64_try_from_def)

lemma remote_reader_reads:
  assumes "serves (svc_readFile service st fd) content"
  shows "read_by_chunk (remote_read_chunk p service st fd) content"
proof
  fix i and buf :: bytes
  assume i: "i * CHUNK_SIZE < 2 ^ 63" and buf: "length buf = CHUNK_SIZE"
  show "remote_read_chunk p service st fd i buf =
      Ok (length (block content i), overwrite buf (block content i))"
    using block_read_shape[OF i] serves_block[OF assms i buf] buf
    by (simp add: remote_read_chunk_def Let_def min_absorb2 del: of_nat_mult)
qed

lemma remote_merkle_reader_reads:
  assumes "serves (svc_readFsverityMerkleTree service st fd) content"
  shows "read_by_chunk (RemoteMerkleTreeReader_read_chunk p service st fd) content"
proof
  fix i and buf :: bytes
  assume i: "i * CHUNK_SIZE < 2 ^ 63" and buf: "length buf = CHUNK_SIZE"
  show "RemoteMerkleTreeReader_read_chunk p service st fd i buf =
      Ok (length (block content i), overwrite buf (block content i))"
    using block_read_shape[OF i] serves_block[OF assms i buf] buf
    by (simp add: RemoteMerkleTreeReader_read_chunk_def Let_def min_absorb2 del: of_nat_mult)
qed

section \<open>The contract of a writable file id\<close>

locale virt_fd_file =
  fixes service :: "'s virt_fd_service" and fd :: int
    and content :: "'s \<Rightarrow> bytes" and wf :: "'s \<Rightarrow> bool"
  assumes serves_file: "wf s \<Longrightarrow> serves (svc_readFile service s fd) (content s)"
    and file_bound: "wf s \<Longrightarrow> length (content s) < 2 ^ 63"
    and writes_file: "wf s \<Longrightarrow> buf \<noteq> [] \<Longrightarrow> off + length buf < 2 ^ 63 \<Longrightarrow> length buf < 2 ^ 31 \<Longrightarrow>
      \<exists>n s'. svc_writeFile service s fd buf (int off) = (Ok n, s') \<and> 0 < n \<and> n \<le> int (length buf) \<and>
        wf s' \<and> content s' = write_bytes (content s) off (take (nat n) buf)"
    and resizes_file: "wf s \<Longrightarrow> n < 2 ^ 63 \<Longrightarrow>
      \<exists>s'. svc_resize service s fd (int n) = (Ok (), s') \<and> wf s' \<and>
        content s' = resize_bytes (content s) n"
begin

lemma editor_reads: "wf s \<Longrightarrow> read_by_chunk (RemoteFileEditor_read_chunk p service fd s) (content s)"
  using remote_reader_reads[OF serves_file]
  by (simp add: RemoteFileEditor_read_chunk_def[abs_def])

lemma editor_resizes:
  assumes "wf s" "n < 2 ^ 63"
  shows "\<exists>s'. RemoteFileEditor_resize service fd s n = (Ok (), s') \<and> wf s' \<and>
    content s' = resize_bytes (content s) n"
  using resizes_file[OF assms] assms(2)
  by (auto simp: RemoteFileEditor_resize_def i64_try_from_def map_err_st_def)

lemma editor_writes:
  assumes "wf s" "buf \<noteq> []" "off + length buf < 2 ^ 63" "length buf < 2 ^ 31"
  shows "\<exists>n s'. RemoteFileEditor_write_at service fd s buf off = (Ok n, s') \<and> 0 < n \<and>
    n \<le> length buf \<and> wf s' \<and> content s' = write_bytes (content s) off (take n buf)"
proof -
  from writes_file[OF assms] obtain n s' where w: "svc_writeFile service s fd buf (int off) = (Ok n, s')"
    and n: "0 < n" "n \<le> int (length buf)"
    and s': "wf s'" "content s' = write_bytes (content s) off (take (nat n) buf)" by blast
  have "n mod 2 ^ 64 = n" using n assms(4) by (intro mod_pos_pos_trivial) auto
  then have "i32_as_usize n = nat n" by (simp add: i32_as_usize_def)
  with w n s' assms(3) show ?thesis
    by (auto simp: RemoteFileEditor_write_at_def i64_try_from_def map_err_st_def)
qed

end

sublocale virt_fd_file \<subseteq> editor: random_access_file "RemoteFileEditor p service fd" content wf for p
proof unfold_locales
  fix s assume "wf s"
  then show "length (content s) < 2 ^ 63" by (rule file_bound)
qed (simp_all add: RemoteFileEditor_def editor_resizes editor_writes
    reads_blocks.read_within[OF read_by_chunk_within[OF editor_reads]])

context virt_fd_file
begin

lemma remote_editor_contract: "random_access_file (RemoteFileEditor p service fd) content wf"
  by (rule editor.random_access_file_axioms)

end

end
