(* ===== verification/Rust_Str.thy ===== *)
theory Rust_Str
  imports Prelude
begin

text \<open>
  The string functions of the Rust standard library that the command lines of the programs go
  through: \<open>str::split\<close> on a character, \<open>str::find\<close>, \<open>str::parse\<close> of the integer types (an optional sign, at
  least one decimal digit, no overflow) and the decimal \<open>Display\<close> of integers. The lemmas are the
  round trips between them, which the programs rely on when one formats an option that another
  parses.
\<close>

fun split_on :: "char \<Rightarrow> string \<Rightarrow> string list" where
  "split_on c [] = [[]]"
| "split_on c (x # xs) =
     (if x = c then [] # split_on c xs
      else case split_on c xs of [] \<Rightarrow> [[x]] | y # ys \<Rightarrow> (x # y) # ys)"

definition digit_val :: "char \<Rightarrow> nat option" where
  "digit_val c = (let n = of_char c in if 48 \<le> n \<and> n \<le> 57 then Some (n - 48) else None)"

fun parse_digits :: "nat \<Rightarrow> string \<Rightarrow> nat option" where
  "parse_digits acc [] = Some acc"
| "parse_digits acc (c # cs) =
     (case digit_val c of None \<Rightarrow> None | Some d \<Rightarrow> parse_digits (10 * acc + d) cs)"

definition parse_magnitude :: "nat \<Rightarrow> string \<Rightarrow> nat option" where
  "parse_magnitude limit ds =
     (if ds = [] then None
      else case parse_digits 0 ds of
        None \<Rightarrow> None
      | Some n \<Rightarrow> if n < limit then Some n else None)"

text \<open>\<open>s.parse::<u64>()\<close> and the like, of width \<open>w\<close>.\<close>

definition parse_uint :: "nat \<Rightarrow> string \<Rightarrow> nat option" where
  "parse_uint w s =
     (case s of
        c # ds \<Rightarrow> if c = CHR ''+'' then parse_magnitude (2 ^ w) ds else parse_magnitude (2 ^ w) s
      | [] \<Rightarrow> None)"

definition parse_int :: "nat \<Rightarrow> string \<Rightarrow> int option" where
  "parse_int w s =
     (case s of
        c # ds \<Rightarrow>
          if c = CHR ''-'' then map_option (\<lambda>n. - int n) (parse_magnitude (2 ^ (w - 1) + 1) ds)
          else if c = CHR ''+'' then map_option int (parse_magnitude (2 ^ (w - 1)) ds)
          else map_option int (parse_magnitude (2 ^ (w - 1)) s)
      | [] \<Rightarrow> None)"

definition digit_char :: "nat \<Rightarrow> char" where
  "digit_char d = char_of (48 + d)"

fun show_nat :: "nat \<Rightarrow> string" where
  "show_nat n = (if n < 10 then [digit_char n] else show_nat (n div 10) @ [digit_char (n mod 10)])"

declare show_nat.simps [simp del]

definition show_int :: "int \<Rightarrow> string" where
  "show_int i = (if i < 0 then CHR ''-'' # show_nat (nat (- i)) else show_nat (nat i))"

section \<open>Round trips\<close>

lemma digit_val_digit_char [simp]: "d < 10 \<Longrightarrow> digit_val (digit_char d) = Some d"
  by (simp add: digit_val_def digit_char_def Let_def)

lemma parse_digits_append:
  "parse_digits acc (xs @ ys) = (case parse_digits acc xs of None \<Rightarrow> None | Some a \<Rightarrow> parse_digits a ys)"
  by (induction xs arbitrary: acc) (auto split: option.splits)

lemma parse_digits_show_nat: "parse_digits 0 (show_nat n) = Some n"
proof (induction n rule: show_nat.induct)
  case (1 n)
  then show ?case
    by (cases "n < 10") (simp_all add: show_nat.simps[of n] parse_digits_append)
qed

lemma show_nat_not_Nil [simp]: "show_nat n \<noteq> []"
  by (subst show_nat.simps) simp

lemma digit_char_sign [simp]:
  "d < 10 \<Longrightarrow> digit_char d \<noteq> CHR ''+''" "d < 10 \<Longrightarrow> digit_char d \<noteq> CHR ''-''"
  "d < 10 \<Longrightarrow> digit_char d \<noteq> CHR '':''"
  using digit_val_digit_char[of d] by (auto simp: digit_val_def)

lemma show_nat_digits: "c \<in> set (show_nat n) \<Longrightarrow> \<exists>d < 10. c = digit_char d"
proof (induction n rule: show_nat.induct)
  case (1 n)
  then show ?case
    by (cases "n < 10") (auto simp: show_nat.simps[of n] intro: exI[of _ "n mod 10"])
qed

lemma hd_show_nat: "\<exists>d ds. d < 10 \<and> show_nat n = digit_char d # ds"
  using show_nat_digits[of "hd (show_nat n)" n] by (cases "show_nat n") auto

lemma parse_uint_show_nat: "n < 2 ^ w \<Longrightarrow> parse_uint w (show_nat n) = Some n"
  using hd_show_nat[of n] parse_digits_show_nat[of n]
  by (auto simp: parse_uint_def parse_magnitude_def)

lemma parse_int_show_int:
  assumes "- (2 ^ (w - 1)) \<le> i" "i < 2 ^ (w - 1)"
  shows "parse_int w (show_int i) = Some i"
proof (cases "i < 0")
  case True
  then have "nat (- i) < 2 ^ (w - 1) + 1"
    using assms(1) by (simp add: nat_less_iff)
  with True show ?thesis
    by (simp add: parse_int_def show_int_def parse_magnitude_def parse_digits_show_nat)
next
  case False
  then have "nat i < 2 ^ (w - 1)" using assms(2) by (simp add: nat_less_iff)
  with False hd_show_nat[of "nat i"] parse_digits_show_nat[of "nat i"] show ?thesis
    by (auto simp: parse_int_def show_int_def parse_magnitude_def)
qed

lemma split_on_not_Nil [simp]: "split_on c s \<noteq> []"
  by (induction s) (auto split: list.splits)

lemma split_on_no_sep: "c \<notin> set s \<Longrightarrow> split_on c s = [s]"
  by (induction s) auto

lemma split_on_append: "c \<notin> set s \<Longrightarrow> split_on c (s @ c # t) = s # split_on c t"
  by (induction s) auto

lemma no_colon_show_nat [simp]: "CHR '':'' \<notin> set (show_nat n)"
proof
  assume "CHR '':'' \<in> set (show_nat n)"
  then obtain d where "d < 10" "CHR '':'' = digit_char d" using show_nat_digits by blast
  then show False using digit_char_sign(3)[of d] by simp
qed

lemma no_colon_show_int [simp]: "CHR '':'' \<notin> set (show_int i)"
  by (simp add: show_int_def)

end
