(* ===== verification/Fd_Server.thy ===== *)
theory Fd_Server
  imports Remote_File Rust_Str
begin

text \<open>
  \<open>authfs/fd_server\<close>: the host process that serves file descriptors to authfs over the binder
  interface \<open>IVirtFdService\<close> (\<open>main.rs\<close>, \<open>fsverity.rs\<close>). \<open>fd_service\<close> is the pool of files; the
  methods of the interface are one definition each, with every error status of the code, and
  \<open>fd_server\<close> collects them as a \<open>virt_fd_service\<close>. Files are values of the abstract type behind
  \<open>file_api\<close>: two ids of the pool do not share a file. The pool is built from the command line by
  \<open>parse_args\<close>, given the option values that clap collected; the file descriptors inherited by the
  process are the fields of \<open>fd_env\<close>.

  The last section shows that a file in the pool meets the contract \<open>virt_fd_file\<close> that the remote
  files of authfs rely on, and interprets the locale on the service.
\<close>

text \<open>The constants of the AIDL file.\<close>

definition ERROR_UNKNOWN_FD :: int where "ERROR_UNKNOWN_FD = 1"
definition ERROR_IO :: int where "ERROR_IO = 2"
definition MAX_REQUESTING_DATA :: int where "MAX_REQUESTING_DATA = 16384"

section \<open>\<open>fsverity.rs\<close>\<close>

definition FS_VERITY_METADATA_TYPE_MERKLE_TREE :: nat where
  "FS_VERITY_METADATA_TYPE_MERKLE_TREE = 1"

definition FS_VERITY_METADATA_TYPE_SIGNATURE :: nat where
  "FS_VERITY_METADATA_TYPE_SIGNATURE = 3"

text \<open>The ioctl writes to the caller's buffer: the result is the size it returned and the buffer.\<close>

definition read_metadata ::
  "'f file_api \<Rightarrow> 'f \<Rightarrow> nat \<Rightarrow> nat \<Rightarrow> bytes \<Rightarrow> (io_error, nat \<times> bytes) res" where
  "read_metadata api fd ty off buf =
     (case read_verity_metadata api fd
             \<lparr>metadata_type = ty, md_offset = off, md_length = length buf\<rparr> of
        Ok data \<Rightarrow> Ok (length data, overwrite buf data)
      | Err (Sys errno) \<Rightarrow> Err (Os errno)
      | Err OtherNix \<Rightarrow> Panic
      | Panic \<Rightarrow> Panic
      | Hang \<Rightarrow> Hang)"

definition read_merkle_tree :: "'f file_api \<Rightarrow> 'f \<Rightarrow> nat \<Rightarrow> bytes \<Rightarrow> (io_error, nat \<times> bytes) res" where
  "read_merkle_tree api fd off buf =
     read_metadata api fd FS_VERITY_METADATA_TYPE_MERKLE_TREE off buf"

definition read_signature :: "'f file_api \<Rightarrow> 'f \<Rightarrow> bytes \<Rightarrow> (io_error, nat \<times> bytes) res" where
  "read_signature api fd buf = read_metadata api fd FS_VERITY_METADATA_TYPE_SIGNATURE 0 buf"

section \<open>The service\<close>

datatype 'f fd_config =
    Readonly (ro_file: 'f) (alt_merkle_tree: "'f option") (alt_signature: "'f option")
  | ReadWrite (rw_file: 'f)

record 'f fd_service =
  fd_pool :: "int \<rightharpoonup> 'f fd_config"

definition validate_and_cast_offset :: "int \<Rightarrow> (status, nat) res" where
  "validate_and_cast_offset off =
     (if off < 0 then Err (NewException ILLEGAL_ARGUMENT) else Ok (nat off))"

definition validate_and_cast_size :: "int \<Rightarrow> (status, nat) res" where
  "validate_and_cast_size n =
     (if n > MAX_REQUESTING_DATA then Err (NewException ILLEGAL_ARGUMENT)
      else if n < 0 then Err (NewException ILLEGAL_ARGUMENT)
      else Ok (nat n))"

definition get_file_config :: "'f fd_service \<Rightarrow> int \<Rightarrow> (status, 'f fd_config) res" where
  "get_file_config self id' = ok_or (FromStatusT ERROR_UNKNOWN_FD) (fd_pool self id')"

definition read_into_buf :: "'f file_api \<Rightarrow> 'f \<Rightarrow> nat \<Rightarrow> nat \<Rightarrow> (io_error, bytes) res" where
  "read_into_buf api file max_size off =
     try_r (metadata_len api file) (\<lambda>len.
     let rest = saturating_sub len off;
         buf_size = min rest max_size in
     read_exact_at api file buf_size off)"

text \<open>\<open>Status::from(e.raw_os_error().unwrap_or(ERROR_IO))\<close>, with the errno numbers of Linux.\<close>

primrec errno_number :: "errno \<Rightarrow> int" where
  "errno_number EACCES = 13"
| "errno_number EBADF = 9"
| "errno_number EFBIG = 27"
| "errno_number EINVAL = 22"
| "errno_number EIO = 5"
| "errno_number ENODATA = 61"
| "errno_number ENOENT = 2"
| "errno_number ENOSYS = 38"
| "errno_number EOVERFLOW = 75"
| "errno_number (OtherErrno n) = n"

definition raw_os_status :: "io_error \<Rightarrow> status" where
  "raw_os_status e = FromStatusT (case e of Os n \<Rightarrow> errno_number n | Custom _ \<Rightarrow> ERROR_IO)"

definition io_status :: "io_error \<Rightarrow> status" where
  "io_status e = FromStatusT ERROR_IO"

definition readFile :: "'f file_api \<Rightarrow> 'f fd_service \<Rightarrow> int \<Rightarrow> int \<Rightarrow> int \<Rightarrow> (status, bytes) res" where
  "readFile api self id' off n =
     try_r (validate_and_cast_size n) (\<lambda>sz.
     try_r (validate_and_cast_offset off) (\<lambda>off.
     try_r (get_file_config self id') (\<lambda>config.
     case config of
       Readonly file _ _ \<Rightarrow> map_err io_status (read_into_buf api file sz off)
     | ReadWrite file \<Rightarrow> map_err io_status (read_into_buf api file sz off))))"

definition readFsverityMerkleTree ::
  "profile \<Rightarrow> 'f file_api \<Rightarrow> 'f fd_service \<Rightarrow> int \<Rightarrow> int \<Rightarrow> int \<Rightarrow> (status, bytes) res" where
  "readFsverityMerkleTree p api self id' off n =
     try_r (validate_and_cast_size n) (\<lambda>sz.
     try_r (validate_and_cast_offset off) (\<lambda>off.
     try_r (get_file_config self id') (\<lambda>config.
     case config of
       Readonly file alt_tree _ \<Rightarrow>
         (case alt_tree of
            Some tree_file \<Rightarrow> map_err io_status (read_into_buf api tree_file sz off)
          | None \<Rightarrow>
              try_r (map_err raw_os_status (read_merkle_tree api file off (zeros sz))) (\<lambda>(s, buf).
              debug_assert p (s \<le> length buf) (Ok (take s buf))))
     | ReadWrite _ \<Rightarrow> Err (NewException UNSUPPORTED_OPERATION))))"

definition readFsveritySignature ::
  "profile \<Rightarrow> 'f file_api \<Rightarrow> 'f fd_service \<Rightarrow> int \<Rightarrow> (status, bytes) res" where
  "readFsveritySignature p api self id' =
     try_r (get_file_config self id') (\<lambda>config.
     case config of
       Readonly file _ alt_sig \<Rightarrow>
         (case alt_sig of
            Some sig_file \<Rightarrow>
              map_err io_status (read_into_buf api sig_file (nat MAX_REQUESTING_DATA) 0)
          | None \<Rightarrow>
              try_r (map_err raw_os_status
                       (read_signature api file (zeros (nat MAX_REQUESTING_DATA)))) (\<lambda>(s, buf).
              debug_assert p (s \<le> length buf) (Ok (take s buf))))
     | ReadWrite _ \<Rightarrow> Err (NewException UNSUPPORTED_OPERATION))"

text \<open>\<open>n as i32\<close> of a \<open>usize\<close>.\<close>

definition usize_as_i32 :: "nat \<Rightarrow> int" where
  "usize_as_i32 n = (let k = n mod 2 ^ 32 in if k < 2 ^ 31 then int k else int k - 2 ^ 32)"

definition put_file :: "'f fd_service \<Rightarrow> int \<Rightarrow> 'f \<Rightarrow> 'f fd_service" where
  "put_file self id' file = self\<lparr>fd_pool := (fd_pool self)(id' \<mapsto> ReadWrite file)\<rparr>"

definition writeFile ::
  "'f file_api \<Rightarrow> 'f fd_service \<Rightarrow> int \<Rightarrow> bytes \<Rightarrow> int \<Rightarrow> (status, int) res \<times> 'f fd_service" where
  "writeFile api self id' buf off =
     and_then (get_file_config self id', self) (\<lambda>config self.
     case config of
       Readonly _ _ _ \<Rightarrow> (Err (FromStatusCode INVALID_OPERATION), self)
     | ReadWrite file \<Rightarrow>
         and_then (validate_and_cast_offset off, self) (\<lambda>off self.
         if length buf > 2 ^ 31 - 1 then (Err (NewException ILLEGAL_ARGUMENT), self)
         else
           let (r, file') = file_write_at api file buf off
           in (try_r (map_err io_status r) (\<lambda>n. Ok (usize_as_i32 n)), put_file self id' file')))"

definition resize ::
  "'f file_api \<Rightarrow> 'f fd_service \<Rightarrow> int \<Rightarrow> int \<Rightarrow> (status, unit) res \<times> 'f fd_service" where
  "resize api self id' n =
     and_then (get_file_config self id', self) (\<lambda>config self.
     case config of
       Readonly _ _ _ \<Rightarrow> (Err (FromStatusCode INVALID_OPERATION), self)
     | ReadWrite file \<Rightarrow>
         if n < 0 then (Err (NewException ILLEGAL_ARGUMENT), self)
         else
           let (r, file') = set_len api file (nat n)
           in (map_err io_status r, put_file self id' file'))"

definition fd_server :: "profile \<Rightarrow> 'f file_api \<Rightarrow> 'f fd_service virt_fd_service" where
  "fd_server p api =
     \<lparr>svc_readFile = readFile api,
      svc_readFsverityMerkleTree = readFsverityMerkleTree p api,
      svc_readFsveritySignature = readFsveritySignature p api,
      svc_writeFile = writeFile api,
      svc_resize = resize api\<rparr>"

section \<open>The command line\<close>

datatype fd_server_error =
    ParseIntError | BadFd int | TooManyOptions string | FileNotEmpty | FdServerIo io_error

record 'f fd_env =
  fcntl_getfd :: "int \<Rightarrow> int"
  file_from_raw_fd :: "int \<Rightarrow> 'f"

definition is_fd_valid :: "'f fd_env \<Rightarrow> int \<Rightarrow> bool" where
  "is_fd_valid env fd \<longleftrightarrow> fcntl_getfd env fd \<ge> 0"

definition fd_to_file :: "'f fd_env \<Rightarrow> int \<Rightarrow> (fd_server_error, 'f) res" where
  "fd_to_file env fd =
     (if \<not> is_fd_valid env fd then Err (BadFd fd) else Ok (file_from_raw_fd env fd))"

text \<open>\<open>fds.get(i).map(|fd| fd_to_file(*fd)).transpose()\<close>\<close>

definition fd_to_file_opt :: "'f fd_env \<Rightarrow> int list \<Rightarrow> nat \<Rightarrow> (fd_server_error, 'f option) res" where
  "fd_to_file_opt env fds i =
     (if i < length fds then try_r (fd_to_file env (fds ! i)) (\<lambda>f. Ok (Some f)) else Ok None)"

definition parse_arg_ro_fds ::
  "'f fd_env \<Rightarrow> string \<Rightarrow> (fd_server_error, int \<times> 'f fd_config) res" where
  "parse_arg_ro_fds env arg =
     try_r (try_map (\<lambda>x. ok_or ParseIntError (parse_int 32 x)) (split_on CHR '':'' arg)) (\<lambda>fds.
     if length fds > 3 then Err (TooManyOptions arg)
     else
       try_r (fd_to_file env (fds ! 0)) (\<lambda>file.
       try_r (fd_to_file_opt env fds 1) (\<lambda>tree.
       try_r (fd_to_file_opt env fds 2) (\<lambda>sig.
       Ok (fds ! 0, Readonly file tree sig)))))"

definition parse_arg_rw_fds ::
  "'f file_api \<Rightarrow> 'f fd_env \<Rightarrow> string \<Rightarrow> (fd_server_error, int \<times> 'f fd_config) res" where
  "parse_arg_rw_fds api env arg =
     try_r (ok_or ParseIntError (parse_int 32 arg)) (\<lambda>fd.
     try_r (fd_to_file env fd) (\<lambda>file.
     try_r (map_err FdServerIo (metadata_len api file)) (\<lambda>len.
     if len > 0 then Err FileNotEmpty else Ok (fd, ReadWrite file))))"

text \<open>\<open>fd_pool.insert(fd, config)\<close> for each argument in turn: a later one replaces an earlier one.\<close>

definition insert_parsed ::
  "(string \<Rightarrow> (fd_server_error, int \<times> 'f fd_config) res) \<Rightarrow> (int \<rightharpoonup> 'f fd_config) \<Rightarrow> string \<Rightarrow>
   (fd_server_error, int \<rightharpoonup> 'f fd_config) res" where
  "insert_parsed parse pool arg = try_r (parse arg) (\<lambda>(fd, config). Ok (pool(fd \<mapsto> config)))"

definition parse_args ::
  "'f file_api \<Rightarrow> 'f fd_env \<Rightarrow> string list \<Rightarrow> string list \<Rightarrow>
   (fd_server_error, int \<rightharpoonup> 'f fd_config) res" where
  "parse_args api env ro_fds rw_fds =
     try_r (try_fold (insert_parsed (parse_arg_ro_fds env)) Map.empty ro_fds) (\<lambda>pool.
     try_fold (insert_parsed (parse_arg_rw_fds api env)) pool rw_fds)"

section \<open>What the service serves\<close>

definition config_file :: "'f fd_config \<Rightarrow> 'f" where
  "config_file config = (case config of Readonly f _ _ \<Rightarrow> f | ReadWrite f \<Rightarrow> f)"

lemma read_into_buf_eq:
  assumes "regular_file api content"
  shows "read_into_buf api f n off = Ok (take n (drop off (content f)))"
proof -
  let ?k = "min (length (content f) - off) n"
  have "off + ?k \<le> length (content f) \<or> ?k = 0" by auto
  from regular_file_read[OF assms this]
  have "read_exact_at api f ?k off = Ok (take ?k (drop off (content f)))" .
  moreover have "take ?k (drop off (content f)) = take n (drop off (content f))"
    by (simp add: min_def)
  ultimately show ?thesis
    by (simp add: read_into_buf_def regular_file_len[OF assms] Let_def)
qed

lemma readFile_eq:
  assumes "regular_file api content" "n \<le> 16384"
  shows "readFile api s fd (int off) (int n) =
    (case fd_pool s fd of
       None \<Rightarrow> Err (FromStatusT ERROR_UNKNOWN_FD)
     | Some config \<Rightarrow> Ok (take n (drop off (content (config_file config)))))"
  using assms(2)
  by (simp add: readFile_def validate_and_cast_size_def validate_and_cast_offset_def
      get_file_config_def MAX_REQUESTING_DATA_def read_into_buf_eq[OF assms(1)] config_file_def
      split: option.split fd_config.split)

lemma readFile_serves:
  assumes "regular_file api content" "fd_pool s fd = Some config"
  shows "serves (readFile api s fd) (content (config_file config))"
  unfolding serves_def
  using readFile_eq[OF assms(1), of _ s fd] assms(2) by (simp add: CHUNK_SIZE_def)

lemma readFsverityMerkleTree_serves:
  assumes "regular_file api content" "fd_pool s fd = Some (Readonly f (Some tree) sig)"
  shows "serves (readFsverityMerkleTree p api s fd) (content tree)"
  unfolding serves_def
  using assms(2)
  by (simp add: readFsverityMerkleTree_def validate_and_cast_size_def validate_and_cast_offset_def
      get_file_config_def MAX_REQUESTING_DATA_def read_into_buf_eq[OF assms(1)] CHUNK_SIZE_def)

lemma usize_as_i32_small: "n < 2 ^ 31 \<Longrightarrow> usize_as_i32 n = int n"
  by (simp add: usize_as_i32_def Let_def)

lemma writeFile_eq:
  assumes "fd_pool s fd = Some (ReadWrite f)" "length buf < 2 ^ 31"
    "file_write_at api f buf off = (Ok n, f')" "n \<le> length buf"
  shows "writeFile api s fd buf (int off) = (Ok (int n), put_file s fd f')"
  using assms
  by (simp add: writeFile_def get_file_config_def validate_and_cast_offset_def usize_as_i32_small)

lemma resize_eq:
  assumes "fd_pool s fd = Some (ReadWrite f)" "set_len api f n = (Ok (), f')"
  shows "resize api s fd (int n) = (Ok (), put_file s fd f')"
  using assms by (simp add: resize_def get_file_config_def)

text \<open>The content of a writable file of the pool, and the states in which it is one.\<close>

definition rw_content :: "('f \<Rightarrow> bytes) \<Rightarrow> int \<Rightarrow> 'f fd_service \<Rightarrow> bytes" where
  "rw_content content fd s =
     (case fd_pool s fd of Some (ReadWrite f) \<Rightarrow> content f | _ \<Rightarrow> [])"

definition rw_wf :: "('f \<Rightarrow> bytes) \<Rightarrow> int \<Rightarrow> 'f fd_service \<Rightarrow> bool" where
  "rw_wf content fd s \<longleftrightarrow>
     (case fd_pool s fd of Some (ReadWrite f) \<Rightarrow> length (content f) < 2 ^ 63 | _ \<Rightarrow> False)"

lemma rw_wfE:
  assumes "rw_wf content fd s"
  obtains f where "fd_pool s fd = Some (ReadWrite f)" "length (content f) < 2 ^ 63"
    "rw_content content fd s = content f"
  using assms by (auto simp: rw_wf_def rw_content_def split: option.splits fd_config.splits)

lemma rw_put_file [simp]:
  "rw_content content fd (put_file s fd f) = content f"
  "rw_wf content fd (put_file s fd f) \<longleftrightarrow> length (content f) < 2 ^ 63"
  by (simp_all add: rw_content_def rw_wf_def put_file_def)

lemma fd_server_meets_contract:
  assumes reg: "regular_file api content"
  shows "virt_fd_file (fd_server p api) fd (rw_content content fd) (rw_wf content fd)"
proof
  fix s assume "rw_wf content fd s"
  then obtain f where f: "fd_pool s fd = Some (ReadWrite f)" "length (content f) < 2 ^ 63"
    "rw_content content fd s = content f" by (rule rw_wfE)
  from readFile_serves[OF reg f(1)] f(3)
  show "serves (svc_readFile (fd_server p api) s fd) (rw_content content fd s)"
    by (simp add: fd_server_def config_file_def)
  from f show "length (rw_content content fd s) < 2 ^ 63" by simp
  show "\<exists>s'. svc_resize (fd_server p api) s fd (int n) = (Ok (), s') \<and> rw_wf content fd s' \<and>
      rw_content content fd s' = resize_bytes (rw_content content fd s) n" if "n < 2 ^ 63" for n
  proof -
    obtain f' where f': "set_len api f n = (Ok (), f')" "content f' = resize_bytes (content f) n"
      by (rule regular_file_set_lenE[OF reg])
    have "length (content f') < 2 ^ 63" using f'(2) that by simp
    with resize_eq[OF f(1) f'(1)] f' f(3) show ?thesis by (auto simp: fd_server_def)
  qed
  fix buf :: bytes and off :: nat
  assume buf: "buf \<noteq> []" "off + length buf < 2 ^ 63" "length buf < 2 ^ 31"
  obtain n f' where w: "file_write_at api f buf off = (Ok n, f')" and n: "n \<le> length buf" "0 < n"
    and f': "content f' = write_bytes (content f) off (take n buf)"
    using regular_file_writeE[OF reg, of f buf off] buf(1) by auto
  have "length (content f') < 2 ^ 63"
    using f' f(2) n buf(2) by (simp add: length_write_bytes)
  with writeFile_eq[OF f(1) buf(3) w n(1)] n f' f(3)
  show "\<exists>n s'. svc_writeFile (fd_server p api) s fd buf (int off) = (Ok n, s') \<and> 0 < n \<and>
      n \<le> int (length buf) \<and> rw_wf content fd s' \<and>
      rw_content content fd s' = write_bytes (rw_content content fd s) off (take (nat n) buf)"
    by (auto simp: fd_server_def)
qed

interpretation served: virt_fd_file
  "fd_server p mem_file" fd "rw_content (\<lambda>f. f) fd" "rw_wf (\<lambda>f. f) fd"
  for p fd
  by (rule fd_server_meets_contract[OF regular_mem_file])

section \<open>Properties\<close>

text \<open>C12: \<open>readFile\<close> on every branch: a negative or too large size and a negative offset are refused, an
  unknown id is reported as such, and otherwise the result is the requested range of the file,
  cut at its end, for every kind of file in the pool.\<close>

theorem readFile_all_branches:
  assumes "regular_file api content"
  shows "readFile api s fd off n =
    (if n < 0 \<or> 16384 < n \<or> off < 0 then Err (NewException ILLEGAL_ARGUMENT)
     else case fd_pool s fd of
       None \<Rightarrow> Err (FromStatusT ERROR_UNKNOWN_FD)
     | Some config \<Rightarrow> Ok (take (nat n) (drop (nat off) (content (config_file config)))))"
proof (cases "n < 0 \<or> 16384 < n \<or> off < 0")
  case True
  then show ?thesis
    by (auto simp: readFile_def validate_and_cast_size_def validate_and_cast_offset_def MAX_REQUESTING_DATA_def)
next
  case False
  then show ?thesis
    using readFile_eq[OF assms, of "nat n" s fd "nat off"] by auto
qed

theorem readFile_all_branches_witness:
  "readFile mem_file \<lparr>fd_pool = [3 \<mapsto> ReadWrite [1, 2, 3]]\<rparr> 3 1 16384 = Ok [2, 3] \<and>
   readFile mem_file \<lparr>fd_pool = [3 \<mapsto> ReadWrite [1, 2, 3]]\<rparr> 4 1 16384 = Err (FromStatusT ERROR_UNKNOWN_FD)"
  using readFile_all_branches[OF regular_mem_file, of "\<lparr>fd_pool = [3 \<mapsto> ReadWrite [1, 2, 3]]\<rparr>" 3 1 16384]
    readFile_all_branches[OF regular_mem_file, of "\<lparr>fd_pool = [3 \<mapsto> ReadWrite [1, 2, 3]]\<rparr>" 4 1 16384]
  by (simp add: config_file_def)

lemma writeFile_state:
  "snd (writeFile api s fd buf off) = s \<or>
   (\<exists>f f'. fd_pool s fd = Some (ReadWrite f) \<and> snd (writeFile api s fd buf off) = put_file s fd f')"
proof (cases "fd_pool s fd")
  case (Some config)
  then show ?thesis
    by (cases config)
      (simp_all add: writeFile_def get_file_config_def validate_and_cast_offset_def prod.case_eq_if, blast?)
qed (simp add: writeFile_def get_file_config_def)

lemma resize_state:
  "snd (resize api s fd n) = s \<or>
   (\<exists>f f'. fd_pool s fd = Some (ReadWrite f) \<and> snd (resize api s fd n) = put_file s fd f')"
proof (cases "fd_pool s fd")
  case (Some config)
  then show ?thesis
    by (cases config) (simp_all add: resize_def get_file_config_def prod.case_eq_if, blast?)
qed (simp add: resize_def get_file_config_def)

text \<open>C13: The service is confined to the writable files of the pool: \<open>writeFile\<close> and \<open>resize\<close> leave
  every other entry as it was, whatever the arguments and the operating system's answers, and
  change nothing when the id is unknown or a read-only file.\<close>

theorem fd_server_confined:
  assumes "writeFile api s fd buf off = (r, s') \<or> resize api s fd n = (r', s')"
  shows "(\<forall>j. j \<noteq> fd \<longrightarrow> fd_pool s' j = fd_pool s j) \<and>
    (\<forall>f. fd_pool s fd \<noteq> Some (ReadWrite f)) = (\<forall>f. fd_pool s' fd \<noteq> Some (ReadWrite f)) \<and>
    ((\<forall>f. fd_pool s fd \<noteq> Some (ReadWrite f)) \<longrightarrow> s' = s)"
proof -
  have "s' = s \<or> (\<exists>f f'. fd_pool s fd = Some (ReadWrite f) \<and> s' = put_file s fd f')"
    using assms writeFile_state[of api s fd buf off] resize_state[of api s fd n] by auto
  then show ?thesis by (auto simp: put_file_def)
qed

theorem fd_server_confined_witness:
  "\<exists>r s'. writeFile mem_file \<lparr>fd_pool = [3 \<mapsto> Readonly [1] None None]\<rparr> 3 [7] 0 = (r, s') \<and>
    s' = \<lparr>fd_pool = [3 \<mapsto> Readonly [1] None None]\<rparr>"
proof -
  obtain r s' where run: "writeFile mem_file \<lparr>fd_pool = [3 \<mapsto> Readonly [1] None None]\<rparr> 3 [7] 0 = (r, s')"
    by fastforce
  with fd_server_confined[OF disjI1[OF run]] show ?thesis by auto
qed

end
