(* ===== verification/Editor_Correct.thy ===== *)
theory Editor_Correct
  imports Editor Fd_Server
begin

text \<open>
  The properties of \<open>VerifiedFileEditor\<close> (theory \<open>Editor\<close>). An \<open>edit\<close> is a call of \<open>write_at\<close> or
  \<open>resize\<close>; \<open>apply_edit\<close> is its meaning on a byte string and \<open>run_edits\<close> the sequence of calls. On
  storage that meets its contract the editor simulates the byte string and its digest is the
  fs-verity digest of it; the storage that \<open>fd_server\<close> provides is an instance. On arbitrary
  storage a write still cannot be tricked, but \<open>resize\<close> can.
\<close>

datatype edit = Write bytes nat | Resize nat

primrec apply_edit :: "bytes \<Rightarrow> edit \<Rightarrow> bytes" where
  "apply_edit c (Write buf off) = write_bytes c off buf"
| "apply_edit c (Resize n) = resize_bytes c n"

primrec edit_fits :: "edit \<Rightarrow> bool" where
  "edit_fits (Write buf off) \<longleftrightarrow> off + length buf < 2 ^ 63"
| "edit_fits (Resize n) \<longleftrightarrow> n < 2 ^ 63"

primrec run_edit ::
  "profile \<Rightarrow> 'c sha256_ffi \<Rightarrow> 'f backing_file \<Rightarrow> 'f verified_file_editor \<Rightarrow> edit \<Rightarrow>
   (io_error, unit) res \<times> 'f verified_file_editor" where
  "run_edit p ffi ops s (Write buf off) =
     and_then (VerifiedFileEditor_write_at p ffi ops s buf off) (\<lambda>_ s. (Ok (), s))"
| "run_edit p ffi ops s (Resize n) = VerifiedFileEditor_resize p ffi ops s n"

primrec run_edits ::
  "profile \<Rightarrow> 'c sha256_ffi \<Rightarrow> 'f backing_file \<Rightarrow> 'f verified_file_editor \<Rightarrow> edit list \<Rightarrow>
   (io_error, unit) res \<times> 'f verified_file_editor" where
  "run_edits p ffi ops s [] = (Ok (), s)"
| "run_edits p ffi ops s (e # es) = and_then (run_edit p ffi ops s e) (\<lambda>_ s. run_edits p ffi ops s es)"

context random_access_file
begin

lemma run_edit_ok:
  assumes "sha256_spec ffi sha" "editor_inv sha content wf s" "edit_fits e"
  shows "\<exists>s'. run_edit p ffi ops s e = (Ok (), s') \<and> editor_inv sha content wf s' \<and>
    content (ed_file s') = apply_edit (content (ed_file s)) e"
  using editor_write_at_ok[OF assms(1,2), of _ _ p] editor_resize_ok[OF assms(1,2), of _ p] assms(3)
  by (cases e) fastforce+

lemma run_edits_ok:
  "sha256_spec ffi sha \<Longrightarrow> editor_inv sha content wf s \<Longrightarrow> list_all edit_fits es \<Longrightarrow>
   \<exists>s'. run_edits p ffi ops s es = (Ok (), s') \<and> editor_inv sha content wf s' \<and>
     content (ed_file s') = foldl apply_edit (content (ed_file s)) es"
proof (induction es arbitrary: s)
  case (Cons e es)
  from run_edit_ok[OF Cons.prems(1,2), of e p] Cons.prems(3) obtain s1 where
    "run_edit p ffi ops s e = (Ok (), s1)" "editor_inv sha content wf s1"
    "content (ed_file s1) = apply_edit (content (ed_file s)) e" by auto
  with Cons.IH[of s1] Cons.prems(1,3) show ?case by simp
qed simp

lemma new_editor_inv: "wf f \<Longrightarrow> content f = [] \<Longrightarrow> editor_inv sha content wf (VerifiedFileEditor_new f)"
  by (simp add: editor_inv_def VerifiedFileEditor_new_def MerkleLeaves_new_def merkle_of_def leaves_of_def
      num_blocks_def)

end

text \<open>C4: In a release build, on storage that meets its contract, any sequence of writes and resizes of a new file below
  8 EiB succeeds, leaves the storage with exactly the edited content, and the digest of the editor
  is the fs-verity digest of that content.\<close>

theorem editor_simulates_file:
  assumes "random_access_file ops content valid" "sha256_spec ffi sha" "\<not> debug_assertions p"
    and "valid f" "content f = []" "list_all edit_fits es"
  shows "\<exists>s. run_edits p ffi ops (VerifiedFileEditor_new f) es = (Ok (), s) \<and>
    content (ed_file s) = foldl apply_edit [] es \<and>
    VerifiedFileEditor_size s = length (foldl apply_edit [] es) \<and>
    VerifiedFileEditor_calculate_fsverity_digest p ffi s = Ok (fsverity_digest sha (foldl apply_edit [] es))"
proof -
  from random_access_file.run_edits_ok[OF assms(1,2)
      random_access_file.new_editor_inv[OF assms(1,4,5)] assms(6), of p]
  obtain s where s: "run_edits p ffi ops (VerifiedFileEditor_new f) es = (Ok (), s)"
    "editor_inv sha content valid s" "content (ed_file s) = foldl apply_edit [] es"
    using assms(5) by (auto simp: VerifiedFileEditor_new_def)
  have "length (content (ed_file s)) < 2 ^ 63"
    using random_access_file.size_bound[OF assms(1)] s(2) by (simp add: editor_inv_def)
  with s builder_digest_eq[OF assms(2,3)] show ?thesis
    by (auto simp: editor_inv_def VerifiedFileEditor_calculate_fsverity_digest_def
        VerifiedFileEditor_size_def MerkleLeaves_file_size_def merkle_of_def)
qed

theorem editor_simulates_file_witness:
  "\<exists>s. run_edits release_profile sample_ffi
      (RemoteFileEditor release_profile
        (fd_server release_profile mem_file) 3)
      (VerifiedFileEditor_new \<lparr>fd_pool = [3 \<mapsto> ReadWrite []]\<rparr>) [Write [1, 2, 3] 5000, Resize 5001] =
      (Ok (), s) \<and>
    rw_content (\<lambda>f. f) 3 (ed_file s) = foldl apply_edit [] [Write [1, 2, 3] 5000, Resize 5001] \<and>
    VerifiedFileEditor_size s = length (foldl apply_edit [] [Write [1, 2, 3] 5000, Resize 5001]) \<and>
    VerifiedFileEditor_calculate_fsverity_digest release_profile
      sample_ffi s = Ok (fsverity_digest sample_sha (foldl apply_edit [] [Write [1, 2, 3] 5000, Resize 5001]))"
  by (rule editor_simulates_file[OF served.editor.random_access_file_axioms sample_sha256_spec])
    (simp_all add: rw_wf_def rw_content_def)

text \<open>C5: Whatever the storage does, a write that returns \<open>n\<close> has moved the leaves from the hashes of
  the blocks of \<open>g\<close> to those of \<open>g\<close> with the first \<open>n\<close> bytes of the buffer written, provided the data
  the storage serves is no second preimage of a block of \<open>g\<close>. After a complete write the digest is
  that of the intended content.\<close>

theorem editor_write_secure:
  assumes "sha256_spec ffi sha" "storage_no_collision sha ops g" "\<not> debug_assertions p"
    and "ed_merkle_tree s = merkle_of sha g" "length g < 2 ^ 63" "off + length buf < 2 ^ 63"
    and "VerifiedFileEditor_write_at p ffi ops s buf off = (Ok n, s')"
  shows "n \<le> length buf \<and> leaves (ed_merkle_tree s') = leaves_of sha (write_bytes g off (take n buf)) \<and>
    (n = length buf \<longrightarrow>
      VerifiedFileEditor_calculate_fsverity_digest p ffi s' = Ok (fsverity_digest sha (write_bytes g off buf)))"
proof -
  have fits: "off + length buf < 2 ^ 64" using assms(6) by simp
  have "write_items p ffi ops buf off (chunk_items CHUNK_SIZE off (length buf)) s = (Ok n, s')"
    using assms(7) fits by (simp add: VerifiedFileEditor_write_at_def write_at_loop_eq)
  from write_items_secure[OF assms(1,2) fits _ _ _ _ _ this, of "length g"] assms(4)
  have n: "n \<le> length buf" "leaves (ed_merkle_tree s') = leaves_of sha (write_bytes g off (take n buf))"
    "file_size (ed_merkle_tree s') = (if n = 0 then length g else max (length g) (off + length buf))"
    by (simp_all add: merkle_of_def write_bytes_def)
  have "ed_merkle_tree s' = merkle_of sha (write_bytes g off buf)" if "n = length buf"
    using that n(2,3) by (cases "ed_merkle_tree s'") (simp add: merkle_of_def length_write_bytes)
  moreover have "length (write_bytes g off buf) < 2 ^ 63"
    using assms(5,6) by (simp add: length_write_bytes)
  ultimately show ?thesis
    using n(1,2) builder_digest_eq[OF assms(1,3)]
    by (simp add: VerifiedFileEditor_calculate_fsverity_digest_def)
qed

text \<open>Storage that accepts every write and forgets it.\<close>

definition forgetful :: "unit backing_file" where
  "forgetful = \<lparr>bf_read_chunk = (\<lambda>_ i buf. Ok (0, buf)),
     bf_write_at = (\<lambda>_ buf off. (Ok (length buf), ())), bf_resize = (\<lambda>_ n. (Ok (), ()))\<rparr>"

lemma forgetful_simps:
  "bf_read_chunk forgetful f i b = Ok (0, b)" "bf_write_at forgetful f b off = (Ok (length b), ())"
  by (simp_all add: forgetful_def)

lemma forgetful_no_collision: "storage_no_collision sha forgetful []"
  by (simp add: storage_no_collision_def no_collision_def forgetful_simps pad_block_def)

lemma write_all_at_forgetful:
  assumes "off + length buf < 2 ^ 64"
  shows "write_all_at p forgetful () buf off = (Ok (), ())"
proof -
  have "write_all_at_loop p forgetful buf () (length buf) j = Some (Ok (), ())" for j
    by (subst write_all_at_loop.simps) simp
  with assms have "write_all_at_loop p forgetful buf () 0 off = Some (Ok (), ())"
    by (subst write_all_at_loop.simps) (simp add: forgetful_simps uadd_ok)
  then show ?thesis by (simp add: write_all_at_def)
qed

lemma forgetful_write:
  "\<exists>s. VerifiedFileEditor_write_at p sample_ffi forgetful (VerifiedFileEditor_new ()) [1, 2, 3] 0 = (Ok 3, s)"
proof -
  have items: "chunk_items CHUNK_SIZE 0 (Suc (Suc (Suc 0))) = [(0, Suc (Suc (Suc 0)))]"
    by (simp add: chunk_items_step CHUNK_SIZE_def)
  have "new_chunk_hash p sample_ffi forgetful (VerifiedFileEditor_new ()) [1, 2, 3] (0 mod CHUNK_SIZE)
      (length [1, 2, 3 :: u8]) (0 div CHUNK_SIZE) =
      Ok (sample_sha (pad_block (block (write_bytes [] 0 [1, 2, 3]) (0 div CHUNK_SIZE))))"
    by (rule new_chunk_hash_complete[OF sample_sha256_spec])
      (simp_all add: VerifiedFileEditor_new_def MerkleLeaves_new_def leaves_of_def num_blocks_def
        forgetful_simps CHUNK_SIZE_def pad_block_def)
  then show ?thesis
    by (simp add: VerifiedFileEditor_write_at_def write_at_loop_eq items write_at_chunk_eq
        VerifiedFileEditor_new_def MerkleLeaves_new_def write_all_at_forgetful
        MerkleLeaves_update_hash_def vec_resize_def uadd_ok Let_def)
qed

theorem editor_write_secure_witness:
  "\<exists>s. VerifiedFileEditor_write_at release_profile sample_ffi forgetful
      (VerifiedFileEditor_new ()) [1, 2, 3] 0 = (Ok 3, s) \<and>
    VerifiedFileEditor_calculate_fsverity_digest release_profile
      sample_ffi s = Ok (fsverity_digest sample_sha (write_bytes [] 0 [1, 2, 3]))"
proof -
  obtain s where s: "VerifiedFileEditor_write_at release_profile
      sample_ffi forgetful (VerifiedFileEditor_new ()) [1, 2, 3] 0 = (Ok 3, s)"
    using forgetful_write by blast
  from editor_write_secure[OF sample_sha256_spec forgetful_no_collision _ _ _ _ s] s show ?thesis
    by (simp add: VerifiedFileEditor_new_def MerkleLeaves_new_def merkle_of_def leaves_of_def num_blocks_def)
qed

text \<open>C38: \<open>resize\<close> to a size inside a block hashes whatever the storage returns for that block: the
  comment in the source says the data is verified first, the code does not, so the last leaf is
  the hash of bytes chosen by the storage.\<close>

theorem resize_trusts_storage:
  assumes "sha256_spec ffi sha" "n < file_size (ed_merkle_tree s)" "0 < n mod CHUNK_SIZE" "n < 2 ^ 63"
    and "n div CHUNK_SIZE < length (leaves (ed_merkle_tree s))"
    and "bf_read_chunk ops (ed_file s) (n div CHUNK_SIZE) (zeros CHUNK_SIZE) = Ok (CHUNK_SIZE, b)"
    and "length b = CHUNK_SIZE" "bf_resize ops (ed_file s) n = (Ok (), f')"
  shows "\<exists>s'. VerifiedFileEditor_resize p ffi ops s n = (Ok (), s') \<and>
    last (leaves (ed_merkle_tree s')) = sha (take (n mod CHUNK_SIZE) b @ zeros (CHUNK_SIZE - n mod CHUNK_SIZE))"
proof -
  let ?i = "n div CHUNK_SIZE" and ?m = "n mod CHUNK_SIZE"
  let ?h = "sha (take ?m b @ zeros (CHUNK_SIZE - ?m))" and ?t = "ed_merkle_tree s"
  have h: "resize_tail_hash p ffi ops s ?i ?m = Ok ?h"
    using assms(6,7) by (intro resize_tail_hash_eq[OF assms(1)]) (simp_all add: less_imp_le)
  have i: "?i + 1 < 2 ^ 64" using le_less_trans[OF div_le_dividend assms(4), of CHUNK_SIZE] by simp
  have n64: "n + CHUNK_SIZE < 2 ^ 64" using assms(4) by (simp add: CHUNK_SIZE_def)
  have u: "(MerkleLeaves_update_hash p ?t ?i ?h n :: (io_error, merkle_leaves) res) =
      Ok (?t\<lparr>leaves := (leaves ?t)[?i := ?h]\<rparr>)"
    using assms(2,5) i by (simp add: MerkleLeaves_update_hash_def uadd_ok Let_def)
  have cd: "ceil_div n CHUNK_SIZE = Suc ?i" by (rule ceil_div_partial[OF assms(3)])
  have "vec_resize ((leaves ?t)[?i := ?h]) (Suc ?i) HASH_OF_4096_ZEROS ! ?i = ?h"
    using assms(5) by (simp add: nth_vec_resize)
  then have "last (vec_resize ((leaves ?t)[?i := ?h]) (Suc ?i) HASH_OF_4096_ZEROS) = ?h"
    by (metis Suc_neq_Zero diff_Suc_1 last_conv_nth length_0_conv length_vec_resize)
  with assms(2,3,8) h u show ?thesis
    by (simp add: VerifiedFileEditor_resize_def MerkleLeaves_file_size_def Let_def MerkleLeaves_resize_def
        divide_roundup_ok[OF _ n64] cd)
qed

text \<open>Storage that serves bytes of its own choice.\<close>

definition forging :: "unit backing_file" where
  "forging = \<lparr>bf_read_chunk = (\<lambda>_ i buf. Ok (CHUNK_SIZE, replicate CHUNK_SIZE 7)),
     bf_write_at = (\<lambda>_ buf off. (Ok (length buf), ())), bf_resize = (\<lambda>_ n. (Ok (), ()))\<rparr>"

theorem resize_trusts_storage_witness:
  "\<exists>s'. VerifiedFileEditor_resize debug_profile sample_ffi forging
      \<lparr>ed_file = (), ed_merkle_tree = merkle_of sample_sha (zeros 5000)\<rparr> 4500 = (Ok (), s') \<and>
    last (leaves (ed_merkle_tree s')) =
      sample_sha (take (4500 mod CHUNK_SIZE) (replicate CHUNK_SIZE 7) @ zeros (CHUNK_SIZE - 4500 mod CHUNK_SIZE))"
  by (rule resize_trusts_storage[OF sample_sha256_spec])
    (simp_all add: forging_def merkle_of_def CHUNK_SIZE_def num_blocks_def ceil_div_def)

text \<open>A write that is cut short after its first chunks returns the number of bytes written, but
  the size recorded in the tree is the end of the whole write: the editor then describes a file
  that is longer than what was written.\<close>

theorem short_write_overstates_size:
  assumes "sha256_spec ffi sha" "storage_no_collision sha ops g"
    and "ed_merkle_tree s = merkle_of sha g" "length g < off + length buf" "off + length buf < 2 ^ 63"
    and "VerifiedFileEditor_write_at p ffi ops s buf off = (Ok n, s')" "0 < n" "n < length buf"
  shows "length (write_bytes g off (take n buf)) < VerifiedFileEditor_size s'"
proof -
  have fits: "off + length buf < 2 ^ 64" using assms(5) by simp
  have "write_items p ffi ops buf off (chunk_items CHUNK_SIZE off (length buf)) s = (Ok n, s')"
    using assms(6) fits by (simp add: VerifiedFileEditor_write_at_def write_at_loop_eq)
  from write_items_secure[OF assms(1,2) fits _ _ _ _ _ this, of "length g"] assms(3,7)
  have "file_size (ed_merkle_tree s') = max (length g) (off + length buf)"
    by (simp add: merkle_of_def write_bytes_def)
  with assms(4,7,8) show ?thesis
    by (auto simp: VerifiedFileEditor_size_def MerkleLeaves_file_size_def length_write_bytes)
qed

text \<open>Storage that accepts writes but cannot be read.\<close>

definition unreadable :: "unit backing_file" where
  "unreadable = \<lparr>bf_read_chunk = (\<lambda>_ i buf. Err (Os EIO)),
     bf_write_at = (\<lambda>_ buf off. (Ok (length buf), ())), bf_resize = (\<lambda>_ n. (Ok (), ()))\<rparr>"

lemma unreadable_simps:
  "bf_read_chunk unreadable f i b = Err (Os EIO)" "bf_write_at unreadable f b off = (Ok (length b), ())"
  by (simp_all add: unreadable_def)

lemma write_all_at_unreadable:
  assumes "off + length buf < 2 ^ 64"
  shows "write_all_at p unreadable () buf off = (Ok (), ())"
proof -
  have "write_all_at_loop p unreadable buf () (length buf) j = Some (Ok (), ())" for j
    by (subst write_all_at_loop.simps) simp
  with assms have "write_all_at_loop p unreadable buf () 0 off = Some (Ok (), ())"
    by (subst write_all_at_loop.simps) (simp add: unreadable_simps uadd_ok)
  then show ?thesis by (simp add: write_all_at_def)
qed

lemma unreadable_write:
  "\<exists>s. VerifiedFileEditor_write_at p sample_ffi unreadable
      \<lparr>ed_file = (), ed_merkle_tree = merkle_of sample_sha (zeros 4097)\<rparr> (zeros 4196) 0 = (Ok 4096, s)"
proof -
  have items: "chunk_items CHUNK_SIZE 0 4196 = [(0, 4096), (4096, 100)]"
    by (simp add: chunk_items_step CHUNK_SIZE_def)
  have nb: "num_blocks (zeros 4097) = 2" by (simp add: num_blocks_def ceil_div_def CHUNK_SIZE_def)
  then have ne: "leaves_of sample_sha (zeros 4097) \<noteq> []"
    by (metis length_leaves_of length_0_conv zero_neq_numeral)
  obtain h where first: "new_chunk_hash p sample_ffi unreadable s (zeros 4096) 0 4096 0 = Ok h" for s :: "unit verified_file_editor"
    by (simp add: new_chunk_hash_def CHUNK_SIZE_def sha256_chain_eq[OF sample_sha256_spec])
  have second: "new_chunk_hash p sample_ffi unreadable
      \<lparr>ed_file = (), ed_merkle_tree = \<lparr>leaves = (leaves_of sample_sha (zeros 4097))[0 := h], file_size = k\<rparr>\<rparr>
      (zeros 100) 0 100 1 = Err (Os EIO)" for k
    by (simp add: new_chunk_hash_def new_hash_for_incomplete_write_def original_chunk_def
        MerkleLeaves_is_index_valid_def nb VerifiedFileEditor_read_chunk_def unreadable_simps CHUNK_SIZE_def)
  show ?thesis
    using first second ne
    by (simp add: VerifiedFileEditor_write_at_def write_at_loop_eq items write_at_chunk_eq
        write_all_at_unreadable MerkleLeaves_update_hash_def uadd_ok Let_def merkle_of_def nb)
      (simp add: CHUNK_SIZE_def)
qed

theorem short_write_overstates_size_witness:
  "\<exists>s. VerifiedFileEditor_write_at debug_profile sample_ffi unreadable
      \<lparr>ed_file = (), ed_merkle_tree = merkle_of sample_sha (zeros 4097)\<rparr> (zeros 4196) 0 = (Ok 4096, s) \<and>
    length (write_bytes (zeros 4097) 0 (take 4096 (zeros 4196))) < VerifiedFileEditor_size s"
proof -
  have sec: "storage_no_collision sample_sha unreadable (zeros 4097)"
    by (simp add: storage_no_collision_def no_collision_def unreadable_simps)
  obtain s where s: "VerifiedFileEditor_write_at debug_profile sample_ffi
      unreadable \<lparr>ed_file = (), ed_merkle_tree = merkle_of sample_sha (zeros 4097)\<rparr> (zeros 4196) 0 = (Ok 4096, s)"
    using unreadable_write by blast
  have "length (write_bytes (zeros 4097) 0 (take 4096 (zeros 4196))) < VerifiedFileEditor_size s"
    by (rule short_write_overstates_size[OF sample_sha256_spec sec _ _ _ s]) simp_all
  with s show ?thesis by blast
qed

end
