(* ===== verification/Verifier.thy ===== *)
theory Verifier
  imports Merkle_Builder File_Traits
begin

text \<open>
  \<open>authfs/src/fsverity/verifier.rs\<close>: the reader that verifies every chunk of a file against a
  Merkle tree. The tree and the file are read through \<open>ReadByChunk\<close> values that are not trusted.
  \<open>fsverity_walk\<close> is split as in the source: \<open>fsverity_walk_steps\<close> is the eager computation of the
  positions, leaf to root, and \<open>fsverity_walk_item\<close> the lazy read of one node.

  Reference definitions: \<open>tree_level\<close> (the hashes of one level), \<open>tree_file\<close> (the tree as fs-verity
  stores it, levels from the root down, pages of 128 hashes padded with zeros) and \<open>path_msg\<close>, the
  messages hashed on the way from a block to the root.
\<close>

definition SIZE_OF_FSVERITY_FORMATTED_DIGEST_SHA256 :: nat where
  "SIZE_OF_FSVERITY_FORMATTED_DIGEST_SHA256 = 12 + HASH_SIZE"

definition hash_with_padding ::
  "profile \<Rightarrow> 'c sha256_ffi \<Rightarrow> bytes \<Rightarrow> nat \<Rightarrow> (crypto_error, hash) res" where
  "hash_with_padding p ffi chunk pad_to =
     try_r (usub p 64 pad_to (length chunk)) (\<lambda>padding_size.
     try_r (Sha256Hasher_new ffi) (\<lambda>h.
     try_r (Sha256Hasher_update ffi h chunk) (\<lambda>h.
     assert_r (padding_size \<le> CHUNK_SIZE)
       (try_r (Sha256Hasher_update ffi h (zeros padding_size)) (\<lambda>h.
        Sha256Hasher_finalize ffi h)))))"

text \<open>The closure of the first \<open>map\<close> of \<open>fsverity_walk\<close>, for level \<open>x\<close>, and the \<open>scan\<close>.\<close>

definition walk_level :: "profile \<Rightarrow> nat \<Rightarrow> nat \<Rightarrow> nat \<Rightarrow> ('e, nat \<times> nat) res" where
  "walk_level p chunk_index file_sz x =
     (let hashes_per_node = CHUNK_SIZE div HASH_SIZE in
      try_r (upow p 64 hashes_per_node x) (\<lambda>leaves_per_hash.
      try_r (umul p 64 CHUNK_SIZE leaves_per_hash) (\<lambda>leaves_size_per_hash.
      try_r (umul p 64 leaves_size_per_hash hashes_per_node) (\<lambda>leaves_size_per_node.
      try_r (divide_roundup p file_sz leaves_size_per_node) (\<lambda>nodes_at_level.
      try_r (umul p 64 nodes_at_level CHUNK_SIZE) (\<lambda>level_size.
      try_r (udiv chunk_index leaves_per_hash) (\<lambda>index_in_level.
      try_r (umul p 64 index_in_level HASH_SIZE) (\<lambda>offset_in_level.
      Ok (level_size, offset_in_level)))))))))"

primrec walk_scan :: "profile \<Rightarrow> nat \<Rightarrow> (nat \<times> nat) list \<Rightarrow> ('e, nat list) res" where
  "walk_scan p level_offset [] = Ok []"
| "walk_scan p level_offset (x # xs) =
     (case x of (level_size, offset_in_level) \<Rightarrow>
      try_r (uadd p 64 level_offset level_size) (\<lambda>level_offset'.
      try_r (uadd p 64 level_offset offset_in_level) (\<lambda>global_hash_offset.
      try_r (walk_scan p level_offset' xs) (\<lambda>rest.
      Ok (global_hash_offset # rest)))))"

definition fsverity_walk_steps :: "profile \<Rightarrow> nat \<Rightarrow> nat \<Rightarrow> ('e, (nat \<times> nat) list) res" where
  "fsverity_walk_steps p chunk_index file_sz =
     debug_assert p (CHUNK_SIZE div HASH_SIZE = 128)
       (try_r (try_r (merkle_tree_height p file_sz) unwrap) (\<lambda>height.
        let max_level = height mod 2 ^ 32 in
        try_r (try_map (walk_level p chunk_index file_sz) (rev [0..<Suc max_level])) (\<lambda>levels.
        try_r (walk_scan p 0 levels) (\<lambda>offsets.
        Ok (rev (map (\<lambda>g. (g div CHUNK_SIZE, g mod CHUNK_SIZE)) offsets))))))"

definition fsverity_walk_item ::
  "chunk_reader \<Rightarrow> nat \<times> nat \<Rightarrow> (fsverity_error, bytes \<times> nat) res" where
  "fsverity_walk_item merkle_tree step =
     (case step of (chunk_index, hash_offset_in_chunk) \<Rightarrow>
      try_r (map_err FsverityIo (merkle_tree chunk_index (zeros 4096))) (\<lambda>(_, merkle_chunk).
      Ok (merkle_chunk, hash_offset_in_chunk)))"

text \<open>The closure of the \<open>try_fold\<close> in \<open>verity_check\<close>.\<close>

definition verity_step ::
  "profile \<Rightarrow> 'c sha256_ffi \<Rightarrow> chunk_reader \<Rightarrow> hash \<Rightarrow> nat \<times> nat \<Rightarrow> (fsverity_error, hash) res" where
  "verity_step p ffi merkle_tree actual_hash step =
     try_r (fsverity_walk_item merkle_tree step) (\<lambda>(merkle_chunk, hash_offset_in_chunk).
     try_r (uadd p 64 hash_offset_in_chunk HASH_SIZE) (\<lambda>hash_end.
     try_r (slice merkle_chunk hash_offset_in_chunk hash_end) (\<lambda>expected_hash.
     if actual_hash \<noteq> expected_hash then Err CannotVerify
     else map_err UnexpectedCryptoError (hash_with_padding p ffi merkle_chunk CHUNK_SIZE))))"

definition verity_check ::
  "profile \<Rightarrow> 'c sha256_ffi \<Rightarrow> bytes \<Rightarrow> nat \<Rightarrow> nat \<Rightarrow> chunk_reader \<Rightarrow> (fsverity_error, hash) res" where
  "verity_check p ffi chunk chunk_index file_sz merkle_tree =
     assert_r (file_sz \<noteq> 0)
       (try_r (map_err UnexpectedCryptoError (hash_with_padding p ffi chunk CHUNK_SIZE)) (\<lambda>chunk_hash.
        try_r (fsverity_walk_steps p chunk_index file_sz) (\<lambda>steps.
        try_fold (verity_step p ffi merkle_tree) chunk_hash steps)))"

definition build_fsverity_formatted_digest ::
  "'c sha256_ffi \<Rightarrow> hash \<Rightarrow> nat \<Rightarrow> (crypto_error, bytes) res" where
  "build_fsverity_formatted_digest ffi root_hash file_sz =
     try_r (build_fsverity_digest ffi root_hash file_sz) (\<lambda>digest.
     Ok (FS_VERITY_MAGIC @ to_le_bytes 2 FS_VERITY_HASH_ALG_SHA256 @ to_le_bytes 2 HASH_SIZE @ digest))"

record verified_file_reader =
  vf_chunked_file :: chunk_reader
  vf_file_size :: nat
  vf_merkle_tree :: chunk_reader
  vf_root_hash :: hash

definition VerifiedFileReader_new ::
  "'c sha256_ffi \<Rightarrow> authenticator \<Rightarrow> chunk_reader \<Rightarrow> nat \<Rightarrow> bytes \<Rightarrow> chunk_reader \<Rightarrow>
   (fsverity_error, verified_file_reader) res" where
  "VerifiedFileReader_new ffi verify chunked_file file_sz sig merkle_tree =
     try_r (map_err FsverityIo (merkle_tree 0 (zeros CHUNK_SIZE))) (\<lambda>(n, buf).
     if length buf \<noteq> n then Err (InsufficientData n)
     else
       try_r (map_err UnexpectedCryptoError (sha256_chain ffi [buf])) (\<lambda>root_hash.
       try_r (map_err UnexpectedCryptoError
                (build_fsverity_formatted_digest ffi root_hash file_sz)) (\<lambda>formatted_digest.
       try_r (map_err FsverityIo (verify sig formatted_digest)) (\<lambda>valid.
       if valid then
         Ok \<lparr>vf_chunked_file = chunked_file, vf_file_size = file_sz,
             vf_merkle_tree = merkle_tree, vf_root_hash = root_hash\<rparr>
       else Err BadSignature))))"

definition VerifiedFileReader_read_chunk ::
  "profile \<Rightarrow> 'c sha256_ffi \<Rightarrow> verified_file_reader \<Rightarrow> chunk_reader" where
  "VerifiedFileReader_read_chunk p ffi self chunk_index buf =
     try_r (vf_chunked_file self chunk_index buf) (\<lambda>(n, buf).
     assert_r (n \<le> length buf)
       (try_r (map_err (\<lambda>_. Os EIO)
                 (verity_check p ffi (take n buf) chunk_index (vf_file_size self)
                    (vf_merkle_tree self))) (\<lambda>root_hash.
        if root_hash \<noteq> vf_root_hash self then Err (Os EIO) else Ok (n, buf))))"

section \<open>The tree of a file\<close>

definition tree_level :: "(bytes \<Rightarrow> hash) \<Rightarrow> bytes \<Rightarrow> nat \<Rightarrow> hash list" where
  "tree_level sha c x = (next_level sha ^^ x) (leaves_of sha c)"

definition page_bytes :: "hash list \<Rightarrow> bytes" where
  "page_bytes hs = concat hs @ zeros ((128 - length hs) * HASH_SIZE)"

definition level_pages :: "(bytes \<Rightarrow> hash) \<Rightarrow> bytes \<Rightarrow> nat \<Rightarrow> bytes list" where
  "level_pages sha c x = map page_bytes (chunks 128 (tree_level sha c x))"

definition max_level :: "bytes \<Rightarrow> nat" where
  "max_level c = max_level_of (length c)"

definition tree_pages :: "(bytes \<Rightarrow> hash) \<Rightarrow> bytes \<Rightarrow> bytes list" where
  "tree_pages sha c = concat (map (level_pages sha c) (rev [0..<Suc (max_level c)]))"

definition tree_file :: "(bytes \<Rightarrow> hash) \<Rightarrow> bytes \<Rightarrow> bytes" where
  "tree_file sha c = concat (tree_pages sha c)"

text \<open>The messages hashed for block \<open>i\<close>: the padded block, then the node of each level.\<close>

fun path_msg :: "(bytes \<Rightarrow> hash) \<Rightarrow> bytes \<Rightarrow> nat \<Rightarrow> nat \<Rightarrow> bytes" where
  "path_msg sha c i 0 = pad_block (block c i)"
| "path_msg sha c i (Suc x) = level_pages sha c x ! (i div 128 ^ Suc x)"

definition root_of :: "(bytes \<Rightarrow> hash) \<Rightarrow> bytes \<Rightarrow> hash" where
  "root_of sha c = tree_level sha c (Suc (max_level c)) ! 0"

text \<open>The number of pages of level \<open>x\<close>, the first page of the level in the tree file, and the
  position of the hash of block \<open>i\<close> at level \<open>x\<close>.\<close>

definition level_nodes :: "nat \<Rightarrow> nat \<Rightarrow> nat" where
  "level_nodes n x = ceil_div n (CHUNK_SIZE * 128 ^ Suc x)"

definition level_start :: "nat \<Rightarrow> nat \<Rightarrow> nat" where
  "level_start n x = sum_list (map (level_nodes n) [Suc x..<Suc (max_level_of n)])"

definition walk_pos :: "nat \<Rightarrow> nat \<Rightarrow> nat \<Rightarrow> nat \<times> nat" where
  "walk_pos n i x = (level_start n x + i div 128 ^ Suc x, (i div 128 ^ x mod 128) * HASH_SIZE)"

lemma tree_level_Suc: "tree_level sha c (Suc x) = next_level sha (tree_level sha c x)"
  by (simp add: tree_level_def)

lemma length_tree_level: "length (tree_level sha c x) = ceil_div (num_blocks c) (128 ^ x)"
  by (simp add: tree_level_def length_iterate_next_level)

lemma length_level_pages [simp]: "length (level_pages sha c x) = level_nodes (length c) x"
  by (simp add: level_pages_def length_chunks length_tree_level level_nodes_def num_blocks_def
      ceil_div_ceil_div ac_simps)

lemma index_in_level:
  assumes "i < num_blocks c"
  shows "i div 128 ^ x < length (tree_level sha c x)"
proof -
  have "i div 128 ^ x * 128 ^ x < num_blocks c"
    using div_times_less_eq_dividend assms by (rule le_less_trans)
  then show ?thesis by (simp add: length_tree_level ceil_div_less_iff)
qed

lemma page_in_level:
  "i < num_blocks c \<Longrightarrow> i div 128 ^ Suc x < level_nodes (length c) x"
  using index_in_level[of i c "Suc x"]
  by (simp add: length_tree_level level_nodes_def num_blocks_def ceil_div_ceil_div ac_simps)

lemma nth_level_pages:
  assumes "q < level_nodes (length c) x"
  shows "level_pages sha c x ! q = page_bytes (take 128 (drop (q * 128) (tree_level sha c x)))"
proof -
  have "q < ceil_div (length (tree_level sha c x)) 128"
    using assms length_level_pages[of sha c x] by (simp add: level_pages_def length_chunks)
  then show ?thesis by (simp add: level_pages_def nth_chunks length_chunks)
qed

lemma tree_level_hash_length:
  assumes "sha256_spec ffi sha" "h \<in> set (tree_level sha c x)"
  shows "length h = HASH_SIZE"
  using assms
  by (cases x) (auto simp: tree_level_Suc next_level_def hash_page_def tree_level_def leaves_of_def)

lemma length_page_bytes:
  "\<forall>h \<in> set hs. length h = HASH_SIZE \<Longrightarrow> length hs \<le> 128 \<Longrightarrow> length (page_bytes hs) = CHUNK_SIZE"
  using length_concat_const[of hs HASH_SIZE] by (simp add: page_bytes_def HASH_SIZE_def CHUNK_SIZE_def)

lemma length_level_page:
  assumes "sha256_spec ffi sha" "pg \<in> set (level_pages sha c x)"
  shows "length pg = CHUNK_SIZE"
proof -
  from assms(2) obtain hs where hs: "hs \<in> set (chunks 128 (tree_level sha c x))" "pg = page_bytes hs"
    by (auto simp: level_pages_def)
  then have "set hs \<subseteq> set (tree_level sha c x)"
    using concat_chunks[of 128 "tree_level sha c x"] by (metis UN_upper set_concat zero_less_numeral)
  with assms(1) hs length_chunk_le[OF hs(1)] show ?thesis
    by (auto intro!: length_page_bytes tree_level_hash_length)
qed

lemma length_path_msg:
  "sha256_spec ffi sha \<Longrightarrow> i < num_blocks c \<Longrightarrow> length (path_msg sha c i x) = CHUNK_SIZE"
  using page_in_level[of i c] length_level_page[OF _ nth_mem, of ffi sha _ c]
  by (cases x) (simp_all del: power_Suc)

text \<open>The hash of a message on the path is the entry of its level.\<close>

lemma tree_level_nth:
  assumes "i < num_blocks c"
  shows "tree_level sha c x ! (i div 128 ^ x) = sha (path_msg sha c i x)"
proof (cases x)
  case 0
  with assms show ?thesis by (simp add: tree_level_def nth_leaves_of)
next
  case (Suc y)
  have "i div 128 ^ Suc y < length (chunks 128 (tree_level sha c y))"
    using page_in_level[OF assms, of y] length_level_pages[of sha c y] by (simp add: level_pages_def)
  with Suc show ?thesis
    by (simp add: tree_level_Suc next_level_def level_pages_def hash_page_def page_bytes_def)
qed

text \<open>The slice of a node that the walk compares is the hash of the message below it.\<close>

lemma path_msg_slice:
  assumes sha: "sha256_spec ffi sha" and i: "i < num_blocks c"
  shows "take HASH_SIZE (drop ((i div 128 ^ x mod 128) * HASH_SIZE) (path_msg sha c i (Suc x))) =
    sha (path_msg sha c i x)"
proof -
  let ?j = "i div 128 ^ x" and ?H = "tree_level sha c x"
  let ?hs = "take 128 (drop (?j div 128 * 128) ?H)"
  have j: "?j < length ?H" by (rule index_in_level[OF i])
  have split: "?j div 128 * 128 + ?j mod 128 = ?j" by simp
  then have "?j mod 128 < length ?H - ?j div 128 * 128" using j by linarith
  then have k: "?j mod 128 < length ?hs" "?hs ! (?j mod 128) = ?H ! ?j"
    using split by simp_all
  have hs: "\<forall>h \<in> set ?hs. length h = HASH_SIZE"
    by (meson in_set_dropD in_set_takeD sha tree_level_hash_length)
  have "i div 128 ^ Suc x = ?j div 128" by (simp add: div_mult2_eq mult.commute[of 128])
  then have "path_msg sha c i (Suc x) = page_bytes ?hs"
    using page_in_level[OF i, of x] by (simp add: nth_level_pages)
  moreover have "?j mod 128 * HASH_SIZE + HASH_SIZE \<le> length (concat ?hs)"
    using k(1) by (simp add: length_concat_const[OF hs] del: length_take length_drop)
      (metis Suc_leI add.commute mult_Suc mult_le_mono1)
  ultimately show ?thesis
    using take_drop_concat[OF hs k(1)] k(2) tree_level_nth[OF i, of sha x] by (simp add: page_bytes_def)
qed

section \<open>Where the nodes are in the tree file\<close>

lemma tree_pages_split:
  assumes "x \<le> max_level c"
  shows "\<exists>rest. tree_pages sha c =
    concat (map (level_pages sha c) (rev [Suc x..<Suc (max_level c)])) @ level_pages sha c x @ rest"
proof -
  have "[0..<Suc (max_level c)] = [0..<x] @ x # [Suc x..<Suc (max_level c)]"
    using upt_add_eq_append[of 0 x "Suc (max_level c) - x"] upt_conv_Cons[of x "Suc (max_level c)"] assms
    by (simp del: upt_Suc)
  then show ?thesis by (simp add: tree_pages_def del: upt_Suc)
qed

lemma length_concat_levels:
  "length (concat (map (level_pages sha c) (rev xs))) = sum_list (map (level_nodes (length c)) xs)"
  by (simp add: length_concat comp_def rev_map[symmetric])

lemma tree_pages_nth:
  assumes "x \<le> max_level c" "i < num_blocks c"
  defines "k \<equiv> level_start (length c) x + i div 128 ^ Suc x"
  shows "k < length (tree_pages sha c)" and "tree_pages sha c ! k = path_msg sha c i (Suc x)"
proof -
  from tree_pages_split[OF assms(1), of sha] obtain rest where t: "tree_pages sha c =
    concat (map (level_pages sha c) (rev [Suc x..<Suc (max_level c)])) @ level_pages sha c x @ rest" ..
  have len: "length (concat (map (level_pages sha c) (rev [Suc x..<Suc (max_level c)]))) =
      level_start (length c) x"
    by (simp only: length_concat_levels level_start_def max_level_def)
  from page_in_level[OF assms(2), of x] len
  show "k < length (tree_pages sha c)" "tree_pages sha c ! k = path_msg sha c i (Suc x)"
    unfolding t k_def by (simp_all add: nth_append del: upt_Suc power_Suc rev_map)
qed

lemma tree_pages_length:
  "sha256_spec ffi sha \<Longrightarrow> \<forall>pg \<in> set (tree_pages sha c). length pg = CHUNK_SIZE"
  by (auto simp: tree_pages_def intro: length_level_page)

lemma tree_file_block:
  assumes "sha256_spec ffi sha" "k < length (tree_pages sha c)"
  shows "k < num_blocks (tree_file sha c)" "block (tree_file sha c) k = tree_pages sha c ! k"
proof -
  note pages = tree_pages_length[OF assms(1), of c]
  show "k < num_blocks (tree_file sha c)"
    using assms(2) by (simp add: less_num_blocks_iff tree_file_def length_concat_const[OF pages])
  show "block (tree_file sha c) k = tree_pages sha c ! k"
    using take_drop_concat[OF pages assms(2)] by (simp add: block_def tree_file_def)
qed

section \<open>The walk computes the positions\<close>

lemma walk_scan_eq:
  assumes "\<And>y. y < k \<Longrightarrow> off y \<le> ls y" "lo + sum_list (map ls [0..<k]) < 2 ^ 64"
  shows "walk_scan p lo (map (\<lambda>x. (ls x, off x)) (rev [0..<k])) =
    Ok (map (\<lambda>x. lo + sum_list (map ls [Suc x..<k]) + off x) (rev [0..<k]))"
  using assms
proof (induction k arbitrary: lo)
  case (Suc k)
  have *: "\<And>y. y < k \<Longrightarrow> off y \<le> ls y" "lo + ls k + sum_list (map ls [0..<k]) < 2 ^ 64"
    using Suc.prems by simp_all
  note IH = Suc.IH[OF *]
  have "lo + ls k < 2 ^ 64" "lo + off k < 2 ^ 64"
    using Suc.prems(2) Suc.prems(1)[of k] by simp_all
  with IH show ?case by (simp add: uadd_ok)
qed simp

lemma max_level_of_le:
  assumes "0 < n" "n \<le> 2 ^ 61"
  shows "max_level_of n \<le> 6"
proof -
  have "hash_pages n \<le> 128 ^ 6" using assms(2) by (simp add: hash_pages_def ceil_div_le_iff CHUNK_SIZE_def)
  then show ?thesis unfolding max_level_of_def using assms(1) by (subst log128_le_iff) simp_all
qed

lemma level_nodes_le: "n \<le> 2 ^ 61 \<Longrightarrow> level_nodes n x \<le> 2 ^ 42"
proof -
  assume "n \<le> 2 ^ 61"
  moreover have "(1::nat) \<le> 128 ^ x" by simp
  ultimately have "n \<le> 2 ^ 61 * 128 ^ x" by (metis mult.right_neutral mult_le_mono order_trans)
  then show ?thesis by (simp add: level_nodes_def ceil_div_le_iff CHUNK_SIZE_def)
qed

lemma walk_level_eq:
  assumes "n \<le> 2 ^ 61" "x \<le> 6" "i < ceil_div n CHUNK_SIZE"
  shows "walk_level p i n x = Ok (level_nodes n x * CHUNK_SIZE, i div 128 ^ x * HASH_SIZE)"
    and "i div 128 ^ x * HASH_SIZE \<le> level_nodes n x * CHUNK_SIZE"
proof -
  have p6: "(128::nat) ^ x \<le> 128 ^ 6" using assms(2) by (rule power_increasing) simp
  have "ceil_div n CHUNK_SIZE \<le> 2 ^ 49"
    using assms(1) by (simp add: ceil_div_le_iff CHUNK_SIZE_def)
  with assms(3) have i: "i < 2 ^ 49" by linarith
  have idiv: "i div 128 ^ x * HASH_SIZE < 2 ^ 64"
    using le_less_trans[OF div_le_dividend i, of "128 ^ x"] by (simp add: HASH_SIZE_def)
  have nodes: "level_nodes n x * CHUNK_SIZE < 2 ^ 64"
    using level_nodes_le[OF assms(1), of x] by (simp add: CHUNK_SIZE_def)
  have sizes: "CHUNK_SIZE * 128 ^ x < 2 ^ 64" "CHUNK_SIZE * 128 ^ x * 128 < 2 ^ 62"
      "(128::nat) ^ x < 2 ^ 64"
    using p6 by (simp_all add: CHUNK_SIZE_def)
  have "n + CHUNK_SIZE * 128 ^ x * 128 < 2 ^ 64" using sizes(2) assms(1) by simp
  then show "walk_level p i n x = Ok (level_nodes n x * CHUNK_SIZE, i div 128 ^ x * HASH_SIZE)"
    using sizes idiv nodes
    by (simp add: walk_level_def upow_ok umul_ok divide_roundup_ok level_nodes_def ac_simps)
  have "i div 128 ^ x < ceil_div n (CHUNK_SIZE * 128 ^ x)"
  proof -
    have "i div 128 ^ x * 128 ^ x < ceil_div n CHUNK_SIZE"
      using div_times_less_eq_dividend assms(3) by (rule le_less_trans)
    then show ?thesis by (simp add: ceil_div_less_iff flip: ceil_div_ceil_div)
  qed
  moreover have "ceil_div n (CHUNK_SIZE * 128 ^ x) \<le> level_nodes n x * 128"
    using ceil_div_le_iff[of 128 "ceil_div n (CHUNK_SIZE * 128 ^ x)" "level_nodes n x"]
    by (simp add: level_nodes_def ceil_div_ceil_div ac_simps)
  ultimately show "i div 128 ^ x * HASH_SIZE \<le> level_nodes n x * CHUNK_SIZE"
    by (simp add: HASH_SIZE_def CHUNK_SIZE_def)
qed

lemma sum_levels_fit:
  assumes "n \<le> 2 ^ 61" "k \<le> 7"
  shows "sum_list (map (\<lambda>x. level_nodes n x * CHUNK_SIZE) [0..<k]) < 2 ^ 57"
proof -
  have "sum_list (map (\<lambda>x. level_nodes n x * CHUNK_SIZE) [0..<k]) \<le>
      sum_list (map (\<lambda>x. 2 ^ 42 * CHUNK_SIZE) [0..<k])"
    by (intro sum_list_mono mult_le_mono1 level_nodes_le assms(1))
  also have "\<dots> \<le> 7 * (2 ^ 42 * CHUNK_SIZE)"
    using assms(2) by (simp add: sum_list_triv)
  finally show ?thesis by (simp add: CHUNK_SIZE_def)
qed

lemma walk_pos_split:
  "(\<lambda>g. (g div CHUNK_SIZE, g mod CHUNK_SIZE))
     (sum_list (map (\<lambda>y. level_nodes n y * CHUNK_SIZE) [Suc x..<Suc (max_level_of n)]) +
      i div 128 ^ x * HASH_SIZE) = walk_pos n i x"
proof -
  let ?j = "i div 128 ^ x"
  have s: "sum_list (map (\<lambda>y. level_nodes n y * CHUNK_SIZE) [Suc x..<Suc (max_level_of n)]) =
      level_start n x * CHUNK_SIZE"
    by (simp add: level_start_def sum_list_mult_const del: upt_Suc)
  have j: "?j * HASH_SIZE div CHUNK_SIZE = ?j div 128" "?j * HASH_SIZE mod CHUNK_SIZE = ?j mod 128 * HASH_SIZE"
    using div_mult_mult2[of HASH_SIZE ?j 128] mult_mod_left[of ?j 128 HASH_SIZE]
    by (simp_all add: HASH_SIZE_def CHUNK_SIZE_def)
  show ?thesis
    unfolding s by (simp add: walk_pos_def j div_mult2_eq mult.commute[of 128])
qed

lemma walk_levels_eq:
  assumes "0 < n" "n \<le> 2 ^ 61" "i < ceil_div n CHUNK_SIZE"
  shows "try_map (walk_level p i n) (rev [0..<Suc (max_level_of n)]) =
    Ok (map (\<lambda>x. (level_nodes n x * CHUNK_SIZE, i div 128 ^ x * HASH_SIZE))
      (rev [0..<Suc (max_level_of n)]))"
  using walk_level_eq(1)[OF assms(2) _ assms(3)] max_level_of_le[OF assms(1,2)]
  by (intro try_map_Ok) auto

lemma walk_scan_levels_eq:
  assumes "0 < n" "n \<le> 2 ^ 61" "i < ceil_div n CHUNK_SIZE"
  defines "L \<equiv> max_level_of n"
  shows "walk_scan p 0 (map (\<lambda>x. (level_nodes n x * CHUNK_SIZE, i div 128 ^ x * HASH_SIZE))
      (rev [0..<Suc L])) =
    Ok (map (\<lambda>x. 0 + sum_list (map (\<lambda>y. level_nodes n y * CHUNK_SIZE) [Suc x..<Suc L]) +
      i div 128 ^ x * HASH_SIZE) (rev [0..<Suc L]))"
proof (rule walk_scan_eq)
  have L: "Suc L \<le> 7" using max_level_of_le[OF assms(1,2)] by (simp add: L_def)
  show "i div 128 ^ y * HASH_SIZE \<le> level_nodes n y * CHUNK_SIZE" if "y < Suc L" for y
    using walk_level_eq(2)[OF assms(2) _ assms(3), of y] that L by simp
  show "0 + sum_list (map (\<lambda>y. level_nodes n y * CHUNK_SIZE) [0..<Suc L]) < 2 ^ 64"
    using sum_levels_fit[OF assms(2) L] by (simp del: upt_Suc)
qed

lemma fsverity_walk_steps_eq:
  assumes "0 < n" "n \<le> 2 ^ 61" "i < ceil_div n CHUNK_SIZE"
  shows "fsverity_walk_steps p i n = Ok (map (walk_pos n i) [0..<Suc (max_level_of n)])"
proof -
  have "n + 128 * CHUNK_SIZE < 2 ^ 64" "max_level_of n mod 2 ^ 32 = max_level_of n"
    using assms(2) max_level_of_le[OF assms(1,2)] by (simp_all add: CHUNK_SIZE_def)
  with assms(1) show ?thesis
    using walk_pos_split[of n _ i]
    by (simp add: fsverity_walk_steps_def merkle_tree_height_eq walk_levels_eq[OF assms]
        walk_scan_levels_eq[OF assms] rev_map comp_def del: upt_Suc)
qed

section \<open>Hashing along the path\<close>

lemma hash_with_padding_eq:
  assumes "sha256_spec ffi sha" "length chunk \<le> CHUNK_SIZE"
  shows "hash_with_padding p ffi chunk CHUNK_SIZE = Ok (sha (pad_block chunk))"
proof -
  have "hash_with_padding p ffi chunk CHUNK_SIZE =
      sha256_chain ffi [chunk, zeros (CHUNK_SIZE - length chunk)]"
    using assms(2)
    by (simp add: hash_with_padding_def sha256_chain_def Sha256Hasher_update_from_def usub_ok
        try_r_assoc CHUNK_SIZE_def)
  then show ?thesis by (simp add: sha256_chain_eq[OF assms(1)] pad_block_def)
qed

lemma walk_pos_fits: "walk_pos n i x = (k, off) \<Longrightarrow> off + HASH_SIZE \<le> CHUNK_SIZE"
proof -
  assume "walk_pos n i x = (k, off)"
  then have "off = i div 128 ^ x mod 128 * HASH_SIZE" by (simp add: walk_pos_def)
  moreover have "i div 128 ^ x mod 128 < 128" by simp
  ultimately show ?thesis by (simp add: HASH_SIZE_def CHUNK_SIZE_def)
qed

lemma verity_step_eq:
  assumes "sha256_spec ffi sha" "rd k (zeros 4096) = Ok (n, m)" "length m = CHUNK_SIZE"
    and "off + HASH_SIZE \<le> CHUNK_SIZE"
  shows "verity_step p ffi rd h (k, off) =
    (if h = take HASH_SIZE (drop off m) then Ok (sha m) else Err CannotVerify)"
proof -
  have "off + HASH_SIZE < 2 ^ 64" using assms(4) by (simp add: CHUNK_SIZE_def)
  moreover have "pad_block m = m" using assms(3) by (simp add: pad_block_def)
  ultimately show ?thesis
    using assms
    by (simp add: verity_step_def fsverity_walk_item_def uadd_ok slice_def hash_with_padding_eq)
qed

lemma path_below_root:
  assumes "i < num_blocks c"
  shows "i div 128 ^ Suc (max_level c) = 0" and "sha (path_msg sha c i (Suc (max_level c))) = root_of sha c"
    and "level_nodes (length c) (max_level c) = 1"
proof -
  let ?L = "max_level c"
  have pos: "0 < hash_pages (length c)"
    using assms le_less_trans[of 0 "i * CHUNK_SIZE" "length c"]
    by (simp add: less_num_blocks_iff del: length_greater_0_conv)
  have "hash_pages (length c) \<le> 128 ^ ?L"
    using log128_le_iff[OF pos, of ?L] by (simp add: max_level_def max_level_of_def)
  then have "level_nodes (length c) ?L \<le> 1"
    by (simp add: level_nodes_def hash_pages_def ceil_div_le_iff ac_simps)
  with page_in_level[OF assms, of ?L] show "level_nodes (length c) ?L = 1"
    and zero: "i div 128 ^ Suc ?L = 0" by linarith+
  from tree_level_nth[OF assms, of sha "Suc ?L"] zero
  show "sha (path_msg sha c i (Suc ?L)) = root_of sha c" by (simp add: root_of_def)
qed

lemma verity_fold_complete:
  assumes sha: "sha256_spec ffi sha" and i: "i < num_blocks c"
    and honest: "\<And>y. y \<le> L \<Longrightarrow>
      \<exists>n. rd (fst (walk_pos (length c) i y)) (zeros 4096) = Ok (n, path_msg sha c i (Suc y))"
    and x: "x \<le> Suc L"
  shows "try_fold (verity_step p ffi rd) (sha (path_msg sha c i x))
      (map (walk_pos (length c) i) [x..<Suc L]) = Ok (sha (path_msg sha c i (Suc L)))"
  using x
proof (induction rule: inc_induct)
  case (step y)
  then obtain n where n: "rd (fst (walk_pos (length c) i y)) (zeros 4096) =
      Ok (n, path_msg sha c i (Suc y))" using honest[of y] by auto
  obtain k off where pos: "walk_pos (length c) i y = (k, off)" by (cases "walk_pos (length c) i y")
  have off: "off = i div 128 ^ y mod 128 * HASH_SIZE" using pos by (simp add: walk_pos_def)
  have "verity_step p ffi rd (sha (path_msg sha c i y)) (k, off) = Ok (sha (path_msg sha c i (Suc y)))"
    using n pos path_msg_slice[OF sha i, of y] unfolding off
    by (subst verity_step_eq[OF sha _ length_path_msg[OF sha i] walk_pos_fits])
      (auto simp: walk_pos_def simp del: path_msg.simps)
  with step pos show ?case by (simp add: upt_conv_Cons del: upt_Suc path_msg.simps)
qed simp

text \<open>A reader that answers at all fills the fixed-size buffer it was given.\<close>

definition keeps_length :: "chunk_reader \<Rightarrow> bool" where
  "keeps_length rd \<longleftrightarrow> (\<forall>k buf n m. rd k buf = Ok (n, m) \<longrightarrow> length m = length buf)"

lemma verity_fold_sound:
  assumes sha: "sha256_spec ffi sha" and i: "i < num_blocks c" and typed: "keeps_length rd"
    and sec: "no_collision sha {m. \<exists>k n. rd k (zeros 4096) = Ok (n, m)} (path_msg sha c i ` {..Suc L})"
    and x: "x \<le> Suc L"
    and run: "try_fold (verity_step p ffi rd) h (map (walk_pos (length c) i) [x..<Suc L]) =
      Ok (sha (path_msg sha c i (Suc L)))"
  shows "h = sha (path_msg sha c i x)"
  using x run
proof (induction arbitrary: h rule: inc_induct)
  case (step y)
  obtain k off where pos: "walk_pos (length c) i y = (k, off)" by (cases "walk_pos (length c) i y")
  have off: "off = i div 128 ^ y mod 128 * HASH_SIZE" using pos by (simp add: walk_pos_def)
  from step pos obtain h' where h': "verity_step p ffi rd h (k, off) = Ok h'"
    and rest: "try_fold (verity_step p ffi rd) h' (map (walk_pos (length c) i) [Suc y..<Suc L]) =
      Ok (sha (path_msg sha c i (Suc L)))"
    by (auto simp: upt_conv_Cons try_r_Ok_iff simp del: upt_Suc path_msg.simps)
  from h' obtain n m where m: "rd k (zeros 4096) = Ok (n, m)"
    by (auto simp: verity_step_def fsverity_walk_item_def try_r_Ok_iff map_err_Ok_iff)
  with typed have "length m = length (zeros 4096)" unfolding keeps_length_def by blast
  then have len: "length m = CHUNK_SIZE" by (simp add: CHUNK_SIZE_def)
  from h' verity_step_eq[of ffi sha rd k n m off p h, OF sha m len walk_pos_fits[OF pos]]
  have "h = take HASH_SIZE (drop off m)" "h' = sha m" by (auto split: if_splits)
  moreover have "m = path_msg sha c i (Suc y)"
  proof (rule no_collisionD[OF sec _ imageI])
    show "m \<in> {m. \<exists>k n. rd k (zeros 4096) = Ok (n, m)}" using m by blast
    show "Suc y \<in> {..Suc L}" using step.hyps by simp
    show "sha m = sha (path_msg sha c i (Suc y))" using step.IH[OF rest] \<open>h' = sha m\<close> by (simp only:)
  qed
  ultimately show ?case using path_msg_slice[OF sha i, of y] by (simp only: off)
qed simp

section \<open>Correctness of the verified reader\<close>

definition formatted_digest :: "(bytes \<Rightarrow> hash) \<Rightarrow> bytes \<Rightarrow> bytes" where
  "formatted_digest sha c =
     FS_VERITY_MAGIC @ [1, 0, 32, 0] @ sha (fsverity_descriptor (root_of sha c) (length c))"

lemma build_fsverity_formatted_digest_eq:
  assumes "sha256_spec ffi sha"
  shows "build_fsverity_formatted_digest ffi root n =
    Ok (FS_VERITY_MAGIC @ [1, 0, 32, 0] @ sha (fsverity_descriptor root n))"
proof -
  have two: "[0..<2] = [0, 1::nat]" by (simp add: upt_rec)
  have "to_le_bytes 2 FS_VERITY_HASH_ALG_SHA256 = [1, 0]" "to_le_bytes 2 HASH_SIZE = [32, 0]"
    by (simp_all add: to_le_bytes_def two FS_VERITY_HASH_ALG_SHA256_def HASH_SIZE_def)
  then show ?thesis
    by (simp add: build_fsverity_formatted_digest_def build_fsverity_digest_eq[OF assms])
qed

lemma length_tree_file:
  assumes "sha256_spec ffi sha" "0 < length c" "length c \<le> 2 ^ 61"
  shows "length (tree_file sha c) < 2 ^ 63"
proof -
  have "length (tree_file sha c) =
      sum_list (map (level_nodes (length c)) [0..<Suc (max_level c)]) * CHUNK_SIZE"
    by (simp only: tree_file_def length_concat_const[OF tree_pages_length[OF assms(1)]])
      (simp only: tree_pages_def length_concat_levels)
  also have "\<dots> = sum_list (map (\<lambda>x. level_nodes (length c) x * CHUNK_SIZE) [0..<Suc (max_level c)])"
    by (simp only: sum_list_mult_const)
  also have "\<dots> < 2 ^ 57"
    using max_level_of_le[OF assms(2,3)] by (intro sum_levels_fit assms(3)) (simp add: max_level_def)
  finally show ?thesis by simp
qed

lemma nonempty_if_block: "i < num_blocks c \<Longrightarrow> 0 < length c"
  by (auto simp: less_num_blocks_iff)

lemma tree_reader_node:
  assumes sha: "sha256_spec ffi sha" and tree: "reads_blocks trd (tree_file sha c)"
    and len: "length c \<le> 2 ^ 61" and i: "i < num_blocks c" and x: "x \<le> max_level c"
  shows "trd (fst (walk_pos (length c) i x)) (zeros 4096) = Ok (4096, path_msg sha c i (Suc x))"
proof -
  let ?k = "fst (walk_pos (length c) i x)"
  have k: "?k < length (tree_pages sha c)" "tree_pages sha c ! ?k = path_msg sha c i (Suc x)"
    using tree_pages_nth[OF x i] by (simp_all only: walk_pos_def fst_conv)
  have "block (tree_file sha c) ?k = path_msg sha c i (Suc x)"
    using tree_file_block[OF sha k(1)] k(2) by (simp only:)
  moreover have "trd ?k (zeros CHUNK_SIZE) =
      Ok (length (block (tree_file sha c) ?k), pad_block (block (tree_file sha c) ?k))"
    using reads_blocks.read_within_zeros[OF tree] tree_file_block(1)[OF sha k(1)]
      length_tree_file[OF sha nonempty_if_block[OF i] len] by blast
  ultimately show ?thesis
    using length_path_msg[OF sha i, of "Suc x"]
    by (simp add: pad_block_def CHUNK_SIZE_def del: path_msg.simps)
qed

lemma verity_check_complete:
  assumes sha: "sha256_spec ffi sha" and tree: "reads_blocks trd (tree_file sha c)"
    and len: "length c \<le> 2 ^ 61" and i: "i < num_blocks c"
  shows "verity_check p ffi (block c i) i (length c) trd = Ok (root_of sha c)"
proof -
  have "try_fold (verity_step p ffi trd) (sha (path_msg sha c i 0))
      (map (walk_pos (length c) i) [0..<Suc (max_level c)]) = Ok (root_of sha c)"
    using verity_fold_complete[OF sha i, of "max_level c" trd 0 p] tree_reader_node[OF sha tree len i]
      path_below_root(2)[OF i, of sha] by (metis le0)
  then show ?thesis
    using i nonempty_if_block[OF i] hash_with_padding_eq[OF sha length_block_le]
    by (simp add: verity_check_def fsverity_walk_steps_eq[OF _ len] num_blocks_def max_level_def
        del: upt_Suc)
qed

lemma verified_reader_reads:
  assumes sha: "sha256_spec ffi sha" and rd: "reads_blocks rd c"
    and tree: "reads_blocks trd (tree_file sha c)" and len: "length c \<le> 2 ^ 61"
  shows "reads_blocks (VerifiedFileReader_read_chunk p ffi
    \<lparr>vf_chunked_file = rd, vf_file_size = length c, vf_merkle_tree = trd,
     vf_root_hash = root_of sha c\<rparr>) c"
proof
  fix i and buf :: bytes
  assume i: "i < num_blocks c" and "length c < 2 ^ 63" and buf: "length buf = CHUNK_SIZE"
  with reads_blocks.read_within[OF rd]
  have "rd i buf = Ok (length (block c i), overwrite buf (block c i))" by blast
  then show "VerifiedFileReader_read_chunk p ffi
      \<lparr>vf_chunked_file = rd, vf_file_size = length c, vf_merkle_tree = trd,
       vf_root_hash = root_of sha c\<rparr> i buf =
      Ok (length (block c i), overwrite buf (block c i))"
    using buf verity_check_complete[OF sha tree len i]
    by (simp add: VerifiedFileReader_read_chunk_def)
qed

lemma verified_new_by_root:
  assumes sha: "sha256_spec ffi sha" and len: "0 < length c" "length c \<le> 2 ^ 61"
    and root: "trd 0 (zeros 4096) = Ok (4096, path_msg sha c 0 (Suc (max_level c)))"
  shows "VerifiedFileReader_new ffi verify rd (length c) sig trd =
    try_r (map_err FsverityIo (verify sig (formatted_digest sha c))) (\<lambda>valid.
    if valid then Ok \<lparr>vf_chunked_file = rd, vf_file_size = length c, vf_merkle_tree = trd,
      vf_root_hash = root_of sha c\<rparr> else Err BadSignature)"
proof -
  have i: "0 < num_blocks c" using len(1) by (simp add: less_num_blocks_iff)
  then have "length (path_msg sha c 0 (Suc (max_level c))) = 4096"
    using length_path_msg[OF sha i, of "Suc (max_level c)"] by (simp add: CHUNK_SIZE_def del: path_msg.simps)
  with root show ?thesis
    using path_below_root(2)[OF i, of sha]
    by (simp add: VerifiedFileReader_new_def sha256_chain_eq[OF sha] CHUNK_SIZE_def formatted_digest_def
        build_fsverity_formatted_digest_eq[OF sha] del: path_msg.simps)
qed

lemma verified_new_eq:
  assumes sha: "sha256_spec ffi sha" and tree: "reads_blocks trd (tree_file sha c)"
    and len: "0 < length c" "length c \<le> 2 ^ 61"
  shows "VerifiedFileReader_new ffi verify rd (length c) sig trd =
    try_r (map_err FsverityIo (verify sig (formatted_digest sha c))) (\<lambda>valid.
    if valid then Ok \<lparr>vf_chunked_file = rd, vf_file_size = length c, vf_merkle_tree = trd,
      vf_root_hash = root_of sha c\<rparr> else Err BadSignature)"
proof (rule verified_new_by_root[OF sha len])
  have i: "0 < num_blocks c" using len(1) by (simp add: less_num_blocks_iff)
  have "walk_pos (length c) 0 (max_level c) = (0, 0)"
    by (simp add: walk_pos_def level_start_def max_level_def)
  with tree_reader_node[OF sha tree len(2) i order_refl]
  show "trd 0 (zeros 4096) = Ok (4096, path_msg sha c 0 (Suc (max_level c)))" by simp
qed

section \<open>Security of the verified reader\<close>

lemma fsverity_descriptor_inj:
  assumes "fsverity_descriptor r n = fsverity_descriptor r' n'"
    and "length r = length r'" "n < 2 ^ 64" "n' < 2 ^ 64"
  shows "r = r' \<and> n = n'"
proof -
  have "to_le_bytes 8 n = to_le_bytes 8 n'" "r = r'"
    using assms(1,2) by (simp_all add: fsverity_descriptor_def)
  then show ?thesis using to_le_bytes_inj[of 8 n n'] assms(3,4) by simp
qed

text \<open>What a run of the reader hashes, given what the untrusted side serves, and what is hashed for
  the genuine content.\<close>

definition served_msgs :: "chunk_reader \<Rightarrow> chunk_reader \<Rightarrow> nat \<Rightarrow> bytes \<Rightarrow> bytes set" where
  "served_msgs rd trd i buf =
     {m. \<exists>k n. trd k (zeros 4096) = Ok (n, m)} \<union> {pad_block (take n b) | n b. rd i buf = Ok (n, b)}"

definition genuine_msgs :: "(bytes \<Rightarrow> hash) \<Rightarrow> bytes \<Rightarrow> nat \<Rightarrow> bytes set" where
  "genuine_msgs sha c i = path_msg sha c i ` {..Suc (max_level c)}"

lemma verity_check_sound:
  assumes sha: "sha256_spec ffi sha" and typed: "keeps_length trd"
    and i: "i < num_blocks c" "length c \<le> 2 ^ 61" and n: "length chunk \<le> CHUNK_SIZE"
    and sec: "no_collision sha ({m. \<exists>k n. trd k (zeros 4096) = Ok (n, m)} \<union> {pad_block chunk})
      (genuine_msgs sha c i)"
    and run: "verity_check p ffi chunk i (length c) trd = Ok (root_of sha c)"
  shows "pad_block chunk = pad_block (block c i)"
proof -
  have "try_fold (verity_step p ffi trd) (sha (pad_block chunk))
      (map (walk_pos (length c) i) [0..<Suc (max_level c)]) =
      Ok (sha (path_msg sha c i (Suc (max_level c))))"
    using run i nonempty_if_block[OF i(1)] path_below_root(2)[OF i(1), of sha]
    by (simp add: verity_check_def hash_with_padding_eq[OF sha n] fsverity_walk_steps_eq num_blocks_def
        max_level_def del: upt_Suc path_msg.simps split: if_splits)
  moreover have "no_collision sha {m. \<exists>k n. trd k (zeros 4096) = Ok (n, m)}
      (path_msg sha c i ` {..Suc (max_level c)})"
    using no_collision_mono[OF sec Un_upper1] by (simp only: genuine_msgs_def)
  ultimately have eq: "sha (pad_block chunk) = sha (path_msg sha c i 0)"
    using verity_fold_sound[OF sha i(1) typed] by blast
  have "path_msg sha c i 0 \<in> genuine_msgs sha c i"
    unfolding genuine_msgs_def by (rule imageI) simp
  from no_collisionD[OF sec _ this eq] show ?thesis by simp
qed

lemma verified_new_trusts:
  assumes sha: "sha256_spec ffi sha" and sz: "file_sz < 2 ^ 64" "length c < 2 ^ 64"
    and new: "VerifiedFileReader_new ffi verify rd file_sz sig trd = Ok r"
    and signed: "\<forall>d. verify sig d = Ok True \<longrightarrow> d = formatted_digest sha c"
    and sec: "no_collision sha {fsverity_descriptor (vf_root_hash r) file_sz}
      {fsverity_descriptor (root_of sha c) (length c)}"
    and ne: "0 < length c"
  shows "r = \<lparr>vf_chunked_file = rd, vf_file_size = length c, vf_merkle_tree = trd,
    vf_root_hash = root_of sha c\<rparr>"
proof -
  have i: "0 < num_blocks c" using ne by (simp add: less_num_blocks_iff)
  from new obtain buf where r: "r = \<lparr>vf_chunked_file = rd, vf_file_size = file_sz,
      vf_merkle_tree = trd, vf_root_hash = sha buf\<rparr>"
    and v: "verify sig (FS_VERITY_MAGIC @ [1, 0, 32, 0] @ sha (fsverity_descriptor (sha buf) file_sz)) =
      Ok True"
    by (auto simp: VerifiedFileReader_new_def try_r_Ok_iff sha256_chain_eq[OF sha]
        build_fsverity_formatted_digest_eq[OF sha] split: if_splits)
  from signed v have "sha (fsverity_descriptor (sha buf) file_sz) =
      sha (fsverity_descriptor (root_of sha c) (length c))"
    by (auto simp: formatted_digest_def)
  with sec r have d: "fsverity_descriptor (sha buf) file_sz = fsverity_descriptor (root_of sha c) (length c)"
    by (simp add: no_collision_def)
  have "length (root_of sha c) = length (sha buf)"
    using path_below_root(2)[OF i, of sha] sha by (metis sha256_spec_length)
  with fsverity_descriptor_inj[OF d] sz r show ?thesis by simp
qed

section \<open>Properties\<close>

text \<open>C2: A non-empty file of up to 2 EiB whose chunks, Merkle tree and signature are served honestly can be
  opened, and the verified reader returns every chunk of the file: the walk finds each node of the
  tree in the tree file, every hash comparison succeeds and the computed root is the signed one.\<close>

theorem verified_reader_complete:
  assumes "sha256_spec ffi sha" "reads_blocks rd c" "reads_blocks trd (tree_file sha c)"
    and "0 < length c" "length c \<le> 2 ^ 61" "verify sig (formatted_digest sha c) = Ok True"
  shows "\<exists>r. VerifiedFileReader_new ffi verify rd (length c) sig trd = Ok r \<and>
    reads_blocks (VerifiedFileReader_read_chunk p ffi r) c"
  using verified_new_eq[OF assms(1,3,4,5)] verified_reader_reads[OF assms(1,2,3,5)] assms(6) by simp

theorem verified_reader_complete_witness:
  "\<exists>r. VerifiedFileReader_new sample_ffi (\<lambda>_ d. Ok (d = formatted_digest sample_sha (zeros 5000)))
      (LocalFileReader_read_chunk debug_profile mem_file
        \<lparr>lf_file = zeros 5000, lf_size = length (zeros 5000)\<rparr>)
      (length (zeros 5000)) []
      (LocalFileReader_read_chunk debug_profile mem_file
        \<lparr>lf_file = tree_file sample_sha (zeros 5000),
         lf_size = length (tree_file sample_sha (zeros 5000))\<rparr>) = Ok r \<and>
    reads_blocks (VerifiedFileReader_read_chunk debug_profile
      sample_ffi r) (zeros 5000)"
  by (rule verified_reader_complete[OF sample_sha256_spec])
    (rule local_file.within.reads_blocks_axioms | simp)+

text \<open>C1: Whatever the untrusted side serves as the file and as its Merkle tree, once a reader has
  been created from a signature that was only ever given for the digest of \<open>c\<close>, a successful read
  of a chunk of \<open>c\<close> returns the bytes of that chunk, up to zero padding. The hypothesis on the hash
  is that the messages hashed in this run are no second preimages of the genuine ones.\<close>

theorem verified_read_sound:
  assumes "sha256_spec ffi sha" "keeps_length rd" "keeps_length trd"
    and "\<forall>d. verify sig d = Ok True \<longrightarrow> d = formatted_digest sha c"
    and "VerifiedFileReader_new ffi verify rd file_sz sig trd = Ok r" "file_sz < 2 ^ 64"
    and "no_collision sha {fsverity_descriptor (vf_root_hash r) file_sz}
      {fsverity_descriptor (root_of sha c) (length c)}"
    and "no_collision sha (served_msgs rd trd i buf) (genuine_msgs sha c i)"
    and "i < num_blocks c" "length c \<le> 2 ^ 61" "length buf = CHUNK_SIZE"
    and "VerifiedFileReader_read_chunk p ffi r i buf = Ok (n, buf')"
  shows "pad_block (take n buf') = pad_block (block c i)"
proof -
  have r: "r = \<lparr>vf_chunked_file = rd, vf_file_size = length c, vf_merkle_tree = trd,
      vf_root_hash = root_of sha c\<rparr>"
    using verified_new_trusts[OF assms(1,6) _ assms(5,4,7) nonempty_if_block[OF assms(9)]] assms(10)
    by simp
  with assms(12) have rd: "rd i buf = Ok (n, buf')" and n: "n \<le> length buf'"
    and run: "verity_check p ffi (take n buf') i (length c) trd = Ok (root_of sha c)"
    by (auto simp: VerifiedFileReader_read_chunk_def try_r_Ok_iff split: if_splits)
  from rd assms(2,11) have "length buf' = CHUNK_SIZE" unfolding keeps_length_def by metis
  moreover have "no_collision sha ({m. \<exists>k n. trd k (zeros 4096) = Ok (n, m)} \<union> {pad_block (take n buf')})
      (genuine_msgs sha c i)"
    using rd by (intro no_collision_mono[OF assms(8)]) (auto simp: served_msgs_def)
  ultimately show ?thesis
    using verity_check_sound[OF assms(1,3,9,10) _ _ run] by simp
qed

text \<open>A file of one block that is its own tree page, for the witness.\<close>

definition sample_block :: bytes where
  "sample_block = replicate 32 1 @ zeros 4064"

definition sample_reader :: chunk_reader where
  "sample_reader k buf = (if length buf = 4096 \<and> k = 0 then Ok (4096, sample_block) else Err (Os EIO))"

lemma sample_block_simps:
  "length sample_block = 4096" "num_blocks sample_block = 1" "block sample_block 0 = sample_block"
  "pad_block sample_block = sample_block" "sample_sha sample_block = replicate 32 1"
  "page_bytes [replicate 32 1] = sample_block" "max_level sample_block = 0"
proof -
  have nz: "sample_block \<noteq> zeros 4096"
  proof
    assume "sample_block = zeros 4096"
    then have "hd sample_block = hd (zeros 4096)" by simp
    then show False by (simp add: sample_block_def)
  qed
  show len: "length sample_block = 4096" by (simp add: sample_block_def)
  show "num_blocks sample_block = 1" "block sample_block 0 = sample_block"
    "pad_block sample_block = sample_block" "max_level sample_block = 0"
    by (simp_all add: num_blocks_def len CHUNK_SIZE_def ceil_div_def block_def pad_block_def
        max_level_def max_level_of_def hash_pages_def log128_def bit_length.simps)
  show "sample_sha sample_block = replicate 32 1"
    using nz by (simp add: sample_sha_def) (simp add: sample_block_def)
  show "page_bytes [replicate 32 1] = sample_block"
    by (simp add: page_bytes_def sample_block_def HASH_SIZE_def)
qed

lemma sample_tree_level: "tree_level sample_sha sample_block x = [replicate 32 1]"
proof (induction x)
  case 0
  then show ?case
    by (simp add: tree_level_def leaves_of_def sample_block_simps)
next
  case (Suc x)
  then show ?case
    using sample_block_simps(5,6) by (simp add: tree_level_Suc next_level_def chunks_step hash_page_def page_bytes_def)
qed

lemma sample_level_pages: "level_pages sample_sha sample_block x = [sample_block]"
  by (simp add: level_pages_def sample_tree_level chunks_step sample_block_simps)

lemma sample_path_msg: "path_msg sample_sha sample_block 0 x = sample_block"
  by (cases x) (simp_all add: sample_level_pages sample_block_simps)

lemma sample_tree_file: "tree_file sample_sha sample_block = sample_block"
  by (simp add: tree_file_def tree_pages_def sample_level_pages sample_block_simps)

lemma sample_reads: "reads_blocks sample_reader sample_block"
  by unfold_locales
    (simp add: sample_reader_def sample_block_simps CHUNK_SIZE_def overwrite_def)

lemma sample_root: "root_of sample_sha sample_block = replicate 32 1"
  by (simp add: root_of_def sample_tree_level)

lemma sample_new:
  "VerifiedFileReader_new sample_ffi (\<lambda>_ d. Ok (d = formatted_digest sample_sha sample_block))
     sample_reader 4096 [] sample_reader =
   Ok \<lparr>vf_chunked_file = sample_reader, vf_file_size = 4096, vf_merkle_tree = sample_reader,
       vf_root_hash = replicate 32 1\<rparr>"
  using verified_new_eq[OF sample_sha256_spec, of sample_reader sample_block] sample_reads
  by (simp add: sample_block_simps sample_tree_file sample_root)

lemma sample_read:
  "VerifiedFileReader_read_chunk p sample_ffi
      \<lparr>vf_chunked_file = sample_reader, vf_file_size = 4096, vf_merkle_tree = sample_reader,
       vf_root_hash = replicate 32 1\<rparr> 0 (zeros 4096) = Ok (4096, sample_block)"
  using reads_blocks.read_within[OF verified_reader_reads[OF sample_sha256_spec sample_reads, of sample_reader],
      of 0 "zeros 4096"] sample_reads
  by (simp add: sample_block_simps sample_tree_file sample_root CHUNK_SIZE_def overwrite_def)

theorem verified_read_sound_witness:
  "VerifiedFileReader_read_chunk debug_profile sample_ffi
      \<lparr>vf_chunked_file = sample_reader, vf_file_size = 4096, vf_merkle_tree = sample_reader,
       vf_root_hash = replicate 32 1\<rparr> 0 (zeros 4096) = Ok (4096, sample_block) \<and>
   pad_block (take 4096 sample_block) = pad_block (block sample_block 0)"
proof (rule conjI[OF sample_read verified_read_sound[OF sample_sha256_spec _ _ _ sample_new _ _ _ _ _ _
        sample_read]])
qed (auto simp: keeps_length_def sample_reader_def sample_block_simps sample_root no_collision_def
    served_msgs_def genuine_msgs_def sample_path_msg CHUNK_SIZE_def split: if_splits)

text \<open>C7: For a file of more than one block the digest that \<open>MerkleLeaves\<close> computes while the file is
  written is the digest under which \<open>VerifiedFileReader\<close> accepts the file afterwards.\<close>

theorem builder_digest_accepted:
  assumes "sha256_spec ffi sha" "\<not> debug_assertions p" "1 < num_blocks c" "length c \<le> 2 ^ 61"
    and "reads_blocks trd (tree_file sha c)"
    and "MerkleLeaves_calculate_fsverity_digest p ffi (merkle_of sha c) = Ok d"
    and "verify sig (FS_VERITY_MAGIC @ [1, 0, 32, 0] @ d) = Ok True"
  shows "\<exists>r. VerifiedFileReader_new ffi verify rd (length c) sig trd = Ok r"
proof -
  have "merkle_root sha (leaves_of sha c) = root_of sha c"
    using merkle_root_levels(2)[of "leaves_of sha c" sha] assms(3)
    by (simp add: root_of_def tree_level_def max_level_def max_level_of_def hash_pages_def
        num_blocks_def ceil_div_ceil_div mult.commute)
  moreover have "MerkleLeaves_calculate_fsverity_digest p ffi (merkle_of sha c) = Ok (fsverity_digest sha c)"
    using assms(4) by (intro builder_digest_eq assms(1,2)) simp
  ultimately have "formatted_digest sha c = FS_VERITY_MAGIC @ [1, 0, 32, 0] @ d"
    using assms(6) by (simp add: formatted_digest_def fsverity_digest_def)
  with verified_new_eq[OF assms(1,5) nonempty_if_block[OF assms(3)] assms(4)] assms(7) show ?thesis
    by simp
qed

theorem builder_digest_accepted_witness:
  "\<exists>r. VerifiedFileReader_new sample_ffi
      (\<lambda>_ d. Ok (d = FS_VERITY_MAGIC @ [1, 0, 32, 0] @ fsverity_digest sample_sha (zeros 5000)))
      sample_reader (length (zeros 5000)) []
      (LocalFileReader_read_chunk debug_profile mem_file
        \<lparr>lf_file = tree_file sample_sha (zeros 5000),
         lf_size = length (tree_file sample_sha (zeros 5000))\<rparr>) = Ok r"
proof (rule builder_digest_accepted[OF sample_sha256_spec])
  show "reads_blocks (LocalFileReader_read_chunk debug_profile mem_file
        \<lparr>lf_file = tree_file sample_sha (zeros 5000),
         lf_size = length (tree_file sample_sha (zeros 5000))\<rparr>) (tree_file sample_sha (zeros 5000))"
    by (rule local_file.within.reads_blocks_axioms)
  show "MerkleLeaves_calculate_fsverity_digest release_profile
      sample_ffi (merkle_of sample_sha (zeros 5000)) = Ok (fsverity_digest sample_sha (zeros 5000))"
    by (rule builder_digest_eq[OF sample_sha256_spec]) simp_all
qed (simp_all add: num_blocks_def ceil_div_def CHUNK_SIZE_def)

end
