(* ===== verification/Editor_Tests.thy ===== *)
theory Editor_Tests
  imports Editor_Correct
begin

text \<open>
  The unit tests of \<open>authfs/src/fsverity/editor.rs\<close>. \<open>InMemoryEditor\<close> is the file the tests put under the editor; it
  meets the contract \<open>random_access_file\<close> unless it is told to fail, although, unlike what \<open>file.rs\<close> asks of a
  reader, it refuses to read beyond the end. A test is a list of parts, each with its own \<open>InMemoryEditor\<close>, and a
  part is the list of its statements: a \<open>test_step\<close> is a call of the editor with the assertion made of its
  result. A failed assertion is \<open>Panic\<close>, an error that \<open>?\<close> returns is \<open>Err\<close>: a test passes if its value is \<open>Ok ()\<close>.

  The expected digests are constants computed by other means. \<open>editor_test_iff\<close> says what a test checks: it passes
  exactly if the constants are the fs-verity digests of the contents that its writes and resizes describe. The
  tests of the error paths pass for every hash function without a collision at hand.
\<close>

section \<open>\<open>InMemoryEditor\<close>\<close>

record in_memory_editor =
  im_data :: bytes
  fail_read :: bool

definition InMemoryEditor_new :: in_memory_editor where
  "InMemoryEditor_new = \<lparr>im_data = [], fail_read = False\<rparr>"

definition InMemoryEditor_write_at ::
  "profile \<Rightarrow> in_memory_editor \<Rightarrow> bytes \<Rightarrow> nat \<Rightarrow> (io_error, nat) res \<times> in_memory_editor" where
  "InMemoryEditor_write_at p self buf begin' =
     and_then (uadd p 64 begin' (length buf), self) (\<lambda>end' self.
     let data = (if end' > length (im_data self) then vec_resize (im_data self) end' 0 else im_data self) in
     if begin' \<le> end' then
       (Ok (length buf), self\<lparr>im_data := take begin' data @ buf @ drop end' data\<rparr>)
     else (Panic, self\<lparr>im_data := data\<rparr>))"

definition InMemoryEditor_resize :: "in_memory_editor \<Rightarrow> nat \<Rightarrow> (io_error, unit) res \<times> in_memory_editor" where
  "InMemoryEditor_resize self n = (Ok (), self\<lparr>im_data := vec_resize (im_data self) n 0\<rparr>)"

definition InMemoryEditor_read_chunk :: "in_memory_editor \<Rightarrow> chunk_reader" where
  "InMemoryEditor_read_chunk self chunk_index buf =
     (if fail_read self then Err (Custom KindOther)
      else
        try_r (ok_or (Custom KindInvalidInput)
                 (if chunk_index < length (chunks CHUNK_SIZE (im_data self))
                  then Some (chunks CHUNK_SIZE (im_data self) ! chunk_index) else None)) (\<lambda>chunk.
        assert_r (length chunk \<le> length buf) (Ok (length chunk, overwrite buf chunk))))"

definition InMemoryEditor :: "profile \<Rightarrow> in_memory_editor backing_file" where
  "InMemoryEditor p =
     \<lparr>bf_read_chunk = InMemoryEditor_read_chunk, bf_write_at = InMemoryEditor_write_at p,
      bf_resize = InMemoryEditor_resize\<rparr>"

text \<open>The files that work and are below 8 EiB.\<close>

definition im_ok :: "in_memory_editor \<Rightarrow> bool" where
  "im_ok f \<longleftrightarrow> \<not> fail_read f \<and> length (im_data f) < 2 ^ 63"

lemma InMemoryEditor_reads:
  assumes "\<not> fail_read f"
  shows "reads_blocks (InMemoryEditor_read_chunk f) (im_data f)"
proof
  fix i and buf :: bytes
  assume "i < num_blocks (im_data f)" "length buf = CHUNK_SIZE"
  with assms show "InMemoryEditor_read_chunk f i buf =
      Ok (length (block (im_data f) i), overwrite buf (block (im_data f) i))"
    by (simp add: InMemoryEditor_read_chunk_def chunks_blocks)
qed

lemma InMemoryEditor_writes:
  assumes "off + length buf < 2 ^ 63" "buf \<noteq> []"
  shows "InMemoryEditor_write_at p f buf off = (Ok (length buf), f\<lparr>im_data := write_bytes (im_data f) off buf\<rparr>)"
proof -
  have fits: "off + length buf < 2 ^ 64" using assms(1) by simp
  have "take off (vec_resize (im_data f) (off + length buf) 0) = take off (im_data f @ zeros (off - length (im_data f)))"
    by (simp add: vec_resize_def)
  with fits assms(2) show ?thesis
    by (auto simp: InMemoryEditor_write_at_def uadd_ok write_bytes_def Let_def vec_resize_def)
qed

interpretation in_memory: random_access_file "InMemoryEditor p" im_data im_ok for p
proof unfold_locales
  fix f i and buf :: bytes
  assume "im_ok f" "i < num_blocks (im_data f)" "length (im_data f) < 2 ^ 63" "length buf = CHUNK_SIZE"
  with reads_blocks.read_within[OF InMemoryEditor_reads] show "bf_read_chunk (InMemoryEditor p) f i buf =
      Ok (length (block (im_data f) i), overwrite buf (block (im_data f) i))"
    by (simp add: InMemoryEditor_def im_ok_def)
next
  fix f off and buf :: bytes
  assume "im_ok f" "buf \<noteq> []" "off + length buf < 2 ^ 63" "length buf < 2 ^ 31"
  then show "\<exists>n f'. bf_write_at (InMemoryEditor p) f buf off = (Ok n, f') \<and> 0 < n \<and> n \<le> length buf \<and> im_ok f' \<and>
      im_data f' = write_bytes (im_data f) off (take n buf)"
    by (simp add: InMemoryEditor_def InMemoryEditor_writes im_ok_def length_write_bytes)
qed (simp_all add: InMemoryEditor_def InMemoryEditor_resize_def im_ok_def vec_resize_def resize_bytes_def)

section \<open>Tests\<close>

text \<open>\<open>u8::from_str_radix\<close> of two characters in base 16, and \<open>to_u8_vec\<close>.\<close>

definition hex_val :: "char \<Rightarrow> nat option" where
  "hex_val c =
     (let n = of_char c :: nat in
      if 48 \<le> n \<and> n \<le> 57 then Some (n - 48)
      else if 97 \<le> n \<and> n \<le> 102 then Some (n - 87)
      else if 65 \<le> n \<and> n \<le> 70 then Some (n - 55)
      else None)"

definition hex_byte :: "char \<Rightarrow> char \<Rightarrow> u8 option" where
  "hex_byte c d =
     (if c = CHR ''+'' then map_option of_nat (hex_val d)
      else case (hex_val c, hex_val d) of
        (Some a, Some b) \<Rightarrow> Some (of_nat (16 * a + b))
      | _ \<Rightarrow> None)"

fun hex_bytes :: "string \<Rightarrow> ('e, bytes) res" where
  "hex_bytes [] = Ok []"
| "hex_bytes [c] = Panic"
| "hex_bytes (c # d # cs) = try_r (unwrap (hex_byte c d)) (\<lambda>b. try_r (hex_bytes cs) (\<lambda>bs. Ok (b # bs)))"

definition to_u8_vec :: "string \<Rightarrow> ('e, bytes) res" where
  "to_u8_vec hex_str = assert_r (length hex_str mod 2 = 0) (hex_bytes hex_str)"

text \<open>The statements that occur in the tests: \<open>assert_eq!(file.write_at(buf, off)?, n)\<close>,
  \<open>assert!(file.write_at(buf, off).is_err())\<close>, \<open>assert!(file.resize(n).is_ok())\<close>, \<open>file.resize(n)?\<close>,
  \<open>assert!(file.resize(n).is_err())\<close>, \<open>assert_eq!(file.size(), n)\<close>,
  \<open>assert_eq!(file.calculate_fsverity_digest()?, to_u8_vec(hex))\<close>, and the block that replaces the hash of chunk \<open>i\<close>.\<close>

datatype test_step =
    AssertWrite bytes nat nat
  | AssertWriteFails bytes nat
  | AssertResizes nat
  | TryResize nat
  | AssertResizeFails nat
  | AssertSize nat
  | AssertDigest string
  | OverrideHash nat nat

definition assert_st :: "bool \<Rightarrow> 's \<Rightarrow> ('e, unit) res \<times> 's" where
  "assert_st b s = (if b then Ok () else Panic, s)"

fun assert_err :: "('e, 'a) res \<times> 's \<Rightarrow> ('f, unit) res \<times> 's" where
  "assert_err (Err e, s) = (Ok (), s)"
| "assert_err (Ok x, s) = (Panic, s)"
| "assert_err (Panic, s) = (Panic, s)"
| "assert_err (Hang, s) = (Hang, s)"

type_synonym test_file = "in_memory_editor verified_file_editor"

primrec run_step :: "profile \<Rightarrow> 'c sha256_ffi \<Rightarrow> test_file \<Rightarrow> test_step \<Rightarrow> (io_error, unit) res \<times> test_file" where
  "run_step p ffi s (AssertWrite buf off n) =
     and_then (VerifiedFileEditor_write_at p ffi (InMemoryEditor p) s buf off) (\<lambda>k s. assert_st (k = n) s)"
| "run_step p ffi s (AssertWriteFails buf off) =
     assert_err (VerifiedFileEditor_write_at p ffi (InMemoryEditor p) s buf off)"
| "run_step p ffi s (AssertResizes n) = expect_st (VerifiedFileEditor_resize p ffi (InMemoryEditor p) s n)"
| "run_step p ffi s (TryResize n) = VerifiedFileEditor_resize p ffi (InMemoryEditor p) s n"
| "run_step p ffi s (AssertResizeFails n) = assert_err (VerifiedFileEditor_resize p ffi (InMemoryEditor p) s n)"
| "run_step p ffi s (AssertSize n) = assert_st (VerifiedFileEditor_size s = n) s"
| "run_step p ffi s (AssertDigest hex) =
     and_then (VerifiedFileEditor_calculate_fsverity_digest p ffi s, s) (\<lambda>d s.
     and_then (to_u8_vec hex, s) (\<lambda>v s. assert_st (d = v) s))"
| "run_step p ffi s (OverrideHash i n) =
     and_then (MerkleLeaves_update_hash p (ed_merkle_tree s) i (replicate HASH_SIZE 42) n, s) (\<lambda>tree s.
     (Ok (), s\<lparr>ed_merkle_tree := tree\<rparr>))"

primrec run_steps :: "profile \<Rightarrow> 'c sha256_ffi \<Rightarrow> test_file \<Rightarrow> test_step list \<Rightarrow> (io_error, unit) res" where
  "run_steps p ffi s [] = Ok ()"
| "run_steps p ffi s (x # xs) =
     (case run_step p ffi s x of (r, s) \<Rightarrow> try_r r (\<lambda>_. run_steps p ffi s xs))"

type_synonym editor_test = "(in_memory_editor \<times> test_step list) list"

primrec run_test :: "profile \<Rightarrow> 'c sha256_ffi \<Rightarrow> editor_test \<Rightarrow> (io_error, unit) res" where
  "run_test p ffi [] = Ok ()"
| "run_test p ffi (x # xs) =
     try_r (run_steps p ffi (VerifiedFileEditor_new (fst x)) (snd x)) (\<lambda>_. run_test p ffi xs)"

section \<open>The tests\<close>

text \<open>\<open>[v; n]\<close>.\<close>

abbreviation fill :: "nat \<Rightarrow> nat \<Rightarrow> bytes" where
  "fill v n \<equiv> replicate n (of_nat v)"

definition test_writer :: "profile \<Rightarrow> (io_error, unit) res" where
  "test_writer p =
     (let writer = InMemoryEditor_new; buf = fill 1 4096 in
      fst (and_then (assert_st (length (im_data writer) = 0) writer) (\<lambda>_ writer.
           and_then (InMemoryEditor_write_at p writer buf 16384) (\<lambda>n writer.
           and_then (assert_st (n = 4096) writer) (\<lambda>_ writer.
           and_then (slice (im_data writer) 16384 (16384 + 4096), writer) (\<lambda>part writer.
           and_then (assert_st (part = buf) writer) (\<lambda>_ writer.
           and_then (InMemoryEditor_write_at p writer buf 2048) (\<lambda>n writer.
           and_then (assert_st (n = 4096) writer) (\<lambda>_ writer.
           and_then (slice (im_data writer) 2048 (2048 + 4096), writer) (\<lambda>part writer.
           and_then (assert_st (part = buf) writer) (\<lambda>_ writer.
           assert_st (length (im_data writer) = 16384 + 4096) writer)))))))))))"

definition test_verified_writer_no_write :: editor_test where
  "test_verified_writer_no_write =
     [(InMemoryEditor_new,
       [AssertDigest ''3d248ca542a24fc62d1c43b916eae5016878e2533c88238480b26128a1f1af95''])]"

definition test_verified_writer_from_zero :: editor_test where
  "test_verified_writer_from_zero =
     [(InMemoryEditor_new,
       [AssertWrite (fill 1 4096) 0 4096,
        AssertDigest ''cd0875ca59c7d37e962c5e8f5acd3770750ac80225e2df652ce5672fd34500af'']),
      (InMemoryEditor_new,
       [AssertWrite (fill 1 4097) 0 4097,
        AssertDigest ''2901b849fda2d91e3929524561c4a47e77bb64734319759507b2029f18b9cc52'']),
      (InMemoryEditor_new,
       [AssertWrite (fill 1 10000) 0 10000,
        AssertDigest ''7545409b556071554d18973a29b96409588c7cda4edd00d5586b27a11e1a523b''])]"

definition test_verified_writer_unaligned :: editor_test where
  "test_verified_writer_unaligned =
     [(InMemoryEditor_new,
       [AssertWrite (fill 1 5) 3 5,
        AssertDigest ''a23fc5130d3d7b3323fc4b4a5e79d5d3e9ddf3a3f5872639e867713512c6702f'']),
      (InMemoryEditor_new,
       [AssertWrite (fill 1 6000) 4000 6000,
        AssertDigest ''d16d4c1c186d757e646f76208b21254f50d7f07ea07b1505ff48b2a6f603f989''])]"

definition test_verified_writer_with_hole :: editor_test where
  "test_verified_writer_with_hole =
     [(InMemoryEditor_new,
       [AssertWrite (fill 1 4096) 4096 4096,
        AssertDigest ''4df2aefd8c2a9101d1d8770dca3ede418232eabce766bb8e020395eae2e97103'']),
      (InMemoryEditor_new,
       [AssertWrite (fill 1 5000) 6000 5000,
        AssertDigest ''47d5da26f6934484e260630a69eb2eebb21b48f69bc8fbf8486d1694b7dba94f'']),
      (InMemoryEditor_new,
       [AssertWrite (fill 1 5) 16381 5,
        AssertDigest ''8bd118821fb4aff26bb4b51d485cc481a093c68131b7f4f112e9546198449752''])]"

definition test_verified_writer_various_writes :: editor_test where
  "test_verified_writer_various_writes =
     [(InMemoryEditor_new,
       [AssertWrite (fill 1 2048) 0 2048,
        AssertWrite (fill 1 2048) (4096 + 2048) 2048,
        AssertDigest ''4c433d8640c888b629dc673d318cbb8d93b1eebcc784d9353e07f09f0dcfe707'',
        AssertWrite (fill 1 2048) 2048 2048,
        AssertWrite (fill 1 2048) 4096 2048,
        AssertDigest ''2a476d58eb80394052a3a783111e1458ac3ecf68a7878183fed86ca0ff47ec0d'',
        AssertWrite (fill 0 2048) 2048 2048,
        AssertWrite (fill 0 2048) 4096 2048,
        AssertDigest ''4c433d8640c888b629dc673d318cbb8d93b1eebcc784d9353e07f09f0dcfe707'',
        AssertWrite (fill 1 4096) 2048 4096,
        AssertDigest ''2a476d58eb80394052a3a783111e1458ac3ecf68a7878183fed86ca0ff47ec0d'',
        AssertWrite (fill 1 2048) 8192 2048,
        AssertWrite (fill 1 2048) (8192 + 2048) 2048,
        AssertDigest ''23cbac08371e6ee838ebcc7ae6512b939d2226e802337be7b383c3e046047d24''])]"

definition test_verified_writer_inconsistent_read :: editor_test where
  "test_verified_writer_inconsistent_read =
     [(InMemoryEditor_new,
       [AssertWrite (fill 1 8192) 0 8192,
        OverrideHash 0 8192,
        AssertWriteFails (fill 1 1) 2048,
        AssertWrite (fill 1 4096) 4096 4096,
        OverrideHash 1 8192,
        AssertWrite (fill 10 8000) 0 4096,
        AssertWriteFails (fill 10 (8000 - 4096)) 4096])]"

definition test_verified_writer_failed_read_back :: editor_test where
  "test_verified_writer_failed_read_back =
     [(InMemoryEditor_new\<lparr>fail_read := True\<rparr>,
       [AssertWrite (fill 1 8192) 0 8192,
        AssertWriteFails (fill 1 1) 2048])]"

definition test_resize_to_same_size :: editor_test where
  "test_resize_to_same_size =
     [(InMemoryEditor_new,
       [AssertWrite (fill 1 2048) 0 2048,
        AssertResizes 2048,
        AssertSize 2048,
        AssertDigest ''fef1b4f19bb7a2cd944d7cdee44d1accb12726389ca5b0f61ac0f548ae40876f''])]"

definition test_resize_to_grow :: editor_test where
  "test_resize_to_grow =
     [(InMemoryEditor_new,
       [AssertWrite (fill 1 2048) 0 2048,
        AssertResizes 4096,
        AssertSize 4096,
        AssertDigest ''9e0e2745c21e4e74065240936d2047340d96a466680c3c9d177b82433e7a0bb1''])]"

definition test_resize_to_shrink :: editor_test where
  "test_resize_to_shrink =
     [(InMemoryEditor_new,
       [AssertWrite (fill 1 4096) 0 4096,
        TryResize 2048,
        AssertSize 2048,
        AssertDigest ''fef1b4f19bb7a2cd944d7cdee44d1accb12726389ca5b0f61ac0f548ae40876f''])]"

definition test_resize_to_shrink_with_read_failure :: editor_test where
  "test_resize_to_shrink_with_read_failure =
     [(InMemoryEditor_new\<lparr>fail_read := True\<rparr>,
       [AssertWrite (fill 1 4096) 0 4096,
        AssertResizeFails 2048])]"

definition test_resize_to_shirink_to_chunk_boundary :: editor_test where
  "test_resize_to_shirink_to_chunk_boundary =
     [(InMemoryEditor_new\<lparr>fail_read := True\<rparr>,
       [AssertWrite (fill 1 8192) 0 8192,
        TryResize 4096,
        AssertSize 4096,
        AssertDigest ''cd0875ca59c7d37e962c5e8f5acd3770750ac80225e2df652ce5672fd34500af''])]"

section \<open>What a test checks\<close>

text \<open>The quoted digest is the one of the content.\<close>

definition quoted :: "(bytes \<Rightarrow> hash) \<Rightarrow> string \<times> bytes \<Rightarrow> bool" where
  "quoted sha row \<longleftrightarrow> to_u8_vec (fst row) = (Ok (fsverity_digest sha (snd row)) :: (io_error, bytes) res)"

fun steps_hold :: "(bytes \<Rightarrow> hash) \<Rightarrow> bytes \<Rightarrow> test_step list \<Rightarrow> bool" where
  "steps_hold sha c [] \<longleftrightarrow> True"
| "steps_hold sha c (AssertWrite buf off n # xs) \<longleftrightarrow> n = length buf \<and> steps_hold sha (write_bytes c off buf) xs"
| "steps_hold sha c (AssertResizes n # xs) \<longleftrightarrow> steps_hold sha (resize_bytes c n) xs"
| "steps_hold sha c (TryResize n # xs) \<longleftrightarrow> steps_hold sha (resize_bytes c n) xs"
| "steps_hold sha c (AssertSize n # xs) \<longleftrightarrow> n = length c \<and> steps_hold sha c xs"
| "steps_hold sha c (AssertDigest hex # xs) \<longleftrightarrow> quoted sha (hex, c) \<and> steps_hold sha c xs"
| "steps_hold sha c (_ # xs) \<longleftrightarrow> False"

text \<open>The steps that have a meaning on the content alone.\<close>

primrec step_fits :: "test_step \<Rightarrow> bool" where
  "step_fits (AssertWrite buf off n) \<longleftrightarrow> off + length buf < 2 ^ 63"
| "step_fits (AssertWriteFails buf off) \<longleftrightarrow> off + length buf < 2 ^ 63"
| "step_fits (AssertResizes n) \<longleftrightarrow> n < 2 ^ 63"
| "step_fits (TryResize n) \<longleftrightarrow> n < 2 ^ 63"
| "step_fits (AssertResizeFails n) \<longleftrightarrow> n < 2 ^ 63"
| "step_fits (AssertSize n) \<longleftrightarrow> True"
| "step_fits (AssertDigest hex) \<longleftrightarrow> True"
| "step_fits (OverrideHash i n) \<longleftrightarrow> False"

lemma editor_digest_eq:
  assumes "sha256_spec ffi sha" "\<not> debug_assertions p" "editor_inv sha im_data im_ok s"
  shows "VerifiedFileEditor_calculate_fsverity_digest p ffi s = Ok (fsverity_digest sha (im_data (ed_file s)))"
proof -
  have "length (im_data (ed_file s)) < 2 ^ 63" using assms(3) by (simp add: editor_inv_def im_ok_def)
  from builder_digest_eq[OF assms(1,2) this] assms(3) show ?thesis
    by (simp add: VerifiedFileEditor_calculate_fsverity_digest_def editor_inv_def)
qed

lemma run_steps_iff:
  assumes sha: "sha256_spec ffi sha" and p: "\<not> debug_assertions p"
  shows "editor_inv sha im_data im_ok s \<Longrightarrow> list_all step_fits steps \<Longrightarrow>
    run_steps p ffi s steps = Ok () \<longleftrightarrow> steps_hold sha (im_data (ed_file s)) steps"
proof (induction steps arbitrary: s)
  case (Cons x xs)
  let ?c = "im_data (ed_file s)"
  have xs: "list_all step_fits xs" using Cons.prems(2) by simp
  note IH = Cons.IH[OF _ xs]
  have writes: "\<exists>s'. VerifiedFileEditor_write_at p ffi (InMemoryEditor p) s buf off = (Ok (length buf), s') \<and>
      editor_inv sha im_data im_ok s' \<and> im_data (ed_file s') = write_bytes ?c off buf" if "off + length buf < 2 ^ 63" for buf off
    by (rule in_memory.editor_write_at_ok[OF sha Cons.prems(1) that])
  have resizes: "\<exists>s'. VerifiedFileEditor_resize p ffi (InMemoryEditor p) s n = (Ok (), s') \<and>
      editor_inv sha im_data im_ok s' \<and> im_data (ed_file s') = resize_bytes ?c n" if "n < 2 ^ 63" for n
    by (rule in_memory.editor_resize_ok[OF sha Cons.prems(1) that])
  show ?case
  proof (cases x)
    case (AssertWrite buf off n)
    with Cons.prems(2) writes[of off buf] IH show ?thesis by (auto simp: assert_st_def split: if_splits)
  next
    case (AssertWriteFails buf off)
    with Cons.prems(2) writes[of off buf] show ?thesis by auto
  next
    case (AssertResizes n)
    with Cons.prems(2) resizes[of n] IH show ?thesis by (auto simp: expect_st_def)
  next
    case (TryResize n)
    with Cons.prems(2) resizes[of n] IH show ?thesis by auto
  next
    case (AssertResizeFails n)
    with Cons.prems(2) resizes[of n] show ?thesis by auto
  next
    case (AssertSize n)
    with Cons.prems IH show ?thesis
      by (auto simp: assert_st_def VerifiedFileEditor_size_def MerkleLeaves_file_size_def editor_inv_def merkle_of_def
          split: if_splits)
  next
    case (AssertDigest hex)
    with IH[OF Cons.prems(1)] show ?thesis
      by (cases "to_u8_vec hex :: (io_error, bytes) res")
        (auto simp: editor_digest_eq[OF sha p Cons.prems(1)] assert_st_def quoted_def split: if_splits)
  next
    case (OverrideHash i n)
    with Cons.prems(2) show ?thesis by simp
  qed
qed simp

lemma new_file_inv: "editor_inv sha im_data im_ok (VerifiedFileEditor_new InMemoryEditor_new)"
  by (rule in_memory.new_editor_inv) (simp_all add: InMemoryEditor_new_def im_ok_def)

text \<open>A test on files that work.\<close>

lemma editor_test_iff:
  assumes "sha256_spec ffi sha" "\<not> debug_assertions p"
    and "list_all (\<lambda>(f, steps). f = InMemoryEditor_new \<and> list_all step_fits steps) test"
  shows "run_test p ffi test = Ok () \<longleftrightarrow> list_all (\<lambda>(f, steps). steps_hold sha [] steps) test"
  using assms(3)
proof (induction test)
  case (Cons x xs)
  obtain steps where x: "x = (InMemoryEditor_new, steps)" "list_all step_fits steps"
    using Cons.prems by (cases x) auto
  have "run_steps p ffi (VerifiedFileEditor_new InMemoryEditor_new) steps = Ok () \<longleftrightarrow> steps_hold sha [] steps"
    using run_steps_iff[OF assms(1,2) new_file_inv x(2)] by (simp add: VerifiedFileEditor_new_def InMemoryEditor_new_def)
  with Cons x show ?case
    by (cases "run_steps p ffi (VerifiedFileEditor_new InMemoryEditor_new) steps") auto
qed simp

lemma test_writer_passes: "test_writer p = Ok ()"
proof -
  have w: "InMemoryEditor_write_at p f (replicate 4096 1) off =
      (Ok 4096, f\<lparr>im_data := write_bytes (im_data f) off (replicate 4096 1)\<rparr>)" if "off \<le> 16384" for f off
    using InMemoryEditor_writes[of off "replicate 4096 1" p f] that by simp
  show ?thesis
    by (simp add: test_writer_def InMemoryEditor_new_def assert_st_def w slice_def write_bytes_def Let_def)
qed

section \<open>The digests the tests quote\<close>

definition digest_table :: "(string \<times> bytes) list" where
  "digest_table =
     [(''3d248ca542a24fc62d1c43b916eae5016878e2533c88238480b26128a1f1af95'', []),
      (''cd0875ca59c7d37e962c5e8f5acd3770750ac80225e2df652ce5672fd34500af'', fill 1 4096),
      (''2901b849fda2d91e3929524561c4a47e77bb64734319759507b2029f18b9cc52'', fill 1 4097),
      (''7545409b556071554d18973a29b96409588c7cda4edd00d5586b27a11e1a523b'', fill 1 10000),
      (''a23fc5130d3d7b3323fc4b4a5e79d5d3e9ddf3a3f5872639e867713512c6702f'', fill 0 3 @ fill 1 5),
      (''d16d4c1c186d757e646f76208b21254f50d7f07ea07b1505ff48b2a6f603f989'', fill 0 4000 @ fill 1 6000),
      (''4df2aefd8c2a9101d1d8770dca3ede418232eabce766bb8e020395eae2e97103'', fill 0 4096 @ fill 1 4096),
      (''47d5da26f6934484e260630a69eb2eebb21b48f69bc8fbf8486d1694b7dba94f'', fill 0 6000 @ fill 1 5000),
      (''8bd118821fb4aff26bb4b51d485cc481a093c68131b7f4f112e9546198449752'', fill 0 16381 @ fill 1 5),
      (''4c433d8640c888b629dc673d318cbb8d93b1eebcc784d9353e07f09f0dcfe707'', fill 1 2048 @ fill 0 4096 @ fill 1 2048),
      (''2a476d58eb80394052a3a783111e1458ac3ecf68a7878183fed86ca0ff47ec0d'', fill 1 8192),
      (''23cbac08371e6ee838ebcc7ae6512b939d2226e802337be7b383c3e046047d24'', fill 1 12288),
      (''fef1b4f19bb7a2cd944d7cdee44d1accb12726389ca5b0f61ac0f548ae40876f'', fill 1 2048),
      (''9e0e2745c21e4e74065240936d2047340d96a466680c3c9d177b82433e7a0bb1'', fill 1 2048 @ fill 0 2048)]"

definition digest_tests :: "editor_test list" where
  "digest_tests =
     [test_verified_writer_no_write, test_verified_writer_from_zero, test_verified_writer_unaligned,
      test_verified_writer_with_hole, test_verified_writer_various_writes, test_resize_to_same_size,
      test_resize_to_grow, test_resize_to_shrink]"

lemmas digest_test_defs = test_verified_writer_no_write_def test_verified_writer_from_zero_def
  test_verified_writer_unaligned_def test_verified_writer_with_hole_def test_verified_writer_various_writes_def
  test_resize_to_same_size_def test_resize_to_grow_def test_resize_to_shrink_def

text \<open>Two runs of the same byte.\<close>

lemma replicate_merge: "replicate m x @ replicate n x = replicate (m + n) x"
  "replicate m x @ replicate n x @ ys = replicate (m + n) x @ ys"
  by (simp_all add: replicate_add)

text \<open>The contents after the writes of \<open>test_verified_writer_various_writes\<close>.\<close>

lemma various_contents:
  "write_bytes [] 0 (fill 1 2048) = fill 1 2048"
  "write_bytes (fill 1 2048) (4096 + 2048) (fill 1 2048) = fill 1 2048 @ fill 0 4096 @ fill 1 2048"
  "write_bytes (fill 1 2048 @ fill 0 4096 @ fill 1 2048) 2048 (fill 1 2048) = fill 1 4096 @ fill 0 2048 @ fill 1 2048"
  "write_bytes (fill 1 4096 @ fill 0 2048 @ fill 1 2048) 4096 (fill 1 2048) = fill 1 8192"
  "write_bytes (fill 1 8192) 2048 (fill 0 2048) = fill 1 2048 @ fill 0 2048 @ fill 1 4096"
  "write_bytes (fill 1 2048 @ fill 0 2048 @ fill 1 4096) 4096 (fill 0 2048) = fill 1 2048 @ fill 0 4096 @ fill 1 2048"
  "write_bytes (fill 1 2048 @ fill 0 4096 @ fill 1 2048) 2048 (fill 1 4096) = fill 1 8192"
  "write_bytes (fill 1 8192) 8192 (fill 1 2048) = fill 1 10240"
  "write_bytes (fill 1 10240) (8192 + 2048) (fill 1 2048) = fill 1 12288"
  by (simp_all add: write_bytes_def replicate_merge)

lemma test_holds:
  "list_all (\<lambda>(f, steps). steps_hold sha [] steps) test_verified_writer_no_write \<longleftrightarrow> quoted sha (digest_table ! 0)"
  "list_all (\<lambda>(f, steps). steps_hold sha [] steps) test_verified_writer_from_zero \<longleftrightarrow>
   quoted sha (digest_table ! 1) \<and> quoted sha (digest_table ! 2) \<and> quoted sha (digest_table ! 3)"
  "list_all (\<lambda>(f, steps). steps_hold sha [] steps) test_verified_writer_unaligned \<longleftrightarrow>
   quoted sha (digest_table ! 4) \<and> quoted sha (digest_table ! 5)"
  "list_all (\<lambda>(f, steps). steps_hold sha [] steps) test_verified_writer_with_hole \<longleftrightarrow>
   quoted sha (digest_table ! 6) \<and> quoted sha (digest_table ! 7) \<and> quoted sha (digest_table ! 8)"
  "list_all (\<lambda>(f, steps). steps_hold sha [] steps) test_resize_to_same_size \<longleftrightarrow> quoted sha (digest_table ! 12)"
  "list_all (\<lambda>(f, steps). steps_hold sha [] steps) test_resize_to_grow \<longleftrightarrow> quoted sha (digest_table ! 13)"
  "list_all (\<lambda>(f, steps). steps_hold sha [] steps) test_resize_to_shrink \<longleftrightarrow> quoted sha (digest_table ! 12)"
  by (simp_all add: digest_test_defs digest_table_def write_bytes_def resize_bytes_def)

lemma various_writes_hold:
  "list_all (\<lambda>(f, steps). steps_hold sha [] steps) test_verified_writer_various_writes \<longleftrightarrow>
   quoted sha (digest_table ! 9) \<and> quoted sha (digest_table ! 10) \<and> quoted sha (digest_table ! 11)"
proof -
  have rows: "digest_table ! 9 =
      (''4c433d8640c888b629dc673d318cbb8d93b1eebcc784d9353e07f09f0dcfe707'', fill 1 2048 @ fill 0 4096 @ fill 1 2048)"
    "digest_table ! 10 = (''2a476d58eb80394052a3a783111e1458ac3ecf68a7878183fed86ca0ff47ec0d'', fill 1 8192)"
    "digest_table ! 11 = (''23cbac08371e6ee838ebcc7ae6512b939d2226e802337be7b383c3e046047d24'', fill 1 12288)"
    by (simp_all add: digest_table_def)
  show ?thesis
    unfolding test_verified_writer_various_writes_def rows
    by (simp only: list.pred_inject case_prod_conv steps_hold.simps various_contents length_replicate
        simp_thms) iprover
qed

lemma digest_tests_fit:
  "list_all (list_all (\<lambda>(f, steps). f = InMemoryEditor_new \<and> list_all step_fits steps)) digest_tests"
  by (simp add: digest_tests_def digest_test_defs)

section \<open>The tests of the error paths\<close>

lemma write_all_at_in_memory:
  assumes "off + length buf < 2 ^ 63" "buf \<noteq> []"
  shows "write_all_at p (InMemoryEditor p) f buf off = (Ok (), f\<lparr>im_data := write_bytes (im_data f) off buf\<rparr>)"
proof -
  have "write_all_at_loop p (InMemoryEditor p) buf g (length buf) j = Some (Ok (), g)" for g j
    by (subst write_all_at_loop.simps) simp
  moreover have "bf_write_at (InMemoryEditor p) f buf off = (Ok (length buf), f\<lparr>im_data := write_bytes (im_data f) off buf\<rparr>)"
    using InMemoryEditor_writes[OF assms] by (simp add: InMemoryEditor_def)
  ultimately have "write_all_at_loop p (InMemoryEditor p) buf f 0 off =
      Some (Ok (), f\<lparr>im_data := write_bytes (im_data f) off buf\<rparr>)"
    using assms by (subst write_all_at_loop.simps) (simp add: uadd_ok)
  then show ?thesis by (simp add: write_all_at_def)
qed

text \<open>A whole chunk is written without being read; its hash replaces a leaf or is a new one.\<close>

definition put_leaf :: "hash list \<Rightarrow> nat \<Rightarrow> hash \<Rightarrow> hash list" where
  "put_leaf ls i h = (if i < length ls then ls[i := h] else ls @ [h])"

lemma write_whole_chunk:
  assumes sha: "sha256_spec ffi sha" and rng: "off \<le> o'" "o' + 4096 \<le> off + length buf" "off + length buf < 2 ^ 63"
    and i: "o' div 4096 = i" "i \<le> length ls"
  defines "src \<equiv> take 4096 (drop (o' - off) buf)"
  shows "write_at_chunk p ffi (InMemoryEditor p) buf off \<lparr>ed_file = f, ed_merkle_tree = \<lparr>leaves = ls, file_size = n\<rparr>\<rparr> (o', 4096) =
    (Ok None, \<lparr>ed_file = f\<lparr>im_data := write_bytes (im_data f) o' src\<rparr>,
       ed_merkle_tree = \<lparr>leaves = put_leaf ls i (sha src), file_size = max n (off + length buf)\<rparr>\<rparr>)"
proof -
  have src: "length src = 4096" using rng by (simp add: src_def)
  then have fits: "o' + length src < 2 ^ 63" "src \<noteq> []" using rng by auto
  have i1: "i + 1 < 2 ^ 64" using i(1) rng by (auto intro: le_less_trans[OF div_le_dividend])
  have "(vec_resize ls (Suc i) HASH_OF_4096_ZEROS)[i := h] = ls @ [h]" if "\<not> i < length ls" for h
    using that i(2) by (simp add: vec_resize_def list_update_append)
  with rng i i1 show ?thesis
    by (auto simp add: write_at_chunk_eq[OF rng(1,2)] new_chunk_hash_def CHUNK_SIZE_def sha256_chain_eq[OF sha]
        write_all_at_in_memory[OF fits] MerkleLeaves_update_hash_def uadd_ok Let_def max_def put_leaf_def
        simp flip: src_def)
qed

text \<open>The file of two chunks of ones that most of these tests start from.\<close>

lemma write_ones:
  assumes "sha256_spec ffi sha" "im_data f = []"
  shows "VerifiedFileEditor_write_at p ffi (InMemoryEditor p) (VerifiedFileEditor_new f) (fill 1 8192) 0 =
      (Ok 8192, \<lparr>ed_file = f\<lparr>im_data := fill 1 8192\<rparr>,
        ed_merkle_tree = \<lparr>leaves = [sha (fill 1 4096), sha (fill 1 4096)], file_size = 8192\<rparr>\<rparr>)"
    "VerifiedFileEditor_write_at p ffi (InMemoryEditor p) (VerifiedFileEditor_new f) (fill 1 4096) 0 =
      (Ok 4096, \<lparr>ed_file = f\<lparr>im_data := fill 1 4096\<rparr>,
        ed_merkle_tree = \<lparr>leaves = [sha (fill 1 4096)], file_size = 4096\<rparr>\<rparr>)"
proof -
  have items: "chunk_items CHUNK_SIZE 0 8192 = [(0, 4096), (4096, 4096)]" "chunk_items CHUNK_SIZE 0 4096 = [(0, 4096)]"
    by (simp_all add: chunk_items_step CHUNK_SIZE_def)
  have bytes: "write_bytes [] 0 (fill 1 4096) = fill 1 4096" "write_bytes (fill 1 4096) 4096 (fill 1 4096) = fill 1 8192"
    by (simp_all add: write_bytes_def replicate_merge)
  note whole = write_whole_chunk[OF assms(1) _ _ _ refl]
  show "VerifiedFileEditor_write_at p ffi (InMemoryEditor p) (VerifiedFileEditor_new f) (fill 1 8192) 0 =
      (Ok 8192, \<lparr>ed_file = f\<lparr>im_data := fill 1 8192\<rparr>,
        ed_merkle_tree = \<lparr>leaves = [sha (fill 1 4096), sha (fill 1 4096)], file_size = 8192\<rparr>\<rparr>)"
    using bytes assms(2)
    by (simp add: VerifiedFileEditor_write_at_def write_at_loop_eq items VerifiedFileEditor_new_def MerkleLeaves_new_def
        whole put_leaf_def)
  show "VerifiedFileEditor_write_at p ffi (InMemoryEditor p) (VerifiedFileEditor_new f) (fill 1 4096) 0 =
      (Ok 4096, \<lparr>ed_file = f\<lparr>im_data := fill 1 4096\<rparr>,
        ed_merkle_tree = \<lparr>leaves = [sha (fill 1 4096)], file_size = 4096\<rparr>\<rparr>)"
    using bytes assms(2)
    by (simp add: VerifiedFileEditor_write_at_def write_at_loop_eq items VerifiedFileEditor_new_def MerkleLeaves_new_def
        whole put_leaf_def)
qed

text \<open>A part of a chunk whose old content cannot be read back, or not as expected, is not written.\<close>

lemma write_part_fails:
  assumes "off \<le> o'" "o' + k \<le> off + length buf" "off + length buf < 2 ^ 63" "k < 4096"
    and "original_chunk ffi ops s (o' div 4096) = Err e"
  shows "write_at_chunk p ffi ops buf off s (o', k) = (if off < o' then (Ok (Some (o' - off)), s) else (Err e, s))"
  using assms
  by (simp add: write_at_chunk_eq[OF assms(1,2)] new_chunk_hash_def new_hash_for_incomplete_write_def CHUNK_SIZE_def)

lemma original_chunk_unreadable:
  assumes "fail_read f" "i < length ls"
  shows "original_chunk ffi (InMemoryEditor p) \<lparr>ed_file = f, ed_merkle_tree = \<lparr>leaves = ls, file_size = n\<rparr>\<rparr> i = Err (Custom KindOther)"
  using assms
  by (simp add: original_chunk_def MerkleLeaves_is_index_valid_def VerifiedFileEditor_read_chunk_def InMemoryEditor_def
      InMemoryEditor_read_chunk_def)

lemma original_chunk_inconsistent:
  assumes "sha256_spec ffi sha" "\<not> fail_read f" "length (im_data f) < 2 ^ 63" "i < length ls" "i < num_blocks (im_data f)"
    and "ls ! i \<noteq> sha (pad_block (block (im_data f) i))"
  shows "original_chunk ffi (InMemoryEditor p) \<lparr>ed_file = f, ed_merkle_tree = \<lparr>leaves = ls, file_size = n\<rparr>\<rparr> i =
    Err (Custom KindInvalidData)"
  using assms reads_blocks.read_within_zeros[OF InMemoryEditor_reads assms(5,3)]
  by (simp add: original_chunk_def MerkleLeaves_is_index_valid_def MerkleLeaves_is_consistent_def
      VerifiedFileEditor_read_chunk_def InMemoryEditor_def sha256_chain_eq[OF assms(1)])

lemma small_items:
  "chunk_items CHUNK_SIZE 2048 (Suc 0) = [(2048, 1)]" "chunk_items CHUNK_SIZE 4096 4096 = [(4096, 4096)]"
  "chunk_items CHUNK_SIZE 0 8000 = [(0, 4096), (4096, 3904)]" "chunk_items CHUNK_SIZE 4096 3904 = [(4096, 3904)]"
  by (simp_all add: chunk_items_step CHUNK_SIZE_def)

lemma failed_read_back_passes:
  assumes "sha256_spec ffi sha"
  shows "run_test p ffi test_verified_writer_failed_read_back = Ok ()"
proof -
  let ?f = "InMemoryEditor_new\<lparr>fail_read := True\<rparr>"
  let ?s = "\<lparr>ed_file = ?f\<lparr>im_data := fill 1 8192\<rparr>,
    ed_merkle_tree = \<lparr>leaves = [sha (fill 1 4096), sha (fill 1 4096)], file_size = 8192\<rparr>\<rparr>"
  have "write_at_chunk p ffi (InMemoryEditor p) (fill 1 1) 2048 ?s (2048, 1) = (Err (Custom KindOther), ?s)"
    by (subst write_part_fails[OF _ _ _ _ original_chunk_unreadable]) simp_all
  then have "VerifiedFileEditor_write_at p ffi (InMemoryEditor p) ?s (fill 1 1) 2048 = (Err (Custom KindOther), ?s)"
    by (simp add: VerifiedFileEditor_write_at_def write_at_loop_eq small_items)
  moreover have "im_data ?f = []" by (simp add: InMemoryEditor_new_def)
  ultimately show ?thesis
    by (simp add: test_verified_writer_failed_read_back_def write_ones(1)[OF assms, simplified] assert_st_def)
qed

lemma shrink_with_read_failure_passes:
  assumes "sha256_spec ffi sha"
  shows "run_test p ffi test_resize_to_shrink_with_read_failure = Ok ()"
proof -
  let ?f = "InMemoryEditor_new\<lparr>fail_read := True\<rparr>"
  have "VerifiedFileEditor_resize p ffi (InMemoryEditor p) s 2048 = (Err (Custom KindOther), s)"
    if "fail_read (ed_file s)" "file_size (ed_merkle_tree s) = 4096" for s
    using that
    by (simp add: VerifiedFileEditor_resize_def MerkleLeaves_file_size_def resize_tail_hash_def
        VerifiedFileEditor_read_chunk_def InMemoryEditor_def InMemoryEditor_read_chunk_def CHUNK_SIZE_def Let_def)
  moreover have "im_data ?f = []" by (simp add: InMemoryEditor_new_def)
  ultimately show ?thesis
    by (simp add: test_resize_to_shrink_with_read_failure_def write_ones(2)[OF assms, simplified] assert_st_def)
qed

lemma shrink_to_chunk_boundary_iff:
  assumes "sha256_spec ffi sha" "\<not> debug_assertions p"
  shows "run_test p ffi test_resize_to_shirink_to_chunk_boundary = Ok () \<longleftrightarrow> quoted sha (digest_table ! 1)"
proof -
  let ?f = "InMemoryEditor_new\<lparr>fail_read := True\<rparr>"
  let ?s = "\<lparr>ed_file = ?f\<lparr>im_data := fill 1 8192\<rparr>,
    ed_merkle_tree = \<lparr>leaves = [sha (fill 1 4096), sha (fill 1 4096)], file_size = 8192\<rparr>\<rparr>"
  let ?s' = "\<lparr>ed_file = ?f\<lparr>im_data := fill 1 4096\<rparr>, ed_merkle_tree = merkle_of sha (fill 1 4096)\<rparr>"
  have tree: "merkle_of sha (fill 1 4096) = \<lparr>leaves = [sha (fill 1 4096)], file_size = 4096\<rparr>"
    by (simp add: merkle_of_def leaves_of_def num_blocks_def ceil_div_def CHUNK_SIZE_def block_def pad_block_def)
  have "VerifiedFileEditor_resize p ffi (InMemoryEditor p) ?s 4096 = (Ok (), ?s')"
    unfolding tree
    by (simp add: VerifiedFileEditor_resize_def MerkleLeaves_file_size_def InMemoryEditor_def InMemoryEditor_resize_def
        MerkleLeaves_resize_def CHUNK_SIZE_def divide_roundup_ok ceil_div_def vec_resize_def)
  moreover have "VerifiedFileEditor_calculate_fsverity_digest p ffi ?s' = Ok (fsverity_digest sha (fill 1 4096))"
    using builder_digest_eq[OF assms, of "fill 1 4096"] by (simp add: VerifiedFileEditor_calculate_fsverity_digest_def)
  moreover have "VerifiedFileEditor_size ?s' = 4096"
    by (simp add: VerifiedFileEditor_size_def MerkleLeaves_file_size_def merkle_of_def)
  moreover have "im_data ?f = []" by (simp add: InMemoryEditor_new_def)
  ultimately show ?thesis
    by (cases "to_u8_vec ''cd0875ca59c7d37e962c5e8f5acd3770750ac80225e2df652ce5672fd34500af'' :: (io_error, bytes) res")
      (auto simp: test_resize_to_shirink_to_chunk_boundary_def write_ones(1)[OF assms(1), simplified] assert_st_def quoted_def
        digest_table_def)
qed

lemma inconsistent_read_passes:
  assumes sha: "sha256_spec ffi sha" and ne: "sha (fill 1 4096) \<noteq> replicate HASH_SIZE 42"
  shows "run_test p ffi test_verified_writer_inconsistent_read = Ok ()"
proof -
  let ?h = "sha (fill 1 4096)" and ?x = "replicate HASH_SIZE 42 :: hash"
  let ?s = "\<lambda>d ls. \<lparr>ed_file = \<lparr>im_data = d, fail_read = False\<rparr>, ed_merkle_tree = \<lparr>leaves = ls, file_size = 8192\<rparr>\<rparr>"
  let ?c = "fill 1 8192" and ?d = "fill 10 4096 @ fill 1 4096" and ?ops = "InMemoryEditor p"
  have blocks: "pad_block (block ?c 0) = fill 1 4096" "pad_block (block ?c 1) = fill 1 4096"
    "pad_block (block ?d 1) = fill 1 4096" "num_blocks ?c = 2" "num_blocks ?d = 2"
    by (simp_all add: block_def pad_block_def CHUNK_SIZE_def num_blocks_def ceil_div_def)
  have bad: "original_chunk ffi ?ops (?s ?c [?x, ?h]) 0 = Err (Custom KindInvalidData)"
    "original_chunk ffi ?ops (?s ?d [g, ?x]) 1 = Err (Custom KindInvalidData)" for g
    using ne by (subst original_chunk_inconsistent[OF sha]; simp add: blocks[simplified])+
  have w1: "VerifiedFileEditor_write_at p ffi ?ops (?s ?c [?x, ?h]) (fill 1 1) 2048 = (Err (Custom KindInvalidData), ?s ?c [?x, ?h])"
    using write_part_fails[of 2048 2048 1 "fill 1 1" ffi ?ops "?s ?c [?x, ?h]" "Custom KindInvalidData" p] bad(1)
    by (simp add: VerifiedFileEditor_write_at_def write_at_loop_eq small_items)
  have w2: "VerifiedFileEditor_write_at p ffi ?ops (?s ?c [?x, ?h]) (fill 1 4096) 4096 = (Ok 4096, ?s ?c [?x, ?h])"
    by (simp add: VerifiedFileEditor_write_at_def write_at_loop_eq small_items write_whole_chunk[OF sha _ _ _ refl]
        put_leaf_def write_bytes_def replicate_merge)
  have part: "write_at_chunk p ffi ?ops (fill 10 8000) 0 (?s ?d [g, ?x]) (4096, 3904) = (Ok (Some 4096), ?s ?d [g, ?x])"
    "write_at_chunk p ffi ?ops (fill 10 3904) 4096 (?s ?d [g, ?x]) (4096, 3904) = (Err (Custom KindInvalidData), ?s ?d [g, ?x])" for g
    using write_part_fails[of 0 4096 3904 "fill 10 8000" ffi ?ops "?s ?d [g, ?x]" "Custom KindInvalidData" p]
      write_part_fails[of 4096 4096 3904 "fill 10 3904" ffi ?ops "?s ?d [g, ?x]" "Custom KindInvalidData" p] bad(2)
    by simp_all
  have w3: "VerifiedFileEditor_write_at p ffi ?ops (?s ?c [?x, ?x]) (fill 10 8000) 0 = (Ok 4096, ?s ?d [sha (fill 10 4096), ?x])"
    using part(1)
    by (simp add: VerifiedFileEditor_write_at_def write_at_loop_eq small_items write_whole_chunk[OF sha _ _ _ refl]
        put_leaf_def write_bytes_def)
  have w4: "VerifiedFileEditor_write_at p ffi ?ops (?s ?d [g, ?x]) (fill 10 (8000 - 4096)) 4096 =
      (Err (Custom KindInvalidData), ?s ?d [g, ?x])" for g
    using part(2) by (simp add: VerifiedFileEditor_write_at_def write_at_loop_eq small_items)
  have w0: "VerifiedFileEditor_write_at p ffi ?ops (VerifiedFileEditor_new InMemoryEditor_new) (fill 1 8192) 0 = (Ok 8192, ?s ?c [?h, ?h])"
    using write_ones(1)[OF sha, of InMemoryEditor_new p] by (simp add: InMemoryEditor_new_def)
  show ?thesis
    unfolding test_verified_writer_inconsistent_read_def
    by (simp add: w0[simplified] w1[simplified] w2[simplified] w3[simplified] w4[simplified] assert_st_def
        MerkleLeaves_update_hash_def uadd_ok Let_def)
qed

section \<open>All tests\<close>

definition editor_tests :: "editor_test list" where
  "editor_tests =
     digest_tests @
     [test_verified_writer_inconsistent_read, test_verified_writer_failed_read_back,
      test_resize_to_shrink_with_read_failure, test_resize_to_shirink_to_chunk_boundary]"

lemma digest_tests_iff:
  assumes "sha256_spec ffi sha" "\<not> debug_assertions p"
  shows "list_all (\<lambda>t. run_test p ffi t = Ok ()) digest_tests \<longleftrightarrow> list_all (quoted sha) digest_table"
proof -
  have "run_test p ffi t = Ok () \<longleftrightarrow> list_all (\<lambda>(f, steps). steps_hold sha [] steps) t" if "t \<in> set digest_tests" for t
    using digest_tests_fit that by (intro editor_test_iff[OF assms]) (auto simp: list_all_iff)
  then have "list_all (\<lambda>t. run_test p ffi t = Ok ()) digest_tests \<longleftrightarrow>
      list_all (list_all (\<lambda>(f, steps). steps_hold sha [] steps)) digest_tests"
    by (auto simp: list_all_iff)
  also have "\<dots> \<longleftrightarrow> list_all (\<lambda>i. quoted sha (digest_table ! i)) [0, 1, 2, 3, 4, 5, 6, 7, 8, 9, 10, 11, 12, 13]"
    by (simp add: digest_tests_def test_holds various_writes_hold) iprover
  also have "\<dots> \<longleftrightarrow> list_all (quoted sha) digest_table"
  proof -
    have "length digest_table = 14" "[0, 1, 2, 3, 4, 5, 6, 7, 8, 9, 10, 11, 12, 13] = [0..<14 :: nat]"
      by (simp add: digest_table_def) code_simp
    then show ?thesis by (simp only: list_all_length list_all_iff set_upt atLeastLessThan_iff) simp
  qed
  finally show ?thesis .
qed

text \<open>The unit tests of the editor, the error paths included, pass in a release build exactly if the digests they
  quote are the fs-verity digests of the fourteen contents in the table. In particular the digest after a series of small
  writes, of writes that are undone, or of resizes is the digest of the content they lead to.\<close>

lemma editor_tests_check_digests:
  assumes "sha256_spec ffi sha" "\<not> debug_assertions p" "sha (fill 1 4096) \<noteq> replicate HASH_SIZE 42"
  shows "list_all (\<lambda>t. run_test p ffi t = Ok ()) editor_tests \<longleftrightarrow> list_all (quoted sha) digest_table"
proof -
  have "list_all (quoted sha) digest_table \<Longrightarrow> quoted sha (digest_table ! 1)"
    by (rule list_all_length[THEN iffD1, rule_format]) (simp_all add: digest_table_def)
  with digest_tests_iff[OF assms(1,2)] show ?thesis
    by (auto simp: editor_tests_def inconsistent_read_passes[OF assms(1,3)] failed_read_back_passes[OF assms(1)]
        shrink_with_read_failure_passes[OF assms(1)] shrink_to_chunk_boundary_iff[OF assms(1,2)])
qed

lemma sample_editor_tests:
  "list_all (\<lambda>t. run_test release_profile sample_ffi t = Ok ()) editor_tests =
   list_all (quoted sample_sha) digest_table"
proof -
  have "sample_sha (fill 1 4096) \<noteq> replicate HASH_SIZE 42"
    by (simp add: sample_sha_def HASH_SIZE_def replicate_eq_replicate)
  from editor_tests_check_digests[OF sample_sha256_spec _ this, of release_profile] show ?thesis by simp
qed

end
