(* ===== verification/Authfs_Tests.thy ===== *)
theory Authfs_Tests
  imports Editor_Tests Verifier
begin

text \<open>
  The other unit tests of authfs: \<open>common.rs\<close>, \<open>crypto.rs\<close>, \<open>fsverity/builder.rs\<close>, \<open>file/local_file.rs\<close> and
  \<open>fsverity/verifier.rs\<close>. As in theory \<open>Editor_Tests\<close>, a test is a definition whose value is \<open>Ok ()\<close> if it passes,
  a failed assertion is \<open>Panic\<close>, and quoted digests are compared with the hash function at hand. The files under
  \<open>testdata\<close> are data: the tests open them through \<open>open_path\<close>, and pass for all contents of the right sizes whose
  Merkle trees are in the files beside them.
\<close>

section \<open>\<open>common.rs\<close>\<close>

definition collect_chunk_read_iter :: "profile \<Rightarrow> nat \<Rightarrow> nat \<Rightarrow> ('e, (nat \<times> nat) list) res" where
  "collect_chunk_read_iter p remaining' off =
     chunked_try_fold p (\<lambda>acc x. Ok (acc @ [x])) [] (ChunkedSizeIter_new remaining' off 4096)"

definition test_chunk_read_iter :: "profile \<Rightarrow> (io_error, unit) res" where
  "test_chunk_read_iter p =
     try_r (collect_chunk_read_iter p 4096 0) (\<lambda>v. assert_r (v = [(0, 4096)]) (
     try_r (collect_chunk_read_iter p 8192 0) (\<lambda>v. assert_r (v = [(0, 4096), (4096, 4096)]) (
     try_r (collect_chunk_read_iter p 8192 4096) (\<lambda>v. assert_r (v = [(4096, 4096), (8192, 4096)]) (
     try_r (collect_chunk_read_iter p 16384 1) (\<lambda>v.
       assert_r (v = [(1, 4095), (4096, 4096), (8192, 4096), (12288, 4096), (16384, 1)]) (
     try_r (collect_chunk_read_iter p 0 0) (\<lambda>v. assert_r (v = []) (
     try_r (collect_chunk_read_iter p 0 100) (\<lambda>v. assert_r (v = []) (Ok ()))))))))))))"

lemma try_fold_collect: "try_fold (\<lambda>acc x. Ok (acc @ [x])) acc xs = Ok (acc @ xs)"
  by (induction xs arbitrary: acc) simp_all

lemma collect_chunk_read_iter_eq:
  "off + r < 2 ^ 64 \<Longrightarrow> collect_chunk_read_iter p r off = Ok (chunk_items 4096 off r)"
  by (simp add: collect_chunk_read_iter_def chunked_try_fold_eq try_fold_collect)

lemma test_chunk_read_iter_passes: "test_chunk_read_iter p = Ok ()"
  by (simp add: test_chunk_read_iter_def collect_chunk_read_iter_eq chunk_items_step)

section \<open>\<open>crypto.rs\<close>\<close>

text \<open>\<open>format!("{:02x}", b)\<close>.\<close>

definition hex_digit :: "nat \<Rightarrow> char" where
  "hex_digit d = (if d < 10 then char_of (48 + d) else char_of (87 + d))"

definition to_hex_string :: "bytes \<Rightarrow> string" where
  "to_hex_string data = concat (map (\<lambda>b. [hex_digit (unat b div 16), hex_digit (unat b mod 16)]) data)"

definition verify_hash_values :: "'c sha256_ffi \<Rightarrow> (crypto_error, unit) res" where
  "verify_hash_values ffi =
     try_r (sha256_chain ffi [[]]) (\<lambda>hash.
     assert_r (to_hex_string hash = ''e3b0c44298fc1c149afbf4c8996fb92427ae41e4649b934ca495991b7852b855'') (
     try_r (sha256_chain ffi [[1], [2], [3]]) (\<lambda>hash.
     assert_r (to_hex_string hash = ''039058c6f2c0cb492c533b0a4d14ef77cc0f78abccced5287d84a1a2011cfb81'') (Ok ()))))"

definition sha256_of_4096_zeros :: "'c sha256_ffi \<Rightarrow> (crypto_error, unit) res" where
  "sha256_of_4096_zeros ffi =
     try_r (sha256_chain ffi [zeros 4096]) (\<lambda>hash. assert_r (hash = HASH_OF_4096_ZEROS) (Ok ()))"

lemma verify_hash_values_iff:
  "sha256_spec ffi sha \<Longrightarrow>
   verify_hash_values ffi = Ok () \<longleftrightarrow>
     to_hex_string (sha []) = ''e3b0c44298fc1c149afbf4c8996fb92427ae41e4649b934ca495991b7852b855'' \<and>
     to_hex_string (sha [1, 2, 3]) = ''039058c6f2c0cb492c533b0a4d14ef77cc0f78abccced5287d84a1a2011cfb81''"
  by (simp add: verify_hash_values_def sha256_chain_eq)

lemma sha256_of_4096_zeros_passes: "sha256_spec ffi sha \<Longrightarrow> sha256_of_4096_zeros ffi = Ok ()"
  by (simp add: sha256_of_4096_zeros_def sha256_chain_eq sha256_spec_zeros)

section \<open>\<open>fsverity/builder.rs\<close>\<close>

definition update_sequentially ::
  "profile \<Rightarrow> 'c sha256_ffi \<Rightarrow> merkle_leaves \<Rightarrow> nat \<times> bytes \<Rightarrow> (fsverity_error, merkle_leaves) res" where
  "update_sequentially p ffi tree item =
     (case item of (index, chunk) \<Rightarrow>
      try_r (usub p 64 CHUNK_SIZE (length chunk)) (\<lambda>padding.
      try_r (map_err UnexpectedCryptoError (sha256_chain ffi [chunk, zeros padding])) (\<lambda>hash.
      try_r (umul p 64 CHUNK_SIZE index) (\<lambda>start.
      try_r (uadd p 64 start (length chunk)) (\<lambda>size_at_least.
      MerkleLeaves_update_hash p tree index hash size_at_least)))))"

definition generate_fsverity_digest_sequentially ::
  "profile \<Rightarrow> 'c sha256_ffi \<Rightarrow> bytes \<Rightarrow> (fsverity_error, hash) res" where
  "generate_fsverity_digest_sequentially p ffi test_data =
     (let cs = chunks CHUNK_SIZE test_data in
      try_r (try_fold (update_sequentially p ffi) MerkleLeaves_new (zip [0..<length cs] cs)) (\<lambda>tree.
      MerkleLeaves_calculate_fsverity_digest p ffi tree))"

text \<open>\<open>assert_eq!(to_u8_vec(hex), digest?)\<close>.\<close>

definition assert_digest :: "string \<Rightarrow> (fsverity_error, hash) res \<Rightarrow> (fsverity_error, unit) res" where
  "assert_digest hex digest =
     try_r (to_u8_vec hex) (\<lambda>v. try_r digest (\<lambda>d. assert_r (v = d) (Ok ())))"

definition merkle_tree_empty_file :: "profile \<Rightarrow> 'c sha256_ffi \<Rightarrow> (fsverity_error, unit) res" where
  "merkle_tree_empty_file p ffi =
     assert_digest ''3d248ca542a24fc62d1c43b916eae5016878e2533c88238480b26128a1f1af95''
       (generate_fsverity_digest_sequentially p ffi [])"

definition merkle_tree_file_size_less_than_or_equal_to_4k :: "profile \<Rightarrow> 'c sha256_ffi \<Rightarrow> (fsverity_error, unit) res" where
  "merkle_tree_file_size_less_than_or_equal_to_4k p ffi =
     assert_digest ''cd0875ca59c7d37e962c5e8f5acd3770750ac80225e2df652ce5672fd34500af''
       (generate_fsverity_digest_sequentially p ffi (fill 1 4096))"

definition merkle_tree_more_sizes :: "profile \<Rightarrow> 'c sha256_ffi \<Rightarrow> (fsverity_error, unit) res" where
  "merkle_tree_more_sizes p ffi =
     try_r (assert_digest ''2901b849fda2d91e3929524561c4a47e77bb64734319759507b2029f18b9cc52''
              (generate_fsverity_digest_sequentially p ffi (fill 1 4097))) (\<lambda>_.
     try_r (assert_digest ''2a476d58eb80394052a3a783111e1458ac3ecf68a7878183fed86ca0ff47ec0d''
              (generate_fsverity_digest_sequentially p ffi (fill 1 8192))) (\<lambda>_.
     try_r (assert_digest ''26b7c190a34e19f420808ee7ec233b09fa6c34543b5a9d2950530114c205d14f''
              (generate_fsverity_digest_sequentially p ffi (fill 1 524288))) (\<lambda>_.
     assert_digest ''316835d9be1c95b5cd55d07ae7965d651689efad186e26cbf680e40b683a3262''
       (generate_fsverity_digest_sequentially p ffi (fill 1 524289)))))"

definition merkle_tree_non_sequential :: "profile \<Rightarrow> 'c sha256_ffi \<Rightarrow> (fsverity_error, unit) res" where
  "merkle_tree_non_sequential p ffi =
     try_r (map_err UnexpectedCryptoError (sha256_chain ffi [fill 1 CHUNK_SIZE])) (\<lambda>hash.
     try_r (MerkleLeaves_update_hash p MerkleLeaves_new 1 hash (CHUNK_SIZE * 2)) (\<lambda>tree.
     try_r (MerkleLeaves_update_hash p tree 3 hash (CHUNK_SIZE * 4)) (\<lambda>tree.
     try_r (MerkleLeaves_update_hash p tree 0 hash CHUNK_SIZE) (\<lambda>tree.
     try_r (MerkleLeaves_update_hash p tree 2 hash (CHUNK_SIZE * 3)) (\<lambda>tree.
     assert_digest ''7d3c0d2e1dc54230b20ed875f5f3a4bd3f9873df601936b3ca8127d4db3548f3''
       (MerkleLeaves_calculate_fsverity_digest p ffi tree))))))"

definition merkle_tree_grow_leaves :: "profile \<Rightarrow> (fsverity_error, unit) res" where
  "merkle_tree_grow_leaves p =
     try_r (MerkleLeaves_update_hash p MerkleLeaves_new 0 (fill 42 HASH_SIZE) CHUNK_SIZE) (\<lambda>tree.
     try_r (MerkleLeaves_resize p tree (4096 * 3 - 100)) (\<lambda>tree.
     assert_r (MerkleLeaves_is_index_valid tree 0) (
     assert_r (MerkleLeaves_is_index_valid tree 1) (
     assert_r (MerkleLeaves_is_index_valid tree 2) (
     assert_r (\<not> MerkleLeaves_is_index_valid tree 3) (
     assert_r (MerkleLeaves_is_consistent tree 1 HASH_OF_4096_ZEROS) (
     assert_r (MerkleLeaves_is_consistent tree 2 HASH_OF_4096_ZEROS) (Ok ()))))))))"

definition merkle_tree_shrink_leaves :: "profile \<Rightarrow> (fsverity_error, unit) res" where
  "merkle_tree_shrink_leaves p =
     try_r (MerkleLeaves_update_hash p MerkleLeaves_new 0 (fill 42 HASH_SIZE) CHUNK_SIZE) (\<lambda>tree.
     try_r (MerkleLeaves_update_hash p tree 0 (fill 42 HASH_SIZE) (CHUNK_SIZE * 3)) (\<lambda>tree.
     try_r (MerkleLeaves_resize p tree (CHUNK_SIZE * 2 - 100)) (\<lambda>tree.
     assert_r (MerkleLeaves_is_index_valid tree 0) (
     assert_r (MerkleLeaves_is_index_valid tree 1) (
     assert_r (\<not> MerkleLeaves_is_index_valid tree 2) (
     assert_r (MerkleLeaves_is_consistent tree 1 HASH_OF_4096_ZEROS) (Ok ())))))))"

lemma sequential_step:
  assumes sha: "sha256_spec ffi sha" and i: "i < num_blocks c" and len: "length c < 2 ^ 63"
  shows "update_sequentially p ffi (merkle_of sha (take (i * CHUNK_SIZE) c)) (i, block c i) =
    Ok (merkle_of sha (take (Suc i * CHUNK_SIZE) c))"
proof -
  let ?c = "take (i * CHUNK_SIZE) c" and ?b = "block c i" and ?off = "i * CHUNK_SIZE"
  have off: "?off < length c" using i by (simp add: less_num_blocks_iff)
  have w: "write_bytes ?c ?off ?b = take (Suc i * CHUNK_SIZE) c"
    using off by (simp add: write_bytes_def block_def take_add[of "?off" CHUNK_SIZE c, symmetric] add.commute[of CHUNK_SIZE])
  have "block (take (Suc i * CHUNK_SIZE) c) i = ?b"
    by (simp add: block_def drop_take)
  with w have h: "sha (pad_block ?b) = sha (pad_block (block (write_bytes ?c ?off ?b) (?off div CHUNK_SIZE)))"
    by simp
  have upd: "(MerkleLeaves_update_hash p (merkle_of sha ?c) i (sha (pad_block ?b)) (?off + length ?b) :: (fsverity_error, merkle_leaves) res) =
      Ok \<lparr>leaves = leaves_of sha (take (Suc i * CHUNK_SIZE) c), file_size = max (file_size (merkle_of sha ?c)) (?off + length ?b)\<rparr>"
    using update_hash_write[OF sha _ _ _ _ h, of "merkle_of sha ?c" p "?off + length ?b"] off len w
      block_in_range_nonempty[OF off]
    by (simp add: merkle_of_def)
  have "?off + length ?b = length (take (Suc i * CHUNK_SIZE) c)" using off by (auto simp: length_block)
  moreover have "(usub p 64 CHUNK_SIZE (length ?b) :: (fsverity_error, nat) res) = Ok (CHUNK_SIZE - length ?b)"
    by (rule usub_ok) (simp, simp add: CHUNK_SIZE_def)
  moreover have "?off + length ?b < 2 ^ 64" using off len by (simp add: length_block)
  ultimately show ?thesis
    using upd off len
    by (simp add: update_sequentially_def umul_ok uadd_ok sha256_chain_eq[OF sha] pad_block_def[symmetric]
        mult.commute[of CHUNK_SIZE] merkle_of_def)
qed

lemma sequential_fold:
  assumes "sha256_spec ffi sha" "length c < 2 ^ 63"
  shows "n \<le> num_blocks c \<Longrightarrow>
    try_fold (update_sequentially p ffi) MerkleLeaves_new (zip [0..<n] (map (block c) [0..<n])) =
    Ok (merkle_of sha (take (n * CHUNK_SIZE) c))"
proof (induction n)
  case 0
  then show ?case by (simp add: MerkleLeaves_new_def merkle_of_def leaves_of_def num_blocks_def)
next
  case (Suc n)
  with sequential_step[OF assms(1) _ assms(2), of n p] show ?case
    by (simp add: try_fold_append del: mult_Suc)
qed

text \<open>The digest of the blocks in order is the digest of the file.\<close>

lemma sequential_digest:
  assumes "sha256_spec ffi sha" "\<not> debug_assertions p" "length c < 2 ^ 63"
  shows "generate_fsverity_digest_sequentially p ffi c = Ok (fsverity_digest sha c)"
proof -
  have "take (num_blocks c * CHUNK_SIZE) c = c"
    using less_num_blocks_iff[of "num_blocks c" c] by simp
  with sequential_fold[OF assms(1,3), of "num_blocks c" p] builder_digest_eq[OF assms(1-3)] show ?thesis
    by (simp add: generate_fsverity_digest_sequentially_def chunks_blocks Let_def)
qed

lemma non_sequential_tree:
  "merkle_of sha (replicate 16384 1) =
   \<lparr>leaves = [sha (replicate 4096 1), sha (replicate 4096 1), sha (replicate 4096 1), sha (replicate 4096 1)], file_size = 16384\<rparr>"
proof -
  have "leaves_of sha (replicate 16384 1) = map (\<lambda>i. sha (replicate 4096 1)) [0..<4]"
    unfolding leaves_of_def
    by (rule map_cong) (simp_all add: num_blocks_def ceil_div_def CHUNK_SIZE_def block_def pad_block_def)
  moreover have "[0..<4 :: nat] = [0, 1, 2, 3]" by code_simp
  ultimately show ?thesis by (simp add: merkle_of_def)
qed

lemma hex_bytes_Ok: "hex_bytes h = (Ok v :: ('a, bytes) res) \<longleftrightarrow> hex_bytes h = (Ok v :: ('b, bytes) res)"
proof (induction h arbitrary: v rule: induct_list012)
  case (3 c d cs)
  then show ?case by (cases "hex_byte c d") (auto simp: try_r_Ok_iff)
qed simp_all

lemma to_u8_vec_quoted: "to_u8_vec hex = (Ok (fsverity_digest sha c) :: ('e, bytes) res) \<longleftrightarrow> quoted sha (hex, c)"
  using hex_bytes_Ok[of hex "fsverity_digest sha c"] by (auto simp: quoted_def to_u8_vec_def)

lemma assert_digest_iff:
  assumes "digest = Ok (fsverity_digest sha c)"
  shows "assert_digest hex digest = Ok () \<longleftrightarrow> quoted sha (hex, c)"
  unfolding to_u8_vec_quoted[where 'e = fsverity_error, symmetric]
  using assms by (cases "to_u8_vec hex :: (fsverity_error, bytes) res") (auto simp: assert_digest_def)

text \<open>The digests that the tests of the builder quote.\<close>

definition builder_table :: "(string \<times> bytes) list" where
  "builder_table =
     [(''3d248ca542a24fc62d1c43b916eae5016878e2533c88238480b26128a1f1af95'', []),
      (''cd0875ca59c7d37e962c5e8f5acd3770750ac80225e2df652ce5672fd34500af'', fill 1 4096),
      (''2901b849fda2d91e3929524561c4a47e77bb64734319759507b2029f18b9cc52'', fill 1 4097),
      (''2a476d58eb80394052a3a783111e1458ac3ecf68a7878183fed86ca0ff47ec0d'', fill 1 8192),
      (''26b7c190a34e19f420808ee7ec233b09fa6c34543b5a9d2950530114c205d14f'', fill 1 524288),
      (''316835d9be1c95b5cd55d07ae7965d651689efad186e26cbf680e40b683a3262'', fill 1 524289),
      (''7d3c0d2e1dc54230b20ed875f5f3a4bd3f9873df601936b3ca8127d4db3548f3'', fill 1 16384)]"

definition builder_tests :: "profile \<Rightarrow> 'c sha256_ffi \<Rightarrow> (fsverity_error, unit) res list" where
  "builder_tests p ffi =
     [merkle_tree_empty_file p ffi, merkle_tree_file_size_less_than_or_equal_to_4k p ffi, merkle_tree_more_sizes p ffi,
      merkle_tree_non_sequential p ffi, merkle_tree_grow_leaves p, merkle_tree_shrink_leaves p]"

lemma leaves_tests_pass: "merkle_tree_grow_leaves p = Ok ()" "merkle_tree_shrink_leaves p = Ok ()"
  by (simp_all add: merkle_tree_grow_leaves_def merkle_tree_shrink_leaves_def MerkleLeaves_update_hash_def
      MerkleLeaves_resize_def MerkleLeaves_new_def MerkleLeaves_is_index_valid_def MerkleLeaves_is_consistent_def
      divide_roundup_ok uadd_ok vec_resize_def CHUNK_SIZE_def ceil_div_def Let_def)

lemma non_sequential_iff:
  assumes "sha256_spec ffi sha" "\<not> debug_assertions p"
  shows "merkle_tree_non_sequential p ffi = Ok () \<longleftrightarrow>
    quoted sha (''7d3c0d2e1dc54230b20ed875f5f3a4bd3f9873df601936b3ca8127d4db3548f3'', fill 1 16384)"
proof -
  let ?z = HASH_OF_4096_ZEROS and ?h = "sha (replicate 4096 1)"
  have grow: "vec_resize [] 2 ?z = [?z, ?z]" "vec_resize [?z, ?h] 4 ?z = [?z, ?h, ?z, ?z]"
    by (simp_all add: vec_resize_def numeral_2_eq_2)
  have add: "(uadd p 64 (Suc 0) (Suc 0) :: (fsverity_error, nat) res) = Ok 2"
    "(uadd p 64 3 (Suc 0) :: (fsverity_error, nat) res) = Ok 4" "(uadd p 64 0 (Suc 0) :: (fsverity_error, nat) res) = Ok 1"
    "(uadd p 64 2 (Suc 0) :: (fsverity_error, nat) res) = Ok 3"
    by (simp_all add: uadd_ok)
  have "(MerkleLeaves_update_hash p MerkleLeaves_new 1 ?h 8192 :: (fsverity_error, merkle_leaves) res) =
      Ok \<lparr>leaves = [?z, ?h], file_size = 8192\<rparr>"
    "(MerkleLeaves_update_hash p \<lparr>leaves = [?z, ?h], file_size = 8192\<rparr> 3 ?h 16384 :: (fsverity_error, merkle_leaves) res) =
      Ok \<lparr>leaves = [?z, ?h, ?z, ?h], file_size = 16384\<rparr>"
    "(MerkleLeaves_update_hash p \<lparr>leaves = [?z, ?h, ?z, ?h], file_size = 16384\<rparr> 0 ?h 4096 :: (fsverity_error, merkle_leaves) res) =
      Ok \<lparr>leaves = [?h, ?h, ?z, ?h], file_size = 16384\<rparr>"
    "(MerkleLeaves_update_hash p \<lparr>leaves = [?h, ?h, ?z, ?h], file_size = 16384\<rparr> 2 ?h 12288 :: (fsverity_error, merkle_leaves) res) =
      Ok \<lparr>leaves = [?h, ?h, ?h, ?h], file_size = 16384\<rparr>"
    by (simp_all add: MerkleLeaves_update_hash_def MerkleLeaves_new_def add Let_def grow)
  then have "merkle_tree_non_sequential p ffi =
      assert_digest ''7d3c0d2e1dc54230b20ed875f5f3a4bd3f9873df601936b3ca8127d4db3548f3''
        (MerkleLeaves_calculate_fsverity_digest p ffi \<lparr>leaves = [?h, ?h, ?h, ?h], file_size = 16384\<rparr>)"
    by (simp add: merkle_tree_non_sequential_def sha256_chain_eq[OF assms(1)] CHUNK_SIZE_def)
  with assert_digest_iff[OF builder_digest_eq[OF assms, of "fill 1 16384"]] show ?thesis
    by (simp add: non_sequential_tree)
qed

lemma builder_tests_iff:
  assumes "sha256_spec ffi sha" "\<not> debug_assertions p"
  shows "list_all (\<lambda>r. r = Ok ()) (builder_tests p ffi) \<longleftrightarrow> list_all (quoted sha) builder_table"
proof -
  have iff: "assert_digest hex (generate_fsverity_digest_sequentially p ffi c) = Ok () \<longleftrightarrow> quoted sha (hex, c)"
    if "length c < 2 ^ 63" for hex c
    by (rule assert_digest_iff[OF sequential_digest[OF assms that]])
  show ?thesis
    by (simp only: builder_tests_def builder_table_def list.pred_inject leaves_tests_pass non_sequential_iff[OF assms]
        merkle_tree_empty_file_def merkle_tree_file_size_less_than_or_equal_to_4k_def merkle_tree_more_sizes_def
        try_r_Ok_iff) (simp add: iff)
qed

section \<open>\<open>file/local_file.rs\<close>\<close>

type_synonym 'f open_path = "string \<Rightarrow> (io_error, 'f) res"

definition test_read_4k_file :: "profile \<Rightarrow> 'f file_api \<Rightarrow> 'f open_path \<Rightarrow> (io_error, unit) res" where
  "test_read_4k_file p api open_path =
     try_r (open_path ''testdata/input.4k'') (\<lambda>file.
     try_r (LocalFileReader_new api file) (\<lambda>file_reader.
     try_r (LocalFileReader_read_chunk p api file_reader 0 (zeros 4096)) (\<lambda>(n, buf).
     assert_r (n = length buf) (Ok ()))))"

definition test_read_4k1_file :: "profile \<Rightarrow> 'f file_api \<Rightarrow> 'f open_path \<Rightarrow> (io_error, unit) res" where
  "test_read_4k1_file p api open_path =
     try_r (open_path ''testdata/input.4k1'') (\<lambda>file.
     try_r (LocalFileReader_new api file) (\<lambda>file_reader.
     try_r (LocalFileReader_read_chunk p api file_reader 0 (zeros 4096)) (\<lambda>(n, buf).
     assert_r (n = length buf) (
     try_r (LocalFileReader_read_chunk p api file_reader 1 buf) (\<lambda>(n, buf).
     assert_r (n = 1) (Ok ()))))))"

definition test_read_4m_file :: "profile \<Rightarrow> 'f file_api \<Rightarrow> 'f open_path \<Rightarrow> (io_error, unit) res" where
  "test_read_4m_file p api open_path =
     try_r (open_path ''testdata/input.4m'') (\<lambda>file.
     try_r (LocalFileReader_new api file) (\<lambda>file_reader.
     try_fold (\<lambda>_ index.
       try_r (LocalFileReader_read_chunk p api file_reader index (zeros 4096)) (\<lambda>(n, buf).
       assert_r (n = length buf) (Ok ()))) () [0..<LocalFileReader_len file_reader div 4096]))"

definition test_read_beyond_file_size :: "profile \<Rightarrow> 'f file_api \<Rightarrow> 'f open_path \<Rightarrow> (io_error, unit) res" where
  "test_read_beyond_file_size p api open_path =
     (case open_path ''testdata/input.4k'' of
        Ok file \<Rightarrow>
          (case LocalFileReader_new api file of
             Ok file_reader \<Rightarrow>
               try_r (LocalFileReader_read_chunk p api file_reader 1 (zeros 4096)) (\<lambda>(n, buf).
               assert_r (n = 0) (Ok ()))
           | _ \<Rightarrow> Panic)
      | _ \<Rightarrow> Panic)"

text \<open>The last test creates an empty file.\<close>

definition test_read_empty_file :: "profile \<Rightarrow> 'f file_api \<Rightarrow> (io_error, 'f) res \<Rightarrow> (io_error, unit) res" where
  "test_read_empty_file p api created =
     (case created of
        Ok file \<Rightarrow>
          (case LocalFileReader_new api file of
             Ok file_reader \<Rightarrow>
               try_r (LocalFileReader_read_chunk p api file_reader 0 (zeros 4096)) (\<lambda>(n, buf).
               assert_r (n = 0) (Ok ()))
           | _ \<Rightarrow> Panic)
      | _ \<Rightarrow> Panic)"

text \<open>A reader of a regular file.\<close>

lemma local_reader:
  assumes "regular_file api content" "length (content f) = n" "n < 2 ^ 63"
  shows "LocalFileReader_new api f = Ok \<lparr>lf_file = f, lf_size = n\<rparr>"
    "i * 4096 < 2 ^ 63 \<Longrightarrow> length buf = 4096 \<Longrightarrow>
     LocalFileReader_read_chunk p api \<lparr>lf_file = f, lf_size = n\<rparr> i buf =
       Ok (min 4096 (n - i * 4096), overwrite buf (block (content f) i))"
  using regular_file_len[OF assms(1), of f] assms(2,3)
    read_by_chunk.read_block[OF LocalFileReader_reads[OF assms(1) assms(2)[symmetric]], of i buf p]
  by (simp_all add: LocalFileReader_new_def CHUNK_SIZE_def length_block)

lemma local_file_tests_pass:
  assumes reg: "regular_file api content"
    and f4k: "open_path ''testdata/input.4k'' = Ok f4k" "length (content f4k) = 4096"
    and f4k1: "open_path ''testdata/input.4k1'' = Ok f4k1" "length (content f4k1) = 4097"
    and f4m: "open_path ''testdata/input.4m'' = Ok f4m" "length (content f4m) = 4194304"
    and empty: "created = Ok f" "content f = []"
  shows "test_read_4k_file p api open_path = Ok ()" "test_read_4k1_file p api open_path = Ok ()"
    "test_read_4m_file p api open_path = Ok ()" "test_read_beyond_file_size p api open_path = Ok ()"
    "test_read_empty_file p api created = Ok ()"
proof -
  note rd = local_reader[OF reg f4k(2)] local_reader[OF reg f4k1(2)] local_reader[OF reg f4m(2)]
    local_reader[OF reg, of f 0]
  have blk: "length (block (content f4k) 0) = 4096" "length (block (content f4k1) 0) = 4096"
    using f4k(2) f4k1(2) by (simp_all add: length_block CHUNK_SIZE_def)
  show "test_read_4k_file p api open_path = Ok ()" using f4k blk by (simp add: test_read_4k_file_def rd)
  show "test_read_4k1_file p api open_path = Ok ()" using f4k1 blk by (simp add: test_read_4k1_file_def rd)
  show "test_read_beyond_file_size p api open_path = Ok ()" using f4k by (simp add: test_read_beyond_file_size_def rd)
  show "test_read_empty_file p api created = Ok ()" using empty by (simp add: test_read_empty_file_def rd)
  let ?step = "\<lambda>_ index. try_r (LocalFileReader_read_chunk p api \<lparr>lf_file = f4m, lf_size = 4194304\<rparr> index (zeros 4096)) (\<lambda>(n, buf).
       assert_r (n = length buf) (Ok ()))"
  have "try_fold ?step () xs = Ok ()" if "\<forall>i \<in> set xs. i < 1024" for xs
    using that
  proof (induction xs)
    case (Cons i xs)
    then have i: "i < 1024" by simp
    then have "length (block (content f4m) i) = 4096" using f4m(2) by (simp add: length_block CHUNK_SIZE_def)
    with Cons i f4m(2) show ?case by (simp add: rd)
  qed simp
  then show "test_read_4m_file p api open_path = Ok ()"
    using f4m by (simp add: test_read_4m_file_def rd LocalFileReader_len_def)
qed

end
