(* ===== verification/Tampering.thy ===== *)
theory Tampering
  imports Verifier
begin

text \<open>
  What a damaged Merkle tree does to the verified reader of theory \<open>Verifier\<close>: one page of the tree file replaced
  makes exactly those chunks unreadable whose path to the root goes through that page. \<open>path_pages\<close> is the set of
  pages on the path of a chunk, one per level.
\<close>

definition tampered_tree :: "(bytes \<Rightarrow> hash) \<Rightarrow> bytes \<Rightarrow> nat \<Rightarrow> bytes \<Rightarrow> bytes" where
  "tampered_tree sha c k m = concat ((tree_pages sha c)[k := m])"

definition path_pages :: "bytes \<Rightarrow> nat \<Rightarrow> nat set" where
  "path_pages c i = (\<lambda>x. fst (walk_pos (length c) i x)) ` {..max_level c}"

lemma tampered_pages:
  assumes "sha256_spec ffi sha" "length m = CHUNK_SIZE"
  shows "\<forall>pg \<in> set ((tree_pages sha c)[k := m]). length pg = CHUNK_SIZE"
  using tree_pages_length[OF assms(1), of c] assms(2) set_update_subset_insert[of "tree_pages sha c" k m] by auto

text \<open>What the reader of the tree file returns for a page.\<close>

lemma tampered_read:
  assumes sha: "sha256_spec ffi sha" and trd: "reads_blocks trd (tampered_tree sha c k m)" and m: "length m = CHUNK_SIZE"
    and c: "0 < length c" "length c \<le> 2 ^ 61" and j: "j < length (tree_pages sha c)"
  shows "trd j (zeros 4096) = Ok (4096, (tree_pages sha c)[k := m] ! j)"
proof -
  let ?pages = "(tree_pages sha c)[k := m]" and ?t = "tampered_tree sha c k m"
  note len = tampered_pages[OF sha m, of c k]
  have "length ?t = length (tree_file sha c)"
    using length_concat_const[OF len] length_concat_const[OF tree_pages_length[OF sha, of c]]
    by (simp add: tampered_tree_def tree_file_def)
  then have "length ?t < 2 ^ 63" using length_tree_file[OF sha c] by simp
  moreover have "j < num_blocks ?t"
    using j by (simp add: less_num_blocks_iff tampered_tree_def length_concat_const[OF len])
  moreover have "block ?t j = ?pages ! j"
    using take_drop_concat[OF len, of j] j by (simp add: block_def tampered_tree_def)
  moreover have "length (?pages ! j) = CHUNK_SIZE" using len j by simp
  ultimately show ?thesis
    using reads_blocks.read_within_zeros[OF trd, of j] by (simp add: pad_block_def CHUNK_SIZE_def)
qed

text \<open>The pages of a path lie in different levels, and the levels one after the other in the file, the root first.\<close>

lemma path_page_decreases:
  assumes "i < num_blocks c" "Suc x \<le> max_level c"
  shows "fst (walk_pos (length c) i (Suc x)) < fst (walk_pos (length c) i x)"
proof -
  have "[Suc x..<Suc (max_level c)] = Suc x # [Suc (Suc x)..<Suc (max_level c)]"
    using assms(2) by (simp add: upt_conv_Cons del: upt_Suc)
  then have "level_start (length c) x = level_nodes (length c) (Suc x) + level_start (length c) (Suc x)"
    by (simp add: level_start_def max_level_def[symmetric] del: upt_Suc)
  with page_in_level[OF assms(1), of "Suc x"] show ?thesis by (simp add: walk_pos_def del: power_Suc)
qed

lemma path_pages_inj:
  assumes "i < num_blocks c" "x \<le> max_level c" "y \<le> max_level c" "fst (walk_pos (length c) i x) = fst (walk_pos (length c) i y)"
  shows "x = y"
proof -
  have less: "fst (walk_pos (length c) i b) < fst (walk_pos (length c) i a)" if "a < b" "b \<le> max_level c" for a b
    using that
  proof (induction b)
    case (Suc b)
    with path_page_decreases[OF assms(1), of b] show ?case by (cases "a = b") (auto simp: less_Suc_eq)
  qed simp
  show ?thesis using less[of x y] less[of y x] assms(2-4) by (cases x y rule: linorder_cases) auto
qed

lemma fold_step:
  assumes "x < Suc L"
  shows "try_fold f h (map g [x..<Suc L]) = try_r (f h (g x)) (\<lambda>h'. try_fold f h' (map g [Suc x..<Suc L]))"
  using assms by (simp add: upt_conv_Cons del: upt_Suc)

text \<open>Once the hash is wrong, an honest page is rejected.\<close>

lemma honest_page_rejects:
  assumes sha: "sha256_spec ffi sha" and i: "i < num_blocks c"
    and honest: "trd (fst (walk_pos (length c) i x)) (zeros 4096) = Ok (4096, path_msg sha c i (Suc x))"
    and h: "h \<noteq> sha (path_msg sha c i x)"
  shows "verity_step p ffi trd h (walk_pos (length c) i x) = Err CannotVerify"
proof -
  obtain k off where pos: "walk_pos (length c) i x = (k, off)" by (cases "walk_pos (length c) i x")
  have off: "off = i div 128 ^ x mod 128 * HASH_SIZE" using pos by (simp add: walk_pos_def)
  have "length (path_msg sha c i (Suc x)) = CHUNK_SIZE" by (rule length_path_msg[OF sha i])
  from verity_step_eq[OF sha _ this walk_pos_fits[OF pos], where rd = trd and n = 4096 and p = p and h = h] honest h pos
  show ?thesis using path_msg_slice[OF sha i, of x] by (simp add: off del: path_msg.simps)
qed

text \<open>A path with one wrong page does not lead to the root.\<close>

lemma tampered_path_rejected:
  assumes sha: "sha256_spec ffi sha" and i: "i < num_blocks c" and x: "x \<le> max_level c"
    and honest: "\<And>y. y \<le> max_level c \<Longrightarrow> y \<noteq> x \<Longrightarrow>
      trd (fst (walk_pos (length c) i y)) (zeros 4096) = Ok (4096, path_msg sha c i (Suc y))"
    and bad: "trd (fst (walk_pos (length c) i x)) (zeros 4096) = Ok (4096, m)" "length m = CHUNK_SIZE"
      "sha m \<noteq> sha (path_msg sha c i (Suc x))"
  shows "try_fold (verity_step p ffi trd) (sha (path_msg sha c i x)) (map (walk_pos (length c) i) [x..<Suc (max_level c)]) =
      Err CannotVerify \<or>
    try_fold (verity_step p ffi trd) (sha (path_msg sha c i x)) (map (walk_pos (length c) i) [x..<Suc (max_level c)]) =
      Ok (sha m) \<and> x = max_level c"
proof -
  let ?L = "max_level c" and ?f = "verity_step p ffi trd" and ?g = "walk_pos (length c) i" and ?h = "sha (path_msg sha c i x)"
  obtain k off where pos: "?g x = (k, off)" by (cases "?g x")
  have "?f ?h (?g x) = Ok (sha m) \<or> ?f ?h (?g x) = Err CannotVerify"
    using verity_step_eq[OF sha _ bad(2) walk_pos_fits[OF pos], where rd = trd and n = 4096 and p = p and h = ?h] bad(1) pos by auto
  moreover have "try_fold ?f (sha m) (map ?g [Suc x..<Suc ?L]) = Err CannotVerify" if "Suc x \<le> ?L"
  proof -
    have "trd (fst (?g (Suc x))) (zeros 4096) = Ok (4096, path_msg sha c i (Suc (Suc x)))"
      using that by (intro honest) simp_all
    then have "?f (sha m) (?g (Suc x)) = Err CannotVerify" using bad(3) by (rule honest_page_rejects[OF sha i])
    with that show ?thesis by (subst fold_step) simp_all
  qed
  ultimately show ?thesis
    using fold_step[of x ?L ?f ?h ?g] x by (cases "x = ?L") (auto simp del: path_msg.simps upt_Suc)
qed

lemma fold_to_page:
  assumes sha: "sha256_spec ffi sha" and i: "i < num_blocks c" and x: "x \<le> max_level c"
    and honest: "\<And>y. y < x \<Longrightarrow> trd (fst (walk_pos (length c) i y)) (zeros 4096) = Ok (4096, path_msg sha c i (Suc y))"
  shows "try_fold (verity_step p ffi trd) (sha (path_msg sha c i 0)) (map (walk_pos (length c) i) [0..<Suc (max_level c)]) =
    try_fold (verity_step p ffi trd) (sha (path_msg sha c i x)) (map (walk_pos (length c) i) [x..<Suc (max_level c)])"
proof (cases x)
  case (Suc y)
  have split: "[0..<Suc (max_level c)] = [0..<Suc y] @ [x..<Suc (max_level c)]"
    using upt_add_eq_append[of 0 x "Suc (max_level c) - x"] x Suc by (simp del: upt_Suc)
  have "try_fold (verity_step p ffi trd) (sha (path_msg sha c i 0)) (map (walk_pos (length c) i) [0..<Suc y]) =
      Ok (sha (path_msg sha c i x))"
    unfolding Suc using honest Suc by (intro verity_fold_complete[OF sha i]) auto
  then show ?thesis unfolding split map_append by (simp add: try_fold_append del: path_msg.simps upt_Suc)
qed simp

lemma tampered_check:
  assumes sha: "sha256_spec ffi sha" and trd: "reads_blocks trd (tampered_tree sha c k m)" and m: "length m = CHUNK_SIZE"
    and c: "length c \<le> 2 ^ 61" and i: "i < num_blocks c"
    and bad: "k < length (tree_pages sha c)" "sha m \<noteq> sha (tree_pages sha c ! k)"
  shows "if k \<in> path_pages c i
    then verity_check p ffi (block c i) i (length c) trd \<in> {Err CannotVerify} \<union> Ok ` (- {root_of sha c})
    else verity_check p ffi (block c i) i (length c) trd = Ok (root_of sha c)"
proof -
  let ?L = "max_level c" and ?g = "walk_pos (length c) i" and ?f = "verity_step p ffi trd"
  have pos: "0 < length c" by (rule nonempty_if_block[OF i])
  have page: "fst (?g y) < length (tree_pages sha c)" "tree_pages sha c ! fst (?g y) = path_msg sha c i (Suc y)" if "y \<le> ?L" for y
    using tree_pages_nth[OF that i] by (simp_all only: walk_pos_def fst_conv)
  have honest: "trd (fst (?g y)) (zeros 4096) = Ok (4096, path_msg sha c i (Suc y))" if "y \<le> ?L" "fst (?g y) \<noteq> k" for y
    using tampered_read[OF sha trd m pos c page(1)[OF that(1)]] page(2)[OF that(1)] that(2) by (simp del: path_msg.simps)
  have check: "verity_check p ffi (block c i) i (length c) trd =
      try_fold ?f (sha (path_msg sha c i 0)) (map ?g [0..<Suc ?L])"
    using i pos hash_with_padding_eq[OF sha length_block_le]
    by (simp add: verity_check_def fsverity_walk_steps_eq[OF _ c] num_blocks_def max_level_def del: upt_Suc)
  show ?thesis
  proof (cases "k \<in> path_pages c i")
    case False
    then have "\<exists>n. trd (fst (?g y)) (zeros 4096) = Ok (n, path_msg sha c i (Suc y))" if "y \<le> ?L" for y
      using honest[OF that] that unfolding path_pages_def by blast
    then have "try_fold ?f (sha (path_msg sha c i 0)) (map ?g [0..<Suc ?L]) = Ok (sha (path_msg sha c i (Suc ?L)))"
      by (intro verity_fold_complete[OF sha i]) auto
    with path_below_root(2)[OF i, of sha] False show ?thesis unfolding check by (simp del: path_msg.simps upt_Suc)
  next
    case True
    then obtain x where x: "x \<le> ?L" "fst (?g x) = k" by (auto simp: path_pages_def)
    have other: "fst (?g y) \<noteq> k" if "y \<le> ?L" "y \<noteq> x" for y
      using path_pages_inj[OF i x(1) that(1)] that(2) x(2) by metis
    have "trd (fst (?g x)) (zeros 4096) = Ok (4096, m)"
      using tampered_read[OF sha trd m pos c bad(1)] x(2) bad(1) by simp
    moreover have "sha m \<noteq> sha (path_msg sha c i (Suc x))" using bad(2) page(2)[OF x(1)] x(2) by (simp del: path_msg.simps)
    ultimately have "try_fold ?f (sha (path_msg sha c i x)) (map ?g [x..<Suc ?L]) = Err CannotVerify \<or>
        try_fold ?f (sha (path_msg sha c i x)) (map ?g [x..<Suc ?L]) = Ok (sha m) \<and> x = ?L"
      using honest other m by (intro tampered_path_rejected[OF sha i x(1)]) auto
    moreover have "verity_check p ffi (block c i) i (length c) trd =
        try_fold ?f (sha (path_msg sha c i x)) (map ?g [x..<Suc ?L])"
      unfolding check using honest other x(1) by (intro fold_to_page[OF sha i x(1)]) auto
    moreover have "sha m \<noteq> root_of sha c" if "x = ?L"
      using \<open>sha m \<noteq> sha (path_msg sha c i (Suc x))\<close> path_below_root(2)[OF i, of sha] that by (simp del: path_msg.simps)
    ultimately show ?thesis using True by auto
  qed
qed

lemma tampered_read_chunk:
  assumes "sha256_spec ffi sha" "reads_blocks rd c" "reads_blocks trd (tampered_tree sha c k m)"
    and "length c \<le> 2 ^ 61" "i < num_blocks c" "length buf = CHUNK_SIZE"
    and "k < length (tree_pages sha c)" "length m = CHUNK_SIZE" "sha m \<noteq> sha (tree_pages sha c ! k)"
  shows "VerifiedFileReader_read_chunk p ffi
      \<lparr>vf_chunked_file = rd, vf_file_size = length c, vf_merkle_tree = trd, vf_root_hash = root_of sha c\<rparr> i buf =
    (if k \<in> path_pages c i then Err (Os EIO) else Ok (length (block c i), overwrite buf (block c i)))"
proof -
  have "rd i buf = Ok (length (block c i), overwrite buf (block c i))"
    using reads_blocks.read_within[OF assms(2,5) _ assms(6)] assms(4) by simp
  with tampered_check[OF assms(1,3,8,4,5,7,9), of p] assms(6) show ?thesis
    by (auto simp: VerifiedFileReader_read_chunk_def split: if_splits)
qed

lemma tampered_new:
  assumes sha: "sha256_spec ffi sha" and trd: "reads_blocks trd (tampered_tree sha c k m)" and m: "length m = CHUNK_SIZE"
    and c: "0 < length c" "length c \<le> 2 ^ 61" and k: "0 < k" "k < length (tree_pages sha c)"
  shows "VerifiedFileReader_new ffi verify rd (length c) sig trd =
    try_r (map_err FsverityIo (verify sig (formatted_digest sha c))) (\<lambda>valid.
    if valid then Ok \<lparr>vf_chunked_file = rd, vf_file_size = length c, vf_merkle_tree = trd,
      vf_root_hash = root_of sha c\<rparr> else Err BadSignature)"
proof (rule verified_new_by_root[OF sha c])
  have i: "0 < num_blocks c" using c(1) by (simp add: less_num_blocks_iff)
  have "walk_pos (length c) 0 (max_level c) = (0, 0)"
    by (simp add: walk_pos_def level_start_def max_level_def)
  with tree_pages_nth[OF order_refl i] tampered_read[OF sha trd m c, of 0] k
  show "trd 0 (zeros 4096) = Ok (4096, path_msg sha c 0 (Suc (max_level c)))"
    by (simp add: walk_pos_def del: path_msg.simps)
qed

text \<open>C3: Damage to the Merkle tree is local. If one page of the tree file of an honest file is replaced by anything
  else, reading a chunk fails with an I/O error if that page is on the chunk's path to the root, and returns the
  chunk otherwise.\<close>

theorem tampering_is_local:
  assumes "sha256_spec ffi sha" "reads_blocks rd c" "reads_blocks trd (tampered_tree sha c k m)"
    and "length c \<le> 2 ^ 61" "i < num_blocks c" "length buf = CHUNK_SIZE"
    and "k < length (tree_pages sha c)" "length m = CHUNK_SIZE" "sha m \<noteq> sha (tree_pages sha c ! k)"
  shows "VerifiedFileReader_read_chunk p ffi
      \<lparr>vf_chunked_file = rd, vf_file_size = length c, vf_merkle_tree = trd, vf_root_hash = root_of sha c\<rparr> i buf =
    (if k \<in> path_pages c i then Err (Os EIO) else Ok (length (block c i), overwrite buf (block c i)))"
  by (rule tampered_read_chunk[OF assms])

text \<open>The tree of a file of 4 MiB: the root in page 0, and page \<open>1 + q\<close> for the chunks \<open>128 q\<close> to \<open>128 q + 127\<close>.\<close>

lemma max_level_4m: "length c = 4194304 \<Longrightarrow> max_level c = 1"
  by (simp add: max_level_def max_level_of_def hash_pages_def log128_def CHUNK_SIZE_def ceil_div_def
      bit_length.simps[of 7] bit_length.simps[of 3] bit_length.simps[of "Suc 0"] bit_length.simps[of 0])

lemma path_pages_4m:
  assumes "length c = 4194304" "i < 1024"
  shows "path_pages c i = {0, Suc (i div 128)}"
proof -
  have lvl: "max_level_of 4194304 = 1" using max_level_4m[OF assms(1)] assms(1) by (simp add: max_level_def)
  have "{..Suc 0} = {0, 1}" by auto
  moreover have "level_start 4194304 0 = 1" "level_start 4194304 1 = 0"
    by (simp_all add: level_start_def lvl level_nodes_def CHUNK_SIZE_def ceil_div_def)
  ultimately show ?thesis
    using assms by (auto simp: path_pages_def max_level_4m walk_pos_def)
qed

lemma tree_pages_4m:
  assumes "length c = 4194304"
  shows "tree_pages sha c = level_pages sha c 1 @ level_pages sha c 0" "length (tree_pages sha c) = 9"
    "tree_pages sha c ! 1 = page_bytes (take 128 (leaves_of sha c))"
proof -
  show pages: "tree_pages sha c = level_pages sha c 1 @ level_pages sha c 0"
    by (simp add: tree_pages_def max_level_4m[OF assms])
  have nodes: "level_nodes (length c) 1 = 1" "level_nodes (length c) 0 = 8"
    using assms by (simp_all add: level_nodes_def CHUNK_SIZE_def ceil_div_def)
  then show "length (tree_pages sha c) = 9" by (simp add: pages)
  show "tree_pages sha c ! 1 = page_bytes (take 128 (leaves_of sha c))"
    using nth_level_pages[of 0 c 0 sha] nodes by (simp add: pages nth_append tree_level_def)
qed

lemma sample_page:
  "sample_sha (tree_pages sample_sha (zeros 4194304) ! 1) = HASH_OF_4096_ZEROS"
proof -
  have "leaves_of sample_sha (zeros 4194304) = replicate 1024 HASH_OF_4096_ZEROS"
    unfolding leaves_of_def
    by (rule nth_equalityI) (auto simp: num_blocks_def ceil_div_def CHUNK_SIZE_def block_def pad_block_def sample_sha_def)
  then have page: "tree_pages sample_sha (zeros 4194304) ! 1 = HASH_OF_4096_ZEROS @ concat (replicate 127 HASH_OF_4096_ZEROS)"
    using replicate_Suc[of 127 HASH_OF_4096_ZEROS] tree_pages_4m(3)[of "zeros 4194304" sample_sha]
    by (simp add: page_bytes_def)
  have "hd (tree_pages sample_sha (zeros 4194304) ! 1) = 0xad" unfolding page by (simp add: HASH_OF_4096_ZEROS_def)
  moreover have "hd (zeros 4096) = (0 :: u8)" by simp
  ultimately have "tree_pages sample_sha (zeros 4194304) ! 1 \<noteq> zeros 4096" by force
  then show ?thesis unfolding sample_sha_def page by (simp add: HASH_OF_4096_ZEROS_def)
qed

theorem tampering_is_local_witness:
  "VerifiedFileReader_read_chunk debug_profile sample_ffi
      \<lparr>vf_chunked_file = LocalFileReader_read_chunk debug_profile mem_file \<lparr>lf_file = zeros 4194304, lf_size = length (zeros 4194304)\<rparr>,
       vf_file_size = length (zeros 4194304),
       vf_merkle_tree = LocalFileReader_read_chunk debug_profile mem_file
         \<lparr>lf_file = tampered_tree sample_sha (zeros 4194304) 1 (replicate 4096 7),
          lf_size = length (tampered_tree sample_sha (zeros 4194304) 1 (replicate 4096 7))\<rparr>,
       vf_root_hash = root_of sample_sha (zeros 4194304)\<rparr> 127 (zeros 4096) = Err (Os EIO) \<and>
   VerifiedFileReader_read_chunk debug_profile sample_ffi
      \<lparr>vf_chunked_file = LocalFileReader_read_chunk debug_profile mem_file \<lparr>lf_file = zeros 4194304, lf_size = length (zeros 4194304)\<rparr>,
       vf_file_size = length (zeros 4194304),
       vf_merkle_tree = LocalFileReader_read_chunk debug_profile mem_file
         \<lparr>lf_file = tampered_tree sample_sha (zeros 4194304) 1 (replicate 4096 7),
          lf_size = length (tampered_tree sample_sha (zeros 4194304) 1 (replicate 4096 7))\<rparr>,
       vf_root_hash = root_of sample_sha (zeros 4194304)\<rparr> 128 (zeros 4096) = Ok (4096, zeros 4096)"
proof -
  let ?c = "zeros 4194304" and ?m = "replicate 4096 7 :: bytes"
  have "hd (sample_sha ?m) = 7" by (simp add: sample_sha_def)
  moreover have "hd HASH_OF_4096_ZEROS = 0xad" by (simp add: HASH_OF_4096_ZEROS_def)
  ultimately have "sample_sha ?m \<noteq> sample_sha (tree_pages sample_sha ?c ! 1)" unfolding sample_page by force
  note local = tampering_is_local[OF sample_sha256_spec local_file.within.reads_blocks_axioms local_file.within.reads_blocks_axioms
      _ _ _ _ _ this, where p = debug_profile and i = 127 and buf = "zeros 4096"]
    tampering_is_local[OF sample_sha256_spec local_file.within.reads_blocks_axioms local_file.within.reads_blocks_axioms
      _ _ _ _ _ this, where p = debug_profile and i = 128 and buf = "zeros 4096"]
  have k: "1 < length (tree_pages sample_sha ?c)" by (simp only: tree_pages_4m(2)[OF length_replicate])
  show ?thesis
    by (rule conjI; (subst local(1) | subst local(2));
        (simp only: k)?; simp add: CHUNK_SIZE_def num_blocks_def ceil_div_def path_pages_4m block_def overwrite_def)
qed

end
