(* ===== verification/Verifier_Tests.thy ===== *)
theory Verifier_Tests
  imports Authfs_Tests Tampering
begin

text \<open>
  The unit tests of \<open>authfs/src/fsverity/verifier.rs\<close>. They open files of \<open>testdata\<close>: a content, its Merkle tree and a
  signature. The contents of these files are data of the tests; the lemmas assume what the names of the files say,
  their sizes and that the tree is the tree of the content, or that tree with its first leaf page damaged.
\<close>

section \<open>The tests\<close>

datatype test_error = TestIo io_error | TestFsverity fsverity_error

definition total_chunk_number :: "profile \<Rightarrow> nat \<Rightarrow> ('e, nat) res" where
  "total_chunk_number p file_sz = try_r (uadd p 64 file_sz 4095) (\<lambda>n. Ok (n div 4096))"

text \<open>\<open>open_path\<close> is \<open>File::open\<close>, and \<open>read_to_end\<close> reads the rest of an open file.\<close>

definition new_reader_with_fsverity ::
  "profile \<Rightarrow> 'c sha256_ffi \<Rightarrow> 'f file_api \<Rightarrow> 'f open_path \<Rightarrow> ('f \<Rightarrow> (io_error, bytes) res) \<Rightarrow>
   string \<Rightarrow> string \<Rightarrow> string \<Rightarrow> (test_error, verified_file_reader \<times> nat) res" where
  "new_reader_with_fsverity p ffi api open_path read_to_end content_path merkle_tree_path signature_path =
     try_r (map_err TestIo (open_path content_path)) (\<lambda>f.
     try_r (map_err TestIo (LocalFileReader_new api f)) (\<lambda>file_reader.
     let file_sz = LocalFileReader_len file_reader in
     try_r (map_err TestIo (open_path merkle_tree_path)) (\<lambda>f.
     try_r (map_err TestIo (LocalFileReader_new api f)) (\<lambda>merkle_tree.
     try_r (map_err TestIo (open_path signature_path)) (\<lambda>f.
     try_r (map_err TestIo (read_to_end f)) (\<lambda>sig.
     try_r (map_err TestFsverity (VerifiedFileReader_new ffi
         (FakeAuthenticator_verify FakeAuthenticator_always_succeed)
         (LocalFileReader_read_chunk p api file_reader) file_sz sig
         (LocalFileReader_read_chunk p api merkle_tree))) (\<lambda>reader.
     Ok (reader, file_sz))))))))"

fun is_ok :: "('e, 'a) res \<Rightarrow> bool" where
  "is_ok (Ok x) = True"
| "is_ok _ = False"

fun is_err :: "('e, 'a) res \<Rightarrow> bool" where
  "is_err (Err e) = True"
| "is_err _ = False"

text \<open>The loop of the three tests of full reads; every iteration has a buffer of its own.\<close>

definition assert_full_read ::
  "profile \<Rightarrow> 'c sha256_ffi \<Rightarrow> verified_file_reader \<times> nat \<Rightarrow> (test_error, unit) res" where
  "assert_full_read p ffi r =
     (case r of (file_reader, file_sz) \<Rightarrow>
      try_r (total_chunk_number p file_sz) (\<lambda>n.
      try_fold (\<lambda>_ i. assert_r (is_ok (VerifiedFileReader_read_chunk p ffi file_reader i (zeros 4096))) (Ok ()))
        () [0..<n]))"

definition fsverity_verify_full_read_4k ::
  "profile \<Rightarrow> 'c sha256_ffi \<Rightarrow> 'f file_api \<Rightarrow> 'f open_path \<Rightarrow> ('f \<Rightarrow> (io_error, bytes) res) \<Rightarrow> (test_error, unit) res"
  where
  "fsverity_verify_full_read_4k p ffi api open_path read_to_end =
     try_r (new_reader_with_fsverity p ffi api open_path read_to_end ''testdata/input.4k''
         ''testdata/input.4k.merkle_dump'' ''testdata/input.4k.fsv_sig'') (\<lambda>r.
     assert_full_read p ffi r)"

definition fsverity_verify_full_read_4k1 ::
  "profile \<Rightarrow> 'c sha256_ffi \<Rightarrow> 'f file_api \<Rightarrow> 'f open_path \<Rightarrow> ('f \<Rightarrow> (io_error, bytes) res) \<Rightarrow> (test_error, unit) res"
  where
  "fsverity_verify_full_read_4k1 p ffi api open_path read_to_end =
     try_r (new_reader_with_fsverity p ffi api open_path read_to_end ''testdata/input.4k1''
         ''testdata/input.4k1.merkle_dump'' ''testdata/input.4k1.fsv_sig'') (\<lambda>r.
     assert_full_read p ffi r)"

definition fsverity_verify_full_read_4m ::
  "profile \<Rightarrow> 'c sha256_ffi \<Rightarrow> 'f file_api \<Rightarrow> 'f open_path \<Rightarrow> ('f \<Rightarrow> (io_error, bytes) res) \<Rightarrow> (test_error, unit) res"
  where
  "fsverity_verify_full_read_4m p ffi api open_path read_to_end =
     try_r (new_reader_with_fsverity p ffi api open_path read_to_end ''testdata/input.4m''
         ''testdata/input.4m.merkle_dump'' ''testdata/input.4m.fsv_sig'') (\<lambda>r.
     assert_full_read p ffi r)"

text \<open>The reads of this test share one buffer. \<open>left i\<close> is what the reads before the \<open>i\<close>-th one have left in it.\<close>

definition fsverity_verify_bad_merkle_tree ::
  "profile \<Rightarrow> 'c sha256_ffi \<Rightarrow> 'f file_api \<Rightarrow> 'f open_path \<Rightarrow> ('f \<Rightarrow> (io_error, bytes) res) \<Rightarrow> (nat \<Rightarrow> bytes) \<Rightarrow>
   (test_error, unit) res" where
  "fsverity_verify_bad_merkle_tree p ffi api open_path read_to_end left =
     try_r (new_reader_with_fsverity p ffi api open_path read_to_end ''testdata/input.4m''
         ''testdata/input.4m.merkle_dump.bad'' ''testdata/input.4m.fsv_sig'') (\<lambda>(file_reader, _).
     let num_hashes = 4096 div 32; last_index = num_hashes in
     try_r (try_fold (\<lambda>_ i. assert_r (is_err (VerifiedFileReader_read_chunk p ffi file_reader i (left i))) (Ok ()))
         () [0..<last_index]) (\<lambda>_.
     assert_r (is_ok (VerifiedFileReader_read_chunk p ffi file_reader last_index (left last_index))) (Ok ())))"

definition invalid_signature ::
  "profile \<Rightarrow> 'c sha256_ffi \<Rightarrow> 'f file_api \<Rightarrow> 'f open_path \<Rightarrow> ('f \<Rightarrow> (io_error, bytes) res) \<Rightarrow> (test_error, unit) res"
  where
  "invalid_signature p ffi api open_path read_to_end =
     try_r (map_err TestIo (open_path ''testdata/input.4m'')) (\<lambda>f.
     try_r (map_err TestIo (LocalFileReader_new api f)) (\<lambda>file_reader.
     let file_sz = LocalFileReader_len file_reader in
     try_r (map_err TestIo (open_path ''testdata/input.4m.merkle_dump'')) (\<lambda>f.
     try_r (map_err TestIo (LocalFileReader_new api f)) (\<lambda>merkle_tree.
     try_r (map_err TestIo (open_path ''testdata/input.4m.fsv_sig'')) (\<lambda>f.
     try_r (map_err TestIo (read_to_end f)) (\<lambda>sig.
     assert_r (is_err (VerifiedFileReader_new ffi (FakeAuthenticator_verify FakeAuthenticator_always_fail)
         (LocalFileReader_read_chunk p api file_reader) file_sz sig
         (LocalFileReader_read_chunk p api merkle_tree))) (Ok ())))))))"

section \<open>They pass\<close>

lemma total_chunk_number_eq:
  "length c \<le> 2 ^ 61 \<Longrightarrow> total_chunk_number p (length c) = Ok (num_blocks c)"
  by (simp add: total_chunk_number_def uadd_ok num_blocks_def ceil_div_def CHUNK_SIZE_def)

lemma assert_all:
  assumes "\<And>i. i \<in> set xs \<Longrightarrow> P i"
  shows "try_fold (\<lambda>_ i. assert_r (P i) (Ok ())) () xs = Ok ()"
  using assms by (induction xs) auto

text \<open>A content \<open>c\<close> in a regular file, and what is in the tree file beside it.\<close>

definition testdata ::
  "('f \<Rightarrow> bytes) \<Rightarrow> 'f open_path \<Rightarrow> ('f \<Rightarrow> (io_error, bytes) res) \<Rightarrow> string \<Rightarrow> string \<Rightarrow> string \<Rightarrow> bytes \<Rightarrow> bytes \<Rightarrow> bool" where
  "testdata content open_path read_to_end content_path merkle_tree_path signature_path c tree \<longleftrightarrow>
     (\<exists>f t s sig. open_path content_path = Ok f \<and> content f = c \<and> open_path merkle_tree_path = Ok t \<and> content t = tree \<and>
        open_path signature_path = Ok s \<and> read_to_end s = Ok sig)"

lemma new_reader:
  assumes "regular_file api content" "testdata content open_path read_to_end cp mp sp c tree"
    and "length c < 2 ^ 63" "length tree < 2 ^ 63"
    and new: "\<And>rd trd sig. reads_blocks rd c \<Longrightarrow> reads_blocks trd tree \<Longrightarrow> VerifiedFileReader_new ffi
        (FakeAuthenticator_verify FakeAuthenticator_always_succeed) rd (length c) sig trd =
      Ok \<lparr>vf_chunked_file = rd, vf_file_size = length c, vf_merkle_tree = trd, vf_root_hash = h\<rparr>"
  obtains rd trd where "reads_blocks rd c" "reads_blocks trd tree"
    "new_reader_with_fsverity p ffi api open_path read_to_end cp mp sp =
       Ok (\<lparr>vf_chunked_file = rd, vf_file_size = length c, vf_merkle_tree = trd, vf_root_hash = h\<rparr>, length c)"
proof -
  from assms(2) obtain f t s sig where f: "open_path cp = Ok f" "content f = c" "open_path mp = Ok t" "content t = tree"
    "open_path sp = Ok s" "read_to_end s = Ok sig" by (auto simp: testdata_def)
  let ?r = "\<lambda>f. LocalFileReader_read_chunk p api \<lparr>lf_file = f, lf_size = length (content f)\<rparr>"
  have rd: "reads_blocks (?r f) c" "reads_blocks (?r t) tree"
    using f(2,4) LocalFileReader_reads[OF assms(1) refl, of p f] LocalFileReader_reads[OF assms(1) refl, of p t]
    by (auto intro: read_by_chunk_within)
  moreover have "new_reader_with_fsverity p ffi api open_path read_to_end cp mp sp =
       Ok (\<lparr>vf_chunked_file = ?r f, vf_file_size = length c, vf_merkle_tree = ?r t, vf_root_hash = h\<rparr>, length c)"
    using f assms(3,4) new[OF rd]
    by (simp add: new_reader_with_fsverity_def local_reader(1)[OF assms(1) refl] LocalFileReader_len_def Let_def)
  ultimately show thesis by (rule that)
qed

lemma full_read_passes:
  assumes "sha256_spec ffi sha" "regular_file api content"
    and "testdata content open_path read_to_end cp mp sp c (tree_file sha c)" "0 < length c" "length c \<le> 2 ^ 61"
  shows "try_r (new_reader_with_fsverity p ffi api open_path read_to_end cp mp sp) (\<lambda>r. assert_full_read p ffi r) = Ok ()"
proof -
  have len: "length c < 2 ^ 63" "length (tree_file sha c) < 2 ^ 63"
    using assms(5) length_tree_file[OF assms(1,4,5)] by simp_all
  obtain rd trd where r: "reads_blocks rd c" "reads_blocks trd (tree_file sha c)"
    "new_reader_with_fsverity p ffi api open_path read_to_end cp mp sp =
       Ok (\<lparr>vf_chunked_file = rd, vf_file_size = length c, vf_merkle_tree = trd, vf_root_hash = root_of sha c\<rparr>, length c)"
    using new_reader[OF assms(2,3) len, of ffi "root_of sha c" p thesis] verified_new_eq[OF assms(1) _ assms(4,5)]
    by (auto simp: FakeAuthenticator_verify_def FakeAuthenticator_always_succeed_def)
  have "is_ok (VerifiedFileReader_read_chunk p ffi
      \<lparr>vf_chunked_file = rd, vf_file_size = length c, vf_merkle_tree = trd, vf_root_hash = root_of sha c\<rparr> i (zeros 4096))"
    if "i < num_blocks c" for i
    using reads_blocks.read_within[OF verified_reader_reads[OF assms(1) r(1,2) assms(5)] that len(1), of "zeros 4096" p]
    by (simp add: CHUNK_SIZE_def)
  then show ?thesis
    by (auto simp: r(3) assert_full_read_def total_chunk_number_eq[OF assms(5)] intro!: assert_all)
qed

lemma full_read_tests_pass:
  assumes "sha256_spec ffi sha" "regular_file api content"
  shows "testdata content open_path read_to_end ''testdata/input.4k'' ''testdata/input.4k.merkle_dump''
      ''testdata/input.4k.fsv_sig'' c (tree_file sha c) \<Longrightarrow> length c = 4096 \<Longrightarrow>
    fsverity_verify_full_read_4k p ffi api open_path read_to_end = Ok ()"
  and "testdata content open_path read_to_end ''testdata/input.4k1'' ''testdata/input.4k1.merkle_dump''
      ''testdata/input.4k1.fsv_sig'' c (tree_file sha c) \<Longrightarrow> length c = 4097 \<Longrightarrow>
    fsverity_verify_full_read_4k1 p ffi api open_path read_to_end = Ok ()"
  and "testdata content open_path read_to_end ''testdata/input.4m'' ''testdata/input.4m.merkle_dump''
      ''testdata/input.4m.fsv_sig'' c (tree_file sha c) \<Longrightarrow> length c = 4194304 \<Longrightarrow>
    fsverity_verify_full_read_4m p ffi api open_path read_to_end = Ok ()"
  unfolding fsverity_verify_full_read_4k_def fsverity_verify_full_read_4k1_def fsverity_verify_full_read_4m_def
  subgoal by (rule full_read_passes[OF assms], assumption) (linarith, simp only:, simp)
  subgoal by (rule full_read_passes[OF assms], assumption) (linarith, simp only:, simp)
  subgoal by (rule full_read_passes[OF assms], assumption) (linarith, simp only:, simp)
  .

text \<open>The damaged tree: page 1, the first leaf page, has another hash.\<close>

lemma bad_merkle_tree_passes:
  assumes sha: "sha256_spec ffi sha" and reg: "regular_file api content"
    and files: "testdata content open_path read_to_end ''testdata/input.4m'' ''testdata/input.4m.merkle_dump.bad''
      ''testdata/input.4m.fsv_sig'' c (tampered_tree sha c 1 m)"
    and c: "length c = 4194304" and m: "length m = CHUNK_SIZE" "sha m \<noteq> sha (tree_pages sha c ! 1)"
    and left: "\<And>i. length (left i) = CHUNK_SIZE"
  shows "fsverity_verify_bad_merkle_tree p ffi api open_path read_to_end left = Ok ()"
proof -
  have len: "length c < 2 ^ 63" "length c \<le> 2 ^ 61" "0 < length c" using c by simp_all
  have "length (tampered_tree sha c 1 m) < 2 ^ 63"
    using length_concat_const[OF tampered_pages[OF sha m(1)], of c 1] tree_pages_4m(2)[OF c, of sha]
    by (simp add: tampered_tree_def CHUNK_SIZE_def)
  note new = new_reader[OF reg files len(1) this, of ffi "root_of sha c" p]
  have k: "1 < length (tree_pages sha c)" using c by (simp add: tree_pages_4m(2))
  obtain rd trd where r: "reads_blocks rd c" "reads_blocks trd (tampered_tree sha c 1 m)"
    "new_reader_with_fsverity p ffi api open_path read_to_end ''testdata/input.4m'' ''testdata/input.4m.merkle_dump.bad''
        ''testdata/input.4m.fsv_sig'' =
       Ok (\<lparr>vf_chunked_file = rd, vf_file_size = length c, vf_merkle_tree = trd, vf_root_hash = root_of sha c\<rparr>, length c)"
    using new[of thesis] tampered_new[OF sha _ m(1) len(3,2) zero_less_one k]
    by (auto simp: FakeAuthenticator_verify_def FakeAuthenticator_always_succeed_def)
  have "num_blocks c = 1024" using c by (simp add: num_blocks_def ceil_div_def CHUNK_SIZE_def)
  then have run: "VerifiedFileReader_read_chunk p ffi
      \<lparr>vf_chunked_file = rd, vf_file_size = length c, vf_merkle_tree = trd, vf_root_hash = root_of sha c\<rparr> i (left i) =
      (if i div 128 = 0 then Err (Os EIO) else Ok (length (block c i), overwrite (left i) (block c i)))" if "i < 1024" for i
    using tampered_read_chunk[OF sha r(1,2) len(2) _ left k m, of i p i] path_pages_4m[OF c that] that by auto
  show ?thesis
    by (simp add: fsverity_verify_bad_merkle_tree_def r(3) run,
        subst assert_all[where P = "\<lambda>i. is_err (VerifiedFileReader_read_chunk p ffi
          \<lparr>vf_chunked_file = rd, vf_file_size = length c, vf_merkle_tree = trd, vf_root_hash = root_of sha c\<rparr> i (left i))"])
      (simp_all add: run)
qed

lemma invalid_signature_passes:
  assumes sha: "sha256_spec ffi sha" and reg: "regular_file api content"
    and files: "testdata content open_path read_to_end ''testdata/input.4m'' ''testdata/input.4m.merkle_dump''
      ''testdata/input.4m.fsv_sig'' c (tree_file sha c)" and c: "length c = 4194304"
  shows "invalid_signature p ffi api open_path read_to_end = Ok ()"
proof -
  have len: "0 < length c" "length c \<le> 2 ^ 61" using c by simp_all
  from files obtain f t s sig where f: "open_path ''testdata/input.4m'' = Ok f" "content f = c"
    "open_path ''testdata/input.4m.merkle_dump'' = Ok t" "content t = tree_file sha c"
    "open_path ''testdata/input.4m.fsv_sig'' = Ok s" "read_to_end s = Ok sig" by (auto simp: testdata_def)
  have "reads_blocks (LocalFileReader_read_chunk p api \<lparr>lf_file = t, lf_size = length (content t)\<rparr>) (tree_file sha c)"
    using f(4) LocalFileReader_reads[OF reg refl, of p t] by (auto intro: read_by_chunk_within)
  from verified_new_eq[OF sha this len] f c length_tree_file[OF sha len]
  show ?thesis
    by (simp add: invalid_signature_def local_reader(1)[OF reg refl] LocalFileReader_len_def
        FakeAuthenticator_verify_def FakeAuthenticator_always_fail_def)
qed

end
