(* ===== verification/Fuse_Lib.thy ===== *)
theory Fuse_Lib
  imports Prelude
begin

text \<open>
  What the two FUSE file systems of the repository (\<open>authfs\<close> and \<open>zipfuse\<close>) use of \<open>libc\<close> and of the \<open>fuse\<close>
  crate. The crate is not part of the repository: mounting and the message loop are the fields of
  \<open>fuse_lib\<close>, a reply buffer is its \<open>write\<close> function, and \<open>collects\<close> is what the crate promises for it.
\<close>

section \<open>Constants of libc\<close>

definition S_IFREG :: nat where "S_IFREG = 0x8000"
definition S_IFDIR :: nat where "S_IFDIR = 0x4000"
definition S_IRUSR :: nat where "S_IRUSR = 0x100"
definition S_IWUSR :: nat where "S_IWUSR = 0x80"
definition S_IXUSR :: nat where "S_IXUSR = 0x40"
definition S_IXGRP :: nat where "S_IXGRP = 0x8"
definition S_IXOTH :: nat where "S_IXOTH = 0x1"
definition MS_RDONLY :: nat where "MS_RDONLY = 0x1"
definition MS_NOSUID :: nat where "MS_NOSUID = 0x2"
definition MS_NODEV :: nat where "MS_NODEV = 0x4"

section \<open>The reply buffer\<close>

type_synonym 'w writer = "'w \<Rightarrow> bytes \<Rightarrow> (io_error, nat) res \<times> 'w"

definition collects :: "'w writer \<Rightarrow> ('w \<Rightarrow> bytes) \<Rightarrow> bool" where
  "collects wr out \<longleftrightarrow> (\<forall>w b. \<exists>w'. wr w b = (Ok (length b), w') \<and> out w' = out w @ b)"

definition append_writer :: "bytes writer" where
  "append_writer w b = (Ok (length b), w @ b)"

lemma collects_append: "collects append_writer (\<lambda>w. w)"
  by (simp add: collects_def append_writer_def)

section \<open>Mounting\<close>

text \<open>The options that \<open>init\<close> adds to the defaults of the crate.\<close>

datatype FsOptions = FsOptions_empty | WRITEBACK_CACHE

datatype MountOption =
  MountFD int | RootMode nat | AllowOther | UserId nat | GroupId nat | MaxRead nat

record ('path, 'e, 'fs, 's) fuse_lib =
  open_dev_fuse :: "'s \<Rightarrow> (io_error, int) res \<times> 's"
  fuse_mount :: "'s \<Rightarrow> 'path \<Rightarrow> string \<Rightarrow> nat \<Rightarrow> MountOption list \<Rightarrow> ('e, unit) res \<times> 's"
  start_message_loop :: "'s \<Rightarrow> int \<Rightarrow> nat \<Rightarrow> nat \<Rightarrow> 'fs \<Rightarrow> ('e, unit) res \<times> 's"

end
