(* ===== verification/Zip_Inode.thy ===== *)
theory Zip_Inode
  imports Fuse_Lib "HOL-Library.Sublist"
begin

unbundle bit_operations_syntax

text \<open>
  \<open>zipfuse/src/inode.rs\<close>: the inode table of the zip file system and its construction from an archive. The
  \<open>zip\<close> crate is not part of the repository: an archive is a parameter, the number of its entries and the
  result of reading the directory record of each (\<open>by_index\<close>). The hash table of a directory is an
  association list with distinct names. \<open>inode_wf\<close> is the invariant of the table; \<open>resolve\<close> follows a path
  from an inode. The properties at the end say that the table of an archive is a tree in which the path
  of every archive entry leads to an inode, and that every file of it is the file of the archive with
  that path.
\<close>

section \<open>The archive\<close>

record zip_entry =
  ze_name :: string
  ze_enclosed_name :: "string list option"
  ze_is_file :: bool
  ze_unix_mode :: "nat option"
  ze_size :: nat
  ze_data :: "(io_error, bytes) res"

record zip_archive =
  za_len :: nat
  za_by_index :: "nat \<Rightarrow> (io_error, zip_entry) res"

datatype inode_error = ZipError io_error | InvalidName string | DotDotNotAllowed

section \<open>Inodes\<close>

type_synonym inode = nat

definition INVALID :: inode where
  "INVALID = 0"

definition ROOT :: inode where
  "ROOT = 1"

datatype InodeKind = KindDirectory | KindFile

record DirectoryEntry =
  de_inode :: inode
  de_kind :: InodeKind

datatype InodeDataData = Directory "(string \<times> DirectoryEntry) list" | File nat

record InodeData =
  id_size :: nat
  id_mode :: nat
  id_data :: InodeDataData

record InodeTable =
  table :: "InodeData list"

definition is_dir :: "InodeData \<Rightarrow> bool" where
  "is_dir self = (case id_data self of Directory _ \<Rightarrow> True | File _ \<Rightarrow> False)"

definition get_directory :: "InodeData \<Rightarrow> (string \<times> DirectoryEntry) list option" where
  "get_directory self = (case id_data self of Directory hash \<Rightarrow> Some hash | File _ \<Rightarrow> None)"

definition get_zip_index :: "InodeData \<Rightarrow> nat option" where
  "get_zip_index self = (case id_data self of Directory _ \<Rightarrow> None | File zip_index \<Rightarrow> Some zip_index)"

definition new_dir :: "nat \<Rightarrow> InodeData" where
  "new_dir mode = \<lparr>id_size = 0, id_mode = mode, id_data = Directory []\<rparr>"

text \<open>\<open>Option::unwrap_or\<close>\<close>

definition unwrap_or :: "'a option \<Rightarrow> 'a \<Rightarrow> 'a" where
  "unwrap_or m d = (case m of None \<Rightarrow> d | Some x \<Rightarrow> x)"

definition new_file :: "nat \<Rightarrow> zip_entry \<Rightarrow> InodeData" where
  "new_file zip_index zip_file =
     \<lparr>id_size = ze_size zip_file, id_mode = unwrap_or (ze_unix_mode zip_file) 0, id_data = File zip_index\<rparr>"

definition add_to_directory :: "InodeData \<Rightarrow> string \<Rightarrow> DirectoryEntry \<Rightarrow> ('e, InodeData) res" where
  "add_to_directory self name entry =
     (case id_data self of
        Directory hashtable \<Rightarrow>
          assert_r (map_of hashtable name = None)
            (Ok (self\<lparr>id_data := Directory (hashtable @ [(name, entry)])\<rparr>))
      | File _ \<Rightarrow> Panic)"

section \<open>The table\<close>

definition InodeTable_get :: "InodeTable \<Rightarrow> inode \<Rightarrow> InodeData option" where
  "InodeTable_get self inode =
     (if inode = INVALID then None
      else if inode < length (table self) then Some (table self ! inode) else None)"

text \<open>\<open>get_mut(inode).unwrap()\<close> followed by an update of the inode.\<close>

definition update_inode ::
  "InodeTable \<Rightarrow> inode \<Rightarrow> (InodeData \<Rightarrow> ('e, InodeData) res) \<Rightarrow> ('e, InodeTable) res" where
  "update_inode self inode f =
     try_r (unwrap (InodeTable_get self inode)) (\<lambda>d.
     try_r (f d) (\<lambda>d'. Ok (self\<lparr>table := (table self)[inode := d']\<rparr>)))"

definition InodeTable_put :: "InodeTable \<Rightarrow> InodeData \<Rightarrow> inode \<times> InodeTable" where
  "InodeTable_put self data = (length (table self), self\<lparr>table := table self @ [data]\<rparr>)"

definition InodeTable_find :: "InodeTable \<Rightarrow> inode \<Rightarrow> string \<Rightarrow> ('e, inode option) res" where
  "InodeTable_find self parent name =
     try_r (unwrap (InodeTable_get self parent)) (\<lambda>data.
     try_r (unwrap (get_directory data)) (\<lambda>hash.
     Ok (map_option de_inode (map_of hash name))))"

definition InodeTable_add ::
  "InodeTable \<Rightarrow> inode \<Rightarrow> string \<Rightarrow> InodeData \<Rightarrow> ('e, inode \<times> InodeTable) res" where
  "InodeTable_add self parent name data =
     try_r (InodeTable_find self parent name) (\<lambda>existing.
     assert_r (existing = None)
       (let kind = (if is_dir data then KindDirectory else KindFile) in
        case InodeTable_put self data of (inode, self) \<Rightarrow>
          try_r (update_inode self parent
                   (\<lambda>d. add_to_directory d name \<lparr>de_inode = inode, de_kind = kind\<rparr>)) (\<lambda>self.
          Ok (inode, self))))"

definition DEFAULT_DIR_MODE :: nat where
  "DEFAULT_DIR_MODE = S_IRUSR OR S_IXUSR"

text \<open>\<open>CString::new(name).unwrap()\<close>: panics on an interior NUL byte.\<close>

definition c_string :: "string \<Rightarrow> ('e, string) res" where
  "c_string name = (if CHR 0x00 \<in> set name then Panic else Ok name)"

text \<open>The \<open>while let\<close> loop of \<open>from_zip\<close> over the components of one path.\<close>

fun add_path ::
  "nat \<Rightarrow> zip_entry \<Rightarrow> inode \<Rightarrow> string list \<Rightarrow> InodeTable \<Rightarrow> (inode_error, InodeTable) res" where
  "add_path i file parent [] t = Ok t"
| "add_path i file parent (name # rest) t =
     (if name = ''..'' then Err DotDotNotAllowed
      else
        let is_leaf = (rest = []);
            is_file = (ze_is_file file \<and> is_leaf) in
        try_r (c_string name) (\<lambda>name.
        try_r (InodeTable_find t parent name) (\<lambda>found.
        case found of
          Some inode \<Rightarrow>
            try_r (if \<not> is_file \<and> is_leaf
                   then update_inode t inode (\<lambda>d. Ok (d\<lparr>id_mode := unwrap_or (ze_unix_mode file) 0\<rparr>))
                   else Ok t) (\<lambda>t.
            add_path i file inode rest t)
        | None \<Rightarrow>
            let data = (if is_file then new_file i file
                        else if is_leaf then new_dir (unwrap_or (ze_unix_mode file) DEFAULT_DIR_MODE)
                        else new_dir DEFAULT_DIR_MODE) in
            try_r (InodeTable_add t parent name data) (\<lambda>(new, t).
            add_path i file new rest t))))"

definition add_entry :: "zip_archive \<Rightarrow> InodeTable \<Rightarrow> nat \<Rightarrow> (inode_error, InodeTable) res" where
  "add_entry archive t i =
     try_r (map_err ZipError (za_by_index archive i)) (\<lambda>file.
     try_r (ok_or (InvalidName (ze_name file)) (ze_enclosed_name file)) (\<lambda>path.
     add_path i file ROOT path t))"

definition from_zip :: "zip_archive \<Rightarrow> (inode_error, InodeTable) res" where
  "from_zip archive =
     (case InodeTable_put \<lparr>table = []\<rparr> (new_dir 0) of (invalid, t) \<Rightarrow>
      assert_r (invalid = INVALID)
        (case InodeTable_put t (new_dir 0) of (root, t) \<Rightarrow>
         assert_r (root = ROOT)
           (try_fold (add_entry archive) t [0..<za_len archive])))"

section \<open>The invariant\<close>

definition entry_wf :: "InodeData list \<Rightarrow> inode \<Rightarrow> DirectoryEntry \<Rightarrow> bool" where
  "entry_wf ds parent e \<longleftrightarrow>
     parent < de_inode e \<and> ROOT < de_inode e \<and> de_inode e < length ds \<and>
     (de_kind e = KindDirectory \<longleftrightarrow> is_dir (ds ! de_inode e))"

definition dir_wf :: "InodeData list \<Rightarrow> inode \<Rightarrow> bool" where
  "dir_wf ds i \<longleftrightarrow>
     (case id_data (ds ! i) of
        Directory es \<Rightarrow> distinct (map fst es) \<and> (\<forall>x \<in> set es. entry_wf ds i (snd x))
      | File _ \<Rightarrow> True)"

text \<open>The places at which an inode is entered in a directory.\<close>

definition points :: "InodeData list \<Rightarrow> inode \<Rightarrow> string \<Rightarrow> inode \<Rightarrow> bool" where
  "points ds parent name i \<longleftrightarrow>
     (\<exists>es e. id_data (ds ! parent) = Directory es \<and> map_of es name = Some e \<and> de_inode e = i)"

definition links :: "InodeData list \<Rightarrow> inode \<Rightarrow> (inode \<times> string) set" where
  "links ds i =
     {(parent, name). parent < length ds \<and> points ds parent name i}"

definition inode_wf :: "InodeTable \<Rightarrow> bool" where
  "inode_wf t \<longleftrightarrow>
     ROOT < length (table t) \<and>
     id_data (table t ! INVALID) = Directory [] \<and> is_dir (table t ! ROOT) \<and>
     (\<forall>i < length (table t). dir_wf (table t) i) \<and>
     (\<forall>i < length (table t). ROOT < i \<longrightarrow> (\<exists>!l. l \<in> links (table t) i))"

text \<open>The child of an inode with a given name, and the inode a path leads to.\<close>

definition child :: "InodeTable \<Rightarrow> inode \<Rightarrow> string \<Rightarrow> inode option" where
  "child t i name =
     (case InodeTable_get t i of
        None \<Rightarrow> None
      | Some d \<Rightarrow> (case get_directory d of None \<Rightarrow> None | Some es \<Rightarrow> map_option de_inode (map_of es name)))"

fun resolve :: "InodeTable \<Rightarrow> inode \<Rightarrow> string list \<Rightarrow> inode option" where
  "resolve t i [] = Some i"
| "resolve t i (name # path) = (case child t i name of None \<Rightarrow> None | Some j \<Rightarrow> resolve t j path)"

definition dir_at :: "InodeTable \<Rightarrow> inode \<Rightarrow> bool" where
  "dir_at t i \<longleftrightarrow> i \<noteq> INVALID \<and> i < length (table t) \<and> is_dir (table t ! i)"

section \<open>One step of the construction\<close>

lemma is_dir_iff: "is_dir d \<longleftrightarrow> (\<exists>es. id_data d = Directory es)"
  by (simp add: is_dir_def split: InodeDataData.splits)

lemma child_eq:
  "child t i name =
     (if dir_at t i then (case id_data (table t ! i) of Directory es \<Rightarrow> map_option de_inode (map_of es name) | File _ \<Rightarrow> None)
      else None)"
  by (simp add: child_def dir_at_def InodeTable_get_def get_directory_def is_dir_def split: InodeDataData.splits)

lemma find_eq: "InodeTable_find t i name = (if dir_at t i then Ok (child t i name) else Panic)"
  by (simp add: InodeTable_find_def child_def dir_at_def InodeTable_get_def get_directory_def is_dir_def
      split: InodeDataData.splits)

lemma child_Some_dir: "child t i name = Some j \<Longrightarrow> dir_at t i"
  by (simp add: child_eq split: if_splits)

definition es_of :: "InodeData \<Rightarrow> (string \<times> DirectoryEntry) list" where
  "es_of d = (case id_data d of Directory es \<Rightarrow> es | File _ \<Rightarrow> [])"

lemma es_of_Directory [simp]: "id_data d = Directory es \<Longrightarrow> es_of d = es"
  by (simp add: es_of_def)

definition kind_of :: "InodeData \<Rightarrow> InodeKind" where
  "kind_of d = (if is_dir d then KindDirectory else KindFile)"

definition linked :: "InodeTable \<Rightarrow> inode \<Rightarrow> string \<Rightarrow> InodeData \<Rightarrow> InodeTable" where
  "linked t p name d =
     t\<lparr>table := (table t)[p := (table t ! p)\<lparr>id_data := Directory (es_of (table t ! p) @
       [(name, \<lparr>de_inode = length (table t), de_kind = kind_of d\<rparr>)])\<rparr>] @ [d]\<rparr>"

definition set_mode :: "InodeTable \<Rightarrow> inode \<Rightarrow> nat \<Rightarrow> InodeTable" where
  "set_mode t i m = t\<lparr>table := (table t)[i := (table t ! i)\<lparr>id_mode := m\<rparr>]\<rparr>"

lemma set_mode_eq:
  "update_inode t i (\<lambda>d. Ok (d\<lparr>id_mode := m\<rparr>)) = (if InodeTable_get t i = None then Panic else Ok (set_mode t i m))"
  by (auto simp: update_inode_def set_mode_def InodeTable_get_def)

lemma add_eq:
  "dir_at t p \<Longrightarrow> child t p name = None \<Longrightarrow>
   InodeTable_add t p name d = (Ok (length (table t), linked t p name d) :: ('e, inode \<times> InodeTable) res)"
proof -
  assume p: "dir_at t p" and c: "child t p name = None"
  then obtain es where es: "id_data (table t ! p) = Directory es" "map_of es name = None"
    by (auto simp: child_eq dir_at_def is_dir_iff)
  with p have "update_inode (t\<lparr>table := table t @ [d]\<rparr>) p (\<lambda>d'. add_to_directory d' name
      \<lparr>de_inode = length (table t), de_kind = kind_of d\<rparr>) = (Ok (linked t p name d) :: ('e, InodeTable) res)"
    by (simp add: update_inode_def InodeTable_get_def dir_at_def add_to_directory_def linked_def nth_append
        list_update_append)
  then show "InodeTable_add t p name d = (Ok (length (table t), linked t p name d) :: ('e, inode \<times> InodeTable) res)"
    using p c by (simp add: InodeTable_add_def find_eq InodeTable_put_def flip: kind_of_def)
qed

text \<open>The inode made for a missing component.\<close>

definition fresh_inode :: "nat \<Rightarrow> zip_entry \<Rightarrow> string list \<Rightarrow> InodeData" where
  "fresh_inode i file rest =
     (if ze_is_file file \<and> rest = [] then new_file i file
      else if rest = [] then new_dir (unwrap_or (ze_unix_mode file) DEFAULT_DIR_MODE)
      else new_dir DEFAULT_DIR_MODE)"

definition found_table :: "zip_entry \<Rightarrow> string list \<Rightarrow> InodeTable \<Rightarrow> inode \<Rightarrow> InodeTable" where
  "found_table file rest t inode =
     (if rest = [] \<and> \<not> ze_is_file file then set_mode t inode (unwrap_or (ze_unix_mode file) 0) else t)"

lemma add_path_Cons:
  "add_path i file parent (name # rest) t =
     (if name = ''..'' then Err DotDotNotAllowed
      else if CHR 0x00 \<in> set name \<or> \<not> dir_at t parent then Panic
      else case child t parent name of
        Some inode \<Rightarrow>
          if rest = [] \<and> \<not> ze_is_file file \<and> InodeTable_get t inode = None then Panic
          else add_path i file inode rest (found_table file rest t inode)
      | None \<Rightarrow> add_path i file (length (table t)) rest (linked t parent name (fresh_inode i file rest)))"
proof (cases "dir_at t parent")
  case True
  then show ?thesis
    by (cases "child t parent name")
      (auto simp: c_string_def find_eq add_eq set_mode_eq found_table_def fresh_inode_def Let_def)
qed (simp add: c_string_def find_eq)

declare add_path.simps(2) [simp del]

text \<open>How the table grows: entries are only added, a file stays the file it is.\<close>

definition data_extends :: "InodeData \<Rightarrow> InodeData \<Rightarrow> bool" where
  "data_extends d d' \<longleftrightarrow> id_size d' = id_size d \<and>
     (case id_data d of Directory es \<Rightarrow> \<exists>new. id_data d' = Directory (es @ new) | File j \<Rightarrow> id_data d' = File j)"

definition extends :: "InodeTable \<Rightarrow> InodeTable \<Rightarrow> bool" where
  "extends t t' \<longleftrightarrow> length (table t) \<le> length (table t') \<and>
     (\<forall>i < length (table t). data_extends (table t ! i) (table t' ! i))"

lemma data_extends_refl [simp]: "data_extends d d"
  by (simp add: data_extends_def split: InodeDataData.splits)

lemma data_extends_trans: "data_extends a b \<Longrightarrow> data_extends b c \<Longrightarrow> data_extends a c"
  by (auto simp: data_extends_def split: InodeDataData.splits)

lemma extends_refl [simp]: "extends t t"
  by (simp add: extends_def)

lemma extends_trans: "extends a b \<Longrightarrow> extends b c \<Longrightarrow> extends a c"
proof -
  assume *: "extends a b" "extends b c"
  have "data_extends (table a ! i) (table c ! i)" if "i < length (table a)" for i
  proof (rule data_extends_trans)
    show "data_extends (table a ! i) (table b ! i)" using * that by (simp add: extends_def)
    show "data_extends (table b ! i) (table c ! i)" using * that by (simp add: extends_def)
  qed
  with * show ?thesis by (simp add: extends_def)
qed

lemma extends_child: "extends t t' \<Longrightarrow> child t i name = Some j \<Longrightarrow> child t' i name = Some j"
proof -
  assume ext: "extends t t'" and c: "child t i name = Some j"
  from c have d: "dir_at t i" by (rule child_Some_dir)
  then obtain es where es: "id_data (table t ! i) = Directory es" by (auto simp: dir_at_def is_dir_iff)
  from ext d have "data_extends (table t ! i) (table t' ! i)" "i < length (table t')"
    by (auto simp: extends_def dir_at_def)
  then obtain new where "id_data (table t' ! i) = Directory (es @ new)" "dir_at t' i"
    using es d by (auto simp: data_extends_def dir_at_def is_dir_iff)
  with c d es show ?thesis by (auto simp: child_eq map_add_Some_iff)
qed

lemma extends_resolve: "extends t t' \<Longrightarrow> resolve t i path = Some j \<Longrightarrow> resolve t' i path = Some j"
proof (induction path arbitrary: i)
  case (Cons name path)
  then obtain k where "child t i name = Some k" "resolve t k path = Some j" by (auto split: option.splits)
  with Cons.IH Cons.prems(1) extends_child[OF Cons.prems(1)] show ?case by simp
qed simp

lemma resolve_append:
  "resolve t i (p @ q) = (case resolve t i p of None \<Rightarrow> None | Some j \<Rightarrow> resolve t j q)"
  by (induction p arbitrary: i) (auto split: option.splits)

lemma extends_linked: "dir_at t p \<Longrightarrow> extends t (linked t p name d)"
  unfolding extends_def
proof (intro conjI allI impI)
  fix i
  assume "dir_at t p" "i < length (table t)"
  then show "data_extends (table t ! i) (table (linked t p name d) ! i)"
    by (cases "i = p") (auto simp: linked_def dir_at_def is_dir_iff nth_append data_extends_def[of "table t ! p"])
qed (simp add: linked_def)

lemma length_linked: "dir_at t p \<Longrightarrow> length (table (linked t p name d)) = Suc (length (table t))"
  by (auto simp: linked_def dir_at_def is_dir_iff)

lemma nth_linked:
  assumes "dir_at t p" "i \<le> length (table t)"
  shows "table (linked t p name d) ! i =
    (if i = p then (table t ! p)\<lparr>id_data := Directory (es_of (table t ! p) @
        [(name, \<lparr>de_inode = length (table t), de_kind = kind_of d\<rparr>)])\<rparr>
     else if i = length (table t) then d else table t ! i)"
  using assms by (auto simp: linked_def dir_at_def nth_append)

lemma is_dir_linked:
  assumes "dir_at t p" "i < length (table t)"
  shows "is_dir (table (linked t p name d) ! i) = is_dir (table t ! i)"
  using assms by (auto simp: nth_linked dir_at_def) (simp add: is_dir_def)

lemma child_linked_new:
  "dir_at t p \<Longrightarrow> child t p name = None \<Longrightarrow> child (linked t p name d) p name = Some (length (table t))"
  by (auto simp: child_eq dir_at_def nth_linked length_linked is_dir_iff map_add_def)

text \<open>A fresh inode has no entries.\<close>

definition fresh :: "InodeData \<Rightarrow> bool" where
  "fresh d \<longleftrightarrow> (\<forall>es. id_data d = Directory es \<longrightarrow> es = [])"

lemma fresh_inodes [simp]: "fresh (new_dir m)" "fresh (new_file i file)" "fresh (fresh_inode i file rest)"
  by (simp_all add: fresh_def new_dir_def new_file_def fresh_inode_def)

lemma entry_wf_linked:
  "dir_at t p \<Longrightarrow> entry_wf (table t) i e \<Longrightarrow> entry_wf (table (linked t p name d)) i e"
  by (auto simp: entry_wf_def length_linked is_dir_linked)

lemma dir_wf_linked:
  assumes p: "dir_at t p" and c: "child t p name = None" and d: "fresh d" and root: "ROOT < length (table t)"
    and wf: "\<And>i. i < length (table t) \<Longrightarrow> dir_wf (table t) i" and i: "i \<le> length (table t)"
  shows "dir_wf (table (linked t p name d)) i"
proof -
  obtain es where es: "id_data (table t ! p) = Directory es" using p by (auto simp: dir_at_def is_dir_iff)
  have pl: "p < length (table t)" using p by (simp add: dir_at_def)
  consider "i = p" | "i \<noteq> p" "i = length (table t)" | "i \<noteq> p" "i < length (table t)" using i by linarith
  then show ?thesis
  proof cases
    case 1
    have "name \<notin> fst ` set es" using c es p by (auto simp: child_eq map_of_eq_None_iff)
    moreover have "entry_wf (table (linked t p name d)) p \<lparr>de_inode = length (table t), de_kind = kind_of d\<rparr>"
      using p pl root by (simp add: entry_wf_def length_linked nth_linked kind_of_def)
    ultimately show ?thesis
      using wf[OF pl] es p pl 1 entry_wf_linked[OF p, of p]
      by (auto simp: dir_wf_def nth_linked)
  next
    case 2
    with d p show ?thesis by (auto simp: dir_wf_def nth_linked fresh_def split: InodeDataData.splits)
  next
    case 3
    with wf[of i] p entry_wf_linked[OF p, of i] show ?thesis
      by (auto simp: dir_wf_def nth_linked split: InodeDataData.splits)
  qed
qed

lemma dir_wf_inode_less:
  "dir_wf ds i \<Longrightarrow> id_data (ds ! i) = Directory es \<Longrightarrow> map_of es name = Some e \<Longrightarrow> entry_wf ds i e"
  by (auto simp: dir_wf_def dest!: map_of_SomeD)

lemma links_linked:
  assumes p: "dir_at t p" and c: "child t p name = None" and d: "fresh d"
    and wf: "\<And>i. i < length (table t) \<Longrightarrow> dir_wf (table t) i" and i: "i \<le> length (table t)"
  shows "links (table (linked t p name d)) i =
    (if i = length (table t) then {(p, name)} else links (table t) i)"
proof -
  obtain es where es: "id_data (table t ! p) = Directory es" using p by (auto simp: dir_at_def is_dir_iff)
  have pl: "p < length (table t)" using p by (simp add: dir_at_def)
  have nn: "map_of es name = None" using c es p by (simp add: child_eq)
  have old: "de_inode e < length (table t)"
    if "q < length (table t)" "id_data (table t ! q) = Directory fs" "map_of fs n = Some e" for q fs n e
    using dir_wf_inode_less[OF wf[OF that(1)] that(2,3)] by (simp add: entry_wf_def)
  let ?ds = "table (linked t p name d)"
  have new: "points ?ds q n i \<longleftrightarrow>
      (q < length (table t) \<and> points (table t) q n i) \<or> (q = p \<and> n = name \<and> i = length (table t))"
    if "q \<le> length (table t)" for q n
  proof (cases "q = p")
    case True
    with es nn pl p show ?thesis by (auto simp: points_def nth_linked map_add_Some_iff split: if_splits)
  next
    case False
    with that d p show ?thesis
      by (cases "q = length (table t)") (auto simp: points_def nth_linked fresh_def)
  qed
  have none: "\<not> points (table t) q n (length (table t))" if "q < length (table t)" for q n
    unfolding points_def using old[OF that] by (metis less_irrefl)
  have "(q, n) \<in> links ?ds i \<longleftrightarrow> (q, n) \<in> (if i = length (table t) then {(p, name)} else links (table t) i)" for q n
  proof (cases "q \<le> length (table t)")
    case True
    with new[OF True, of n] none[of q n] pl show ?thesis
      by (auto simp: links_def length_linked[OF p] less_Suc_eq_le)
  qed (use pl in \<open>auto simp: links_def length_linked[OF p]\<close>)
  then show ?thesis by auto
qed

lemma inode_wf_linked:
  assumes wf: "inode_wf t" and p: "dir_at t p" and c: "child t p name = None" and d: "fresh d"
  shows "inode_wf (linked t p name d)"
proof -
  have dirs: "\<And>i. i < length (table t) \<Longrightarrow> dir_wf (table t) i" and root: "ROOT < length (table t)"
    and one: "\<And>i. i < length (table t) \<Longrightarrow> ROOT < i \<Longrightarrow> \<exists>!l. l \<in> links (table t) i"
    using wf by (simp_all add: inode_wf_def)
  have "id_data (table (linked t p name d) ! INVALID) = Directory []"
    using wf p root by (subst nth_linked[OF p]) (auto simp: inode_wf_def dir_at_def INVALID_def)
  moreover have "\<exists>!l. l \<in> links (table (linked t p name d)) i" if "i \<le> length (table t)" "ROOT < i" for i
    using links_linked[OF p c d dirs that(1)] one[of i] that by (cases "i = length (table t)") simp_all
  moreover have "is_dir (table (linked t p name d) ! ROOT)"
    using is_dir_linked[OF p root] wf by (simp add: inode_wf_def)
  ultimately show ?thesis
    using dir_wf_linked[OF p c d root dirs] root by (simp add: inode_wf_def length_linked[OF p] less_Suc_eq_le)
qed

text \<open>A change of modes and sizes does not change the tree.\<close>

lemma same_shape:
  assumes "map id_data (table t') = map id_data (table t)"
  shows "length (table t') = length (table t)" "dir_at t' = dir_at t" "child t' = child t"
    "inode_wf t' = inode_wf t"
proof -
  show len: "length (table t') = length (table t)" using assms by (metis length_map)
  have nth: "id_data (table t' ! i) = id_data (table t ! i)" if "i < length (table t)" for i
    using assms that len by (metis nth_map)
  have dir: "is_dir (table t' ! i) = is_dir (table t ! i)" if "i < length (table t)" for i
    using nth[OF that] by (simp add: is_dir_def)
  show at: "dir_at t' = dir_at t" by (rule ext) (use len dir in \<open>auto simp: dir_at_def\<close>)
  show "child t' = child t"
  proof (intro ext)
    fix i name
    show "child t' i name = child t i name"
    proof (cases "dir_at t i")
      case True
      then have "i < length (table t)" by (simp add: dir_at_def)
      with True at nth[of i] show ?thesis by (simp add: child_eq)
    qed (simp add: child_eq at)
  qed
  have links: "links (table t') i = links (table t) i" for i
    using len nth by (auto simp: links_def points_def)
  have dirs: "dir_wf (table t') i = dir_wf (table t) i" if "i < length (table t)" for i
  proof -
    have "entry_wf (table t') i e = entry_wf (table t) i e" for e
      using len dir by (auto simp: entry_wf_def)
    then show ?thesis using nth[OF that] by (simp add: dir_wf_def split: InodeDataData.split)
  qed
  show "inode_wf t' = inode_wf t"
  proof (cases "ROOT < length (table t)")
    case True
    then have "INVALID < length (table t)" unfolding INVALID_def by linarith
    with True show ?thesis
      by (simp add: inode_wf_def len nth dir links dirs cong: conj_cong)
  qed (simp add: inode_wf_def len)
qed

lemma set_mode_shape: "map id_data (table (set_mode t i m)) = map id_data (table t)"
  by (cases "i < length (table t)") (simp_all add: set_mode_def map_update list_update_beyond list_update_same_conv)

lemma found_shape: "map id_data (table (found_table file rest t i)) = map id_data (table t)"
  by (simp add: found_table_def set_mode_shape)

lemmas found_same = same_shape[OF found_shape]

lemma extends_found: "extends t (found_table file rest t i)"
proof -
  have "data_extends d (d\<lparr>id_mode := m\<rparr>)" for d m
    by (simp add: data_extends_def split: InodeDataData.splits)
  then have "data_extends (table t ! k) ((table t)[i := (table t ! i)\<lparr>id_mode := m\<rparr>] ! k)" if "k < length (table t)" for k m
    using that by (cases "k = i") simp_all
  then show ?thesis by (simp add: found_table_def extends_def set_mode_def)
qed

section \<open>The tree\<close>

lemma wf_child:
  assumes "inode_wf t" "child t i name = Some j"
  shows "i < j" "ROOT < j" "j < length (table t)" "(i, name) \<in> links (table t) j" "i < length (table t)"
proof -
  from assms(2) have d: "dir_at t i" by (rule child_Some_dir)
  then obtain es e where es: "id_data (table t ! i) = Directory es" "map_of es name = Some e" "de_inode e = j"
    using assms(2) by (auto simp: child_eq dir_at_def is_dir_iff)
  show i: "i < length (table t)" using d by (simp add: dir_at_def)
  with assms(1) es have "entry_wf (table t) i e"
    by (auto simp: inode_wf_def intro: dir_wf_inode_less)
  with es show "i < j" "ROOT < j" "j < length (table t)" by (auto simp: entry_wf_def)
  from es i show "(i, name) \<in> links (table t) j" by (auto simp: links_def points_def)
qed

lemma wf_resolve_less:
  "inode_wf t \<Longrightarrow> i < length (table t) \<Longrightarrow> resolve t i path = Some j \<Longrightarrow> j < length (table t)"
  by (induction path arbitrary: i) (auto split: option.splits dest: wf_child(3))

lemma resolve_snoc:
  "resolve t i (path @ [name]) = Some j \<longleftrightarrow> (\<exists>k. resolve t i path = Some k \<and> child t k name = Some j)"
  by (auto simp: resolve_append split: option.splits)

text \<open>Two paths from the root do not lead to the same inode.\<close>

lemma resolve_unique:
  assumes wf: "inode_wf t"
  shows "resolve t ROOT p = Some i \<Longrightarrow> resolve t ROOT q = Some i \<Longrightarrow> p = q"
proof (induction p arbitrary: i q rule: rev_induct)
  case Nil
  then have i: "i = ROOT" by simp
  show ?case
  proof (cases q rule: rev_cases)
    case (snoc q' m)
    with Nil(2) obtain k where "child t k m = Some i" by (auto simp: resolve_snoc)
    with wf_child(2)[OF wf] i show ?thesis by blast
  qed simp
next
  case (snoc n p)
  then obtain k where k: "resolve t ROOT p = Some k" "child t k n = Some i" by (auto simp: resolve_snoc)
  note ki = wf_child[OF wf k(2)]
  show ?case
  proof (cases q rule: rev_cases)
    case Nil
    with snoc.prems(2) ki(2) show ?thesis by simp
  next
    case (snoc q' m)
    with snoc.prems(2) obtain l where l: "resolve t ROOT q' = Some l" "child t l m = Some i"
      by (auto simp: resolve_snoc)
    have "(k, n) = (l, m)"
      using wf ki wf_child(4)[OF wf l(2)] unfolding inode_wf_def by blast
    with snoc.IH[OF k(1)] l(1) snoc show ?thesis by simp
  qed
qed

section \<open>One archive entry\<close>

text \<open>What one entry contributes: the table grows, its path leads somewhere, a file inode that is new is
  the file of this entry, at this path, and a directory that is new is at a prefix of the path (at the
  whole path only if the entry is a directory).\<close>

definition dir_of_entry :: "InodeTable \<Rightarrow> inode \<Rightarrow> inode \<Rightarrow> zip_entry \<Rightarrow> string list \<Rightarrow> bool" where
  "dir_of_entry t k parent file path \<longleftrightarrow>
     (\<exists>p. resolve t parent p = Some k \<and> prefix p path \<and> (p = path \<longrightarrow> \<not> ze_is_file file))"

definition contributes :: "nat \<Rightarrow> zip_entry \<Rightarrow> inode \<Rightarrow> string list \<Rightarrow> InodeTable \<Rightarrow> InodeTable \<Rightarrow> bool" where
  "contributes i file parent path t t' \<longleftrightarrow>
     inode_wf t' \<and> extends t t' \<and> resolve t' parent path \<noteq> None \<and>
     (\<forall>k < length (table t'). length (table t) \<le> k \<longrightarrow> (\<forall>j. id_data (table t' ! k) = File j \<longrightarrow>
        j = i \<and> ze_is_file file \<and> id_size (table t' ! k) = ze_size file \<and> resolve t' parent path = Some k)) \<and>
     (\<forall>k < length (table t'). length (table t) \<le> k \<longrightarrow> is_dir (table t' ! k) \<longrightarrow>
        dir_of_entry t' k parent file path)"

lemma extends_is_dir: "extends t t' \<Longrightarrow> k < length (table t) \<Longrightarrow> is_dir (table t' ! k) = is_dir (table t ! k)"
  by (auto simp: extends_def data_extends_def is_dir_def split: InodeDataData.splits)

lemma dir_of_entry_Cons:
  "child t parent name = Some j \<Longrightarrow> dir_of_entry t k j file rest \<Longrightarrow> dir_of_entry t k parent file (name # rest)"
  unfolding dir_of_entry_def
  by (elim exE conjE, rule_tac x = "name # p" in exI) simp

lemma add_path_contributes:
  "inode_wf t \<Longrightarrow> add_path i file parent path t = Ok t' \<Longrightarrow> contributes i file parent path t t'"
proof (induction path arbitrary: parent t)
  case Nil
  then show ?case by (simp add: contributes_def)
next
  case (Cons name rest)
  from Cons.prems(2) have d: "dir_at t parent" by (auto simp: add_path_Cons split: if_splits)
  show ?case
  proof (cases "child t parent name")
    case (Some inode)
    let ?t = "found_table file rest t inode"
    have ct: "contributes i file inode rest ?t t'"
      using Cons.IH[of ?t inode] Cons.prems Some by (auto simp: add_path_Cons found_same split: if_splits)
    then have "extends ?t t'" by (simp add: contributes_def)
    from extends_trans[OF extends_found this] have "extends t t'" .
    with ct extends_child[OF this Some] show ?thesis by (simp add: contributes_def found_same dir_of_entry_Cons)
  next
    case None
    let ?d = "fresh_inode i file rest" and ?n = "length (table t)"
    let ?t = "linked t parent name ?d"
    have ct: "contributes i file ?n rest ?t t'"
      using Cons.IH[of ?t ?n] Cons.prems None d inode_wf_linked[OF Cons.prems(1) d None]
      by (auto simp: add_path_Cons split: if_splits)
    then have "extends ?t t'" by (simp add: contributes_def)
    from extends_child[OF this child_linked_new[OF d None]] have child': "child t' parent name = Some ?n" .
    have old: "j = i \<and> ze_is_file file \<and> id_size (table t' ! ?n) = ze_size file \<and> resolve t' ?n rest = Some ?n"
      if "id_data (table t' ! ?n) = File j" for j
    proof -
      have "table ?t ! ?n = ?d" using d by (auto simp: nth_linked dir_at_def)
      moreover have "data_extends (table ?t ! ?n) (table t' ! ?n)"
        using ct by (simp add: contributes_def extends_def length_linked[OF d])
      ultimately have "id_data ?d = File j" "id_size (table t' ! ?n) = id_size ?d"
        using that by (auto simp: data_extends_def split: InodeDataData.splits)
      then show ?thesis by (auto simp: fresh_inode_def new_dir_def new_file_def split: if_splits)
    qed
    have "extends t t'" by (rule extends_trans[OF extends_linked[OF d] \<open>extends ?t t'\<close>])
    moreover have "j = i \<and> ze_is_file file \<and> id_size (table t' ! k) = ze_size file \<and> resolve t' ?n rest = Some k"
      if "k < length (table t')" "?n \<le> k" "id_data (table t' ! k) = File j" for k j
      using ct old that by (cases "k = ?n") (auto simp: contributes_def length_linked[OF d])
    moreover have "dir_of_entry t' k ?n file rest" if "k < length (table t')" "?n \<le> k" "is_dir (table t' ! k)" for k
    proof (cases "k = ?n")
      case True
      have "is_dir ?d" using that True extends_is_dir[OF \<open>extends ?t t'\<close>, of ?n] d
        by (auto simp: nth_linked dir_at_def length_linked)
      then have "\<not> (ze_is_file file \<and> rest = [])"
        by (auto simp: fresh_inode_def new_file_def is_dir_def)
      with True show ?thesis unfolding dir_of_entry_def by (intro exI[of _ "[]"]) auto
    qed (use ct that in \<open>simp add: contributes_def length_linked[OF d]\<close>)
    ultimately show ?thesis using ct child' by (simp add: contributes_def dir_of_entry_Cons[OF child'])
  qed
qed

section \<open>The archive as a whole\<close>

definition entry_at :: "zip_archive \<Rightarrow> nat \<Rightarrow> zip_entry \<Rightarrow> string list \<Rightarrow> bool" where
  "entry_at archive i file path \<longleftrightarrow> za_by_index archive i = Ok file \<and> ze_enclosed_name file = Some path"

text \<open>The table describes the first \<open>k\<close> entries of the archive.\<close>

definition describes :: "zip_archive \<Rightarrow> nat \<Rightarrow> InodeTable \<Rightarrow> bool" where
  "describes archive k t \<longleftrightarrow>
     inode_wf t \<and>
     (\<forall>i < k. \<exists>file path. entry_at archive i file path \<and> resolve t ROOT path \<noteq> None) \<and>
     (\<forall>ino < length (table t). \<forall>j. id_data (table t ! ino) = File j \<longrightarrow>
        j < k \<and> (\<exists>file path. entry_at archive j file path \<and> ze_is_file file \<and>
          id_size (table t ! ino) = ze_size file \<and> resolve t ROOT path = Some ino)) \<and>
     (\<forall>ino < length (table t). ROOT < ino \<longrightarrow> is_dir (table t ! ino) \<longrightarrow>
        (\<exists>j < k. \<exists>file path. entry_at archive j file path \<and> dir_of_entry t ino ROOT file path))"

lemma describesD:
  assumes "describes archive k t" "ino < length (table t)" "id_data (table t ! ino) = File j"
  shows "\<exists>file path. j < k \<and> entry_at archive j file path \<and> ze_is_file file \<and>
    id_size (table t ! ino) = ze_size file \<and> resolve t ROOT path = Some ino"
  using assms(1)[unfolded describes_def, THEN conjunct2, THEN conjunct2, THEN conjunct1, rule_format, OF assms(2,3)] by blast

lemma contributesD:
  assumes "contributes i file parent path t t'" "k < length (table t')" "length (table t) \<le> k"
    "id_data (table t' ! k) = File j"
  shows "j = i \<and> ze_is_file file \<and> id_size (table t' ! k) = ze_size file \<and> resolve t' parent path = Some k"
  using assms(1)[unfolded contributes_def, THEN conjunct2, THEN conjunct2, THEN conjunct2, THEN conjunct1, rule_format, OF assms(2-4)] .

lemma describes_dirD:
  assumes "describes archive k t" "ino < length (table t)" "ROOT < ino" "is_dir (table t ! ino)"
  shows "\<exists>j < k. \<exists>file path. entry_at archive j file path \<and> dir_of_entry t ino ROOT file path"
  using assms(1)[unfolded describes_def, THEN conjunct2, THEN conjunct2, THEN conjunct2, rule_format, OF assms(2-4)] .

lemma contributes_dirD:
  assumes "contributes i file parent path t t'" "k < length (table t')" "length (table t) \<le> k" "is_dir (table t' ! k)"
  shows "dir_of_entry t' k parent file path"
  using assms(1)[unfolded contributes_def, THEN conjunct2, THEN conjunct2, THEN conjunct2, THEN conjunct2,
      rule_format, OF assms(2-4)] .

lemma extends_dir_of_entry: "extends t t' \<Longrightarrow> dir_of_entry t k i file path \<Longrightarrow> dir_of_entry t' k i file path"
  unfolding dir_of_entry_def by (elim exE conjE, rule_tac x = p in exI) (simp add: extends_resolve)

lemma add_entry_describes:
  assumes t: "describes archive k t" and add: "add_entry archive t k = Ok t'"
  shows "describes archive (Suc k) t'"
proof -
  from add obtain zf path where fp: "entry_at archive k zf path" "add_path k zf ROOT path t = Ok t'"
    by (auto simp: add_entry_def try_r_Ok_iff entry_at_def)
  from t have wf: "inode_wf t" by (simp add: describes_def)
  note ct = add_path_contributes[OF wf fp(2)]
  then have ext: "extends t t'" by (simp add: contributes_def)
  have "\<exists>file path. entry_at archive i file path \<and> resolve t' ROOT path \<noteq> None" if i: "i < Suc k" for i
  proof (cases "i = k")
    case True
    with fp ct show ?thesis unfolding contributes_def by blast
  next
    case False
    then obtain zf' path' j where "entry_at archive i zf' path'" "resolve t ROOT path' = Some j"
      using t i by (fastforce simp: describes_def less_Suc_eq)
    with extends_resolve[OF ext] show ?thesis by blast
  qed
  moreover have "j < Suc k \<and> (\<exists>file path. entry_at archive j file path \<and> ze_is_file file \<and>
      id_size (table t' ! ino) = ze_size file \<and> resolve t' ROOT path = Some ino)"
    if ino: "ino < length (table t')" "id_data (table t' ! ino) = File j" for ino j
  proof (cases "ino < length (table t)")
    case True
    then have "data_extends (table t ! ino) (table t' ! ino)" using ext by (simp add: extends_def)
    then have "id_data (table t ! ino) = File j" "id_size (table t ! ino) = id_size (table t' ! ino)"
      using ino(2) by (auto simp: data_extends_def split: InodeDataData.splits)
    from describesD[OF t True this(1)] this(2)
    obtain zf' path' where "j < k" "entry_at archive j zf' path'" "ze_is_file zf'"
      "id_size (table t' ! ino) = ze_size zf'" "resolve t ROOT path' = Some ino" by auto
    with extends_resolve[OF ext this(5)] show ?thesis by auto
  next
    case False
    with contributesD[OF ct ino(1) _ ino(2)] fp(1) show ?thesis by auto
  qed
  moreover have "\<exists>j < Suc k. \<exists>file path. entry_at archive j file path \<and> dir_of_entry t' ino ROOT file path"
    if ino: "ino < length (table t')" "ROOT < ino" "is_dir (table t' ! ino)" for ino
  proof (cases "ino < length (table t)")
    case True
    with describes_dirD[OF t True ino(2)] extends_is_dir[OF ext True] ino(3)
    obtain j zf' path' where "j < k" "entry_at archive j zf' path'" "dir_of_entry t ino ROOT zf' path'" by auto
    with extends_dir_of_entry[OF ext this(3)] show ?thesis by (meson less_SucI)
  next
    case False
    then have "length (table t) \<le> ino" by simp
    from contributes_dirD[OF ct ino(1) this ino(3)] fp(1) show ?thesis by auto
  qed
  moreover have "inode_wf t'" using ct by (simp add: contributes_def)
  ultimately show ?thesis unfolding describes_def by blast
qed

definition empty_table :: InodeTable where
  "empty_table = \<lparr>table = [new_dir 0, new_dir 0]\<rparr>"

lemma from_zip_eq: "from_zip archive = try_fold (add_entry archive) empty_table [0..<za_len archive]"
  by (simp add: from_zip_def InodeTable_put_def INVALID_def ROOT_def empty_table_def)

lemma empty_table_describes: "describes archive 0 empty_table"
proof -
  have "length (table empty_table) = 2" "\<And>i. i < 2 \<Longrightarrow> id_data (table empty_table ! i) = Directory []"
    by (auto simp: empty_table_def new_dir_def less_2_cases_iff)
  then show ?thesis
    by (auto simp: describes_def inode_wf_def dir_wf_def is_dir_def ROOT_def INVALID_def)
qed

lemma fold_describes:
  "try_fold (add_entry archive) empty_table [0..<n] = Ok t \<Longrightarrow> describes archive n t"
proof (induction n arbitrary: t)
  case 0
  then show ?case using empty_table_describes by simp
next
  case (Suc n)
  then show ?case using add_entry_describes by (auto simp: try_fold_append try_r_Ok_iff)
qed

text \<open>The entries that are added later leave what is there.\<close>

lemma add_entry_extends:
  assumes "describes archive k t" "add_entry archive t k = Ok t'"
  shows "extends t t'"
proof -
  from assms(2) obtain zf path where "add_path k zf ROOT path t = Ok t'" by (auto simp: add_entry_def try_r_Ok_iff)
  from add_path_contributes[OF _ this] assms(1) show ?thesis by (simp add: describes_def contributes_def)
qed

lemma fold_extends:
  "try_fold (add_entry archive) empty_table [0..<m] = Ok t' \<Longrightarrow> n \<le> m \<Longrightarrow>
   \<exists>t. try_fold (add_entry archive) empty_table [0..<n] = Ok t \<and> extends t t'"
proof (induction m arbitrary: t')
  case (Suc m)
  show ?case
  proof (cases "n = Suc m")
    case False
    from Suc.prems(1) obtain t1 where t1: "try_fold (add_entry archive) empty_table [0..<m] = Ok t1"
      "add_entry archive t1 m = Ok t'" by (auto simp: try_fold_append try_r_Ok_iff)
    from Suc.IH[OF t1(1)] False Suc.prems(2) obtain t where
      "try_fold (add_entry archive) empty_table [0..<n] = Ok t" "extends t t1" by auto
    with extends_trans add_entry_extends[OF fold_describes[OF t1(1)] t1(2)] show ?thesis by blast
  qed (use Suc.prems in auto)
qed simp

text \<open>The first entry at or below a path decides what is at the path: the file of that entry if the entry is a file and
  has this path, and a directory otherwise.\<close>

definition first_entry :: "zip_archive \<Rightarrow> nat \<Rightarrow> string list \<Rightarrow> bool" where
  "first_entry archive i path \<longleftrightarrow> (\<forall>j < i. \<forall>file' path'. entry_at archive j file' path' \<longrightarrow> \<not> prefix path path')"

lemma entry_at_unique: "entry_at archive i f p \<Longrightarrow> entry_at archive i g q \<Longrightarrow> f = g \<and> p = q"
  by (auto simp: entry_at_def)

lemma first_entry_decides:
  assumes t: "describes archive (Suc i) t" and i: "entry_at archive i zf path'" "prefix path path'" "path \<noteq> []"
    "first_entry archive i path"
  shows "\<exists>ino. resolve t ROOT path = Some ino \<and> ino < length (table t) \<and> ROOT < ino \<and>
    (if path = path' \<and> ze_is_file zf then id_data (table t ! ino) = File i \<and> id_size (table t ! ino) = ze_size zf
     else is_dir (table t ! ino))"
proof -
  have wf: "inode_wf t" using t by (simp add: describes_def)
  have "\<exists>file path. entry_at archive i file path \<and> resolve t ROOT path \<noteq> None"
    using t[unfolded describes_def, THEN conjunct2, THEN conjunct1, rule_format, OF lessI] .
  with i(1) have "resolve t ROOT path' \<noteq> None" using entry_at_unique by blast
  with i(2) obtain ino where ino: "resolve t ROOT path = Some ino"
    by (auto simp: prefix_def resolve_append split: option.splits)
  have root: "ROOT < length (table t)" using wf by (simp add: inode_wf_def)
  note lt = wf_resolve_less[OF wf root ino]
  obtain p n where "path = p @ [n]" using i(3) by (cases path rule: rev_cases) auto
  with ino obtain k where "child t k n = Some ino" by (auto simp: resolve_snoc)
  from wf_child(2)[OF wf this] have r: "ROOT < ino" .
  have first: "j = i" if "j < Suc i" "entry_at archive j f q" "prefix path q" for j f q
    using that i(4) unfolding first_entry_def by (metis less_antisym)
  show ?thesis
  proof (cases "id_data (table t ! ino)")
    case (File j)
    from describesD[OF t lt this] obtain zf' q where j: "j < Suc i" "entry_at archive j zf' q" "ze_is_file zf'"
      "id_size (table t ! ino) = ze_size zf'" "resolve t ROOT q = Some ino" by auto
    have "path = q" by (rule resolve_unique[OF wf ino j(5)])
    with first[OF j(1,2)] have "j = i" by simp
    with entry_at_unique[OF _ i(1), of zf' q] j(2) have "zf' = zf" "q = path'" by simp_all
    with j(3,4) \<open>j = i\<close> \<open>path = q\<close> File ino lt r show ?thesis by simp
  next
    case (Directory es)
    then have d: "is_dir (table t ! ino)" by (simp add: is_dir_def)
    from describes_dirD[OF t lt r this] obtain j zf' q p where j: "j < Suc i" "entry_at archive j zf' q"
      "resolve t ROOT p = Some ino" "prefix p q" "p = q \<longrightarrow> \<not> ze_is_file zf'" by (auto simp: dir_of_entry_def)
    have "path = p" by (rule resolve_unique[OF wf ino j(3)])
    with first[OF j(1,2)] j(4) have "j = i" by simp
    with entry_at_unique[OF _ i(1), of zf' q] j(2) have "zf' = zf" "q = path'" by simp_all
    with j(5) \<open>path = p\<close> d ino lt r show ?thesis by auto
  qed
qed

lemma first_entry_in_table:
  assumes "from_zip archive = Ok t" "i < za_len archive" "entry_at archive i zf path'" "prefix path path'" "path \<noteq> []"
    "first_entry archive i path"
  shows "\<exists>ino. resolve t ROOT path = Some ino \<and> ino < length (table t) \<and> ROOT < ino \<and>
    (if path = path' \<and> ze_is_file zf then id_data (table t ! ino) = File i \<and> id_size (table t ! ino) = ze_size zf
     else is_dir (table t ! ino))"
proof -
  from fold_extends[OF assms(1)[unfolded from_zip_eq], of "Suc i"] assms(2) obtain t1 where
    t1: "try_fold (add_entry archive) empty_table [0..<Suc i] = Ok t1" "extends t1 t" by auto
  from first_entry_decides[OF fold_describes[OF t1(1)] assms(3-6)] obtain ino where
    ino: "resolve t1 ROOT path = Some ino" "ino < length (table t1)" "ROOT < ino"
    "if path = path' \<and> ze_is_file zf then id_data (table t1 ! ino) = File i \<and> id_size (table t1 ! ino) = ze_size zf
     else is_dir (table t1 ! ino)" by blast
  have "data_extends (table t1 ! ino) (table t ! ino)" "length (table t1) \<le> length (table t)"
    using t1(2) ino(2) by (simp_all add: extends_def)
  then show ?thesis
    using ino extends_resolve[OF t1(2) ino(1)] extends_is_dir[OF t1(2) ino(2)]
    by (auto simp: data_extends_def split: if_splits)
qed

text \<open>The names in a directory are those that follow its path in the entries of the archive.\<close>

definition names_below :: "zip_archive \<Rightarrow> string list \<Rightarrow> string set" where
  "names_below archive path =
     {n. \<exists>i < za_len archive. \<exists>file path'. entry_at archive i file path' \<and> prefix (path @ [n]) path'}"

lemma directory_names:
  assumes t: "describes archive (za_len archive) t" and ino: "resolve t ROOT path = Some ino" "ROOT \<le> ino"
    "id_data (table t ! ino) = Directory es"
  shows "fst ` set es = names_below archive path" "distinct (map fst es)"
proof -
  have wf: "inode_wf t" using t by (simp add: describes_def)
  have root: "ROOT < length (table t)" using wf by (simp add: inode_wf_def)
  note lt = wf_resolve_less[OF wf root ino(1)]
  have at: "dir_at t ino" using lt ino(2,3) by (auto simp: dir_at_def is_dir_def ROOT_def INVALID_def)
  show "distinct (map fst es)" using wf lt ino(3) by (auto simp: inode_wf_def dir_wf_def)
  have named: "n \<in> fst ` set es \<longleftrightarrow> (\<exists>k. resolve t ROOT (path @ [n]) = Some k)" for n
    using ino(1,3) at map_of_eq_None_iff[of es n] by (auto simp: resolve_snoc child_eq)
  show "fst ` set es = names_below archive path"
  proof (intro equalityI subsetI)
    fix n
    assume "n \<in> fst ` set es"
    then obtain k where k: "resolve t ROOT (path @ [n]) = Some k" using named by blast
    then have r: "ROOT < k" using wf_child(2)[OF wf] by (auto simp: resolve_snoc)
    note kt = wf_resolve_less[OF wf root k]
    have "\<exists>i < za_len archive. \<exists>file path'. entry_at archive i file path' \<and>
        (\<exists>q. resolve t ROOT q = Some k \<and> prefix q path')"
    proof (cases "id_data (table t ! k)")
      case (File j)
      from describesD[OF t kt this] show ?thesis by auto
    next
      case (Directory fs)
      then have "is_dir (table t ! k)" by (simp add: is_dir_def)
      from describes_dirD[OF t kt r this] show ?thesis unfolding dir_of_entry_def by blast
    qed
    with resolve_unique[OF wf k] show "n \<in> names_below archive path" unfolding names_below_def by blast
  next
    fix n
    assume "n \<in> names_below archive path"
    then obtain i zf path' where e: "i < za_len archive" "entry_at archive i zf path'" "prefix (path @ [n]) path'"
      by (auto simp: names_below_def)
    have "\<exists>file path. entry_at archive i file path \<and> resolve t ROOT path \<noteq> None"
      using t[unfolded describes_def, THEN conjunct2, THEN conjunct1, rule_format, OF e(1)] .
    with e(2) have "resolve t ROOT path' \<noteq> None" using entry_at_unique by blast
    with e(3) have "\<exists>k. resolve t ROOT (path @ [n]) = Some k"
      by (auto simp: prefix_def resolve_append split: option.splits)
    then show "n \<in> fst ` set es" by (simp add: named)
  qed
qed

text \<open>Directories have size 0.\<close>

definition dirs_sized :: "InodeTable \<Rightarrow> bool" where
  "dirs_sized t \<longleftrightarrow> (\<forall>d \<in> set (table t). is_dir d \<longrightarrow> id_size d = 0)"

lemma dirs_sizedD: "dirs_sized t \<Longrightarrow> i < length (table t) \<Longrightarrow> is_dir (table t ! i) \<Longrightarrow> id_size (table t ! i) = 0"
  by (simp add: dirs_sized_def)

lemma dirs_sized_found: "dirs_sized t \<Longrightarrow> dirs_sized (found_table file rest t i)"
proof -
  assume t: "dirs_sized t"
  have "dirs_sized (set_mode t i m)" for m
  proof (cases "i < length (table t)")
    case True
    have "is_dir ((table t ! i)\<lparr>id_mode := m\<rparr>) = is_dir (table t ! i)" by (simp add: is_dir_def)
    with t dirs_sizedD[OF t True] set_update_subset_insert[of "table t" i "(table t ! i)\<lparr>id_mode := m\<rparr>"] show ?thesis
      by (fastforce simp: dirs_sized_def set_mode_def)
  qed (use t in \<open>simp add: set_mode_def list_update_beyond\<close>)
  with t show ?thesis by (simp add: found_table_def)
qed

lemma dirs_sized_linked:
  assumes t: "dirs_sized t" and p: "dir_at t p" and d: "is_dir d \<Longrightarrow> id_size d = 0"
  shows "dirs_sized (linked t p name d)"
proof -
  have "id_size (table t ! p) = 0" using dirs_sizedD[OF t] p by (simp add: dir_at_def)
  then have "\<forall>x \<in> set ((table t)[p := (table t ! p)\<lparr>id_data := Directory es\<rparr>]). is_dir x \<longrightarrow> id_size x = 0" for es
    using t set_update_subset_insert[of "table t" p "(table t ! p)\<lparr>id_data := Directory es\<rparr>"]
    by (fastforce simp: dirs_sized_def)
  with d show ?thesis unfolding dirs_sized_def linked_def by auto
qed

lemma add_path_dirs_sized: "dirs_sized t \<Longrightarrow> add_path i file parent path t = Ok t' \<Longrightarrow> dirs_sized t'"
proof (induction path arbitrary: parent t)
  case (Cons name rest)
  from Cons.prems(2) have d: "dir_at t parent" by (auto simp: add_path_Cons split: if_splits)
  show ?case
  proof (cases "child t parent name")
    case (Some inode)
    with Cons.prems(2) have "add_path i file inode rest (found_table file rest t inode) = Ok t'"
      by (simp add: add_path_Cons split: if_splits)
    with Cons.IH dirs_sized_found[OF Cons.prems(1)] show ?thesis by blast
  next
    case None
    with Cons.prems(2) have "add_path i file (length (table t)) rest (linked t parent name (fresh_inode i file rest)) = Ok t'"
      by (simp add: add_path_Cons split: if_splits)
    moreover have "is_dir (fresh_inode i file rest) \<Longrightarrow> id_size (fresh_inode i file rest) = 0"
      by (simp add: fresh_inode_def new_dir_def new_file_def is_dir_def split: if_splits)
    ultimately show ?thesis using Cons.IH dirs_sized_linked[OF Cons.prems(1) d] by blast
  qed
qed simp

lemma from_zip_dirs_sized: "from_zip archive = Ok t \<Longrightarrow> dirs_sized t"
proof -
  have "dirs_sized t" if "try_fold (add_entry archive) empty_table [0..<n] = Ok t" for n
    using that
  proof (induction n arbitrary: t)
    case 0
    then show ?case by (auto simp: empty_table_def dirs_sized_def new_dir_def)
  next
    case (Suc n)
    then show ?case by (auto simp: try_fold_append try_r_Ok_iff add_entry_def intro: add_path_dirs_sized)
  qed
  then show "from_zip archive = Ok t \<Longrightarrow> dirs_sized t" by (simp add: from_zip_eq)
qed

section \<open>When the construction succeeds\<close>

definition name_ok :: "string \<Rightarrow> bool" where
  "name_ok name \<longleftrightarrow> name \<noteq> ''..'' \<and> CHR 0x00 \<notin> set name"

definition archive_ok :: "zip_archive \<Rightarrow> bool" where
  "archive_ok archive \<longleftrightarrow>
     (\<forall>i < za_len archive. \<exists>file path. entry_at archive i file path \<and> list_all name_ok path) \<and>
     (\<forall>j < za_len archive. \<forall>i < j. \<forall>file path file' path'.
        entry_at archive i file path \<and> ze_is_file file \<and> entry_at archive j file' path' \<longrightarrow>
        \<not> strict_prefix path path')"

lemma archive_okD:
  assumes "archive_ok archive"
  shows "i < za_len archive \<Longrightarrow> \<exists>file path. entry_at archive i file path \<and> list_all name_ok path"
    and "j < za_len archive \<Longrightarrow> m < j \<Longrightarrow> entry_at archive m file path \<Longrightarrow> ze_is_file file \<Longrightarrow>
      entry_at archive j file' path' \<Longrightarrow> \<not> strict_prefix path path'"
proof -
  note ok = assms[unfolded archive_ok_def]
  show "i < za_len archive \<Longrightarrow> \<exists>file path. entry_at archive i file path \<and> list_all name_ok path"
    by (rule ok[THEN conjunct1, rule_format])
  show "j < za_len archive \<Longrightarrow> m < j \<Longrightarrow> entry_at archive m file path \<Longrightarrow> ze_is_file file \<Longrightarrow>
      entry_at archive j file' path' \<Longrightarrow> \<not> strict_prefix path path'"
    by (rule ok[THEN conjunct2, rule_format, of j m "file" path file' path']) simp_all
qed

lemma resolve_cong: "child t' = child t \<Longrightarrow> resolve t' i path = resolve t i path"
  by (induction path arbitrary: i) (simp_all split: option.split)

lemma add_path_total:
  assumes "inode_wf t" "list_all name_ok path" "parent < length (table t)"
    and "\<And>p q j. path = p @ q \<Longrightarrow> q \<noteq> [] \<Longrightarrow> resolve t parent p = Some j \<Longrightarrow> dir_at t j"
  shows "\<exists>t'. add_path i file parent path t = Ok t'"
  using assms
proof (induction path arbitrary: parent t)
  case (Cons name rest)
  have d: "dir_at t parent" using Cons.prems(4)[of "[]" "name # rest" parent] by simp
  have name: "name \<noteq> ''..''" "CHR 0x00 \<notin> set name" using Cons.prems(2) by (simp_all add: name_ok_def)
  show ?case
  proof (cases "child t parent name")
    case (Some inode)
    let ?t = "found_table file rest t inode"
    note c = wf_child[OF Cons.prems(1) Some]
    have "dir_at ?t j" if "rest = p @ q" "q \<noteq> []" "resolve ?t inode p = Some j" for p q j
      using Cons.prems(4)[of "name # p" q j] that Some by (simp add: found_same(2) resolve_cong[OF found_same(3)])
    then have "\<exists>t'. add_path i file inode rest ?t = Ok t'"
      using Cons.IH[of ?t inode] Cons.prems c by (simp add: found_same)
    moreover have "InodeTable_get t inode \<noteq> None" using c by (simp add: InodeTable_get_def INVALID_def)
    ultimately show ?thesis using name d Some by (simp add: add_path_Cons)
  next
    case None
    let ?d = "fresh_inode i file rest" and ?n = "length (table t)"
    let ?t = "linked t parent name ?d"
    have n: "table ?t ! ?n = ?d" using d by (auto simp: nth_linked dir_at_def)
    have "child ?t ?n m = None" for m
      using n by (auto simp: child_eq fresh_inode_def new_dir_def new_file_def split: InodeDataData.splits if_splits)
    moreover have "dir_at ?t ?n" if "rest \<noteq> []"
      using that n d Cons.prems(3)
      by (auto simp: dir_at_def length_linked fresh_inode_def new_dir_def is_dir_def INVALID_def)
    ultimately have "dir_at ?t j" if "rest = p @ q" "q \<noteq> []" "resolve ?t ?n p = Some j" for p q j
      using that by (cases p) auto
    then have "\<exists>t'. add_path i file ?n rest ?t = Ok t'"
      using Cons.IH[of ?t ?n] Cons.prems(2) inode_wf_linked[OF Cons.prems(1) d None] by (simp add: length_linked[OF d])
    then show ?thesis using name d None by (simp add: add_path_Cons)
  qed
qed simp

lemma add_entry_total:
  assumes t: "describes archive k t" and ok: "archive_ok archive" and k: "k < za_len archive"
  shows "\<exists>t'. add_entry archive t k = Ok t'"
proof -
  have wf: "inode_wf t" using t by (simp add: describes_def)
  have root: "ROOT < length (table t)" using wf by (simp add: inode_wf_def)
  obtain zf path where e: "entry_at archive k zf path" "list_all name_ok path"
    using archive_okD(1)[OF ok k] by blast
  have dirs: "dir_at t j" if j: "path = p @ q" "q \<noteq> []" "resolve t ROOT p = Some j" for p q j
  proof (rule ccontr)
    assume "\<not> dir_at t j"
    moreover have "j < length (table t)" by (rule wf_resolve_less[OF wf root j(3)])
    moreover have "ROOT \<le> j"
      using j(3) wf_child(2)[OF wf] by (cases p rule: rev_cases) (auto simp: resolve_snoc dest: less_imp_le)
    ultimately obtain m where "id_data (table t ! j) = File m" "j < length (table t)"
      by (cases "id_data (table t ! j)") (auto simp: dir_at_def is_dir_iff INVALID_def ROOT_def)
    then obtain zf' path' where m: "m < k" "entry_at archive m zf' path'" "ze_is_file zf'" "resolve t ROOT path' = Some j"
      using describesD[OF t] by blast
    have "strict_prefix path' path"
      using resolve_unique[OF wf m(4) j(3)] j(1,2) by (simp add: strict_prefix_def)
    with archive_okD(2)[OF ok k m(1-3) e(1)] show False by blast
  qed
  have "\<exists>t'. add_path k zf ROOT path t = Ok t'"
    by (rule add_path_total[OF wf e(2) root]) (rule dirs)
  then obtain t' where "add_path k zf ROOT path t = Ok t'" by blast
  with e(1) show ?thesis by (auto simp: add_entry_def entry_at_def)
qed

lemma fold_total:
  "archive_ok archive \<Longrightarrow> n \<le> za_len archive \<Longrightarrow> \<exists>t. try_fold (add_entry archive) empty_table [0..<n] = Ok t"
proof (induction n)
  case (Suc n)
  then obtain t where t: "try_fold (add_entry archive) empty_table [0..<n] = Ok t" by auto
  with add_entry_total[OF fold_describes[OF t]] Suc.prems show ?case
    by (auto simp: try_fold_append try_r_Ok_iff)
qed simp

section \<open>A sample archive\<close>

definition sample_zip_file :: "string list \<Rightarrow> bool \<Rightarrow> bytes \<Rightarrow> zip_entry" where
  "sample_zip_file path is_f data =
     \<lparr>ze_name = concat path, ze_enclosed_name = Some path, ze_is_file = is_f, ze_unix_mode = None,
      ze_size = length data, ze_data = Ok data\<rparr>"

text \<open>A file \<open>dir/foo\<close>, the directory itself, and a file \<open>bar\<close>.\<close>

definition sample_zip :: zip_archive where
  "sample_zip = \<lparr>za_len = 3, za_by_index = (\<lambda>i.
     if i = 0 then Ok (sample_zip_file [''dir'', ''foo''] True [1, 2, 3])
     else if i = 1 then Ok (sample_zip_file [''dir''] False [])
     else if i = 2 then Ok (sample_zip_file [''bar''] True [4])
     else Err (Os EINVAL))\<rparr>"

definition sample_table :: InodeTable where
  "sample_table = \<lparr>table =
     [new_dir 0,
      \<lparr>id_size = 0, id_mode = 0, id_data = Directory
        [(''dir'', \<lparr>de_inode = 2, de_kind = KindDirectory\<rparr>), (''bar'', \<lparr>de_inode = 4, de_kind = KindFile\<rparr>)]\<rparr>,
      \<lparr>id_size = 0, id_mode = 0, id_data = Directory [(''foo'', \<lparr>de_inode = 3, de_kind = KindFile\<rparr>)]\<rparr>,
      \<lparr>id_size = 3, id_mode = 0, id_data = File 0\<rparr>,
      \<lparr>id_size = 1, id_mode = 0, id_data = File 2\<rparr>]\<rparr>"

lemma sample_table: "from_zip sample_zip = Ok sample_table"
  by code_simp

lemma sample_table_wf: "inode_wf sample_table"
  using fold_describes[of sample_zip "za_len sample_zip"] sample_table by (simp add: from_zip_eq describes_def)

lemma sample_zip_ok: "archive_ok sample_zip"
proof -
  have "i < 3 \<Longrightarrow> i = 0 \<or> i = 1 \<or> i = (2 :: nat)" for i by linarith
  then show ?thesis
    by (auto simp: archive_ok_def entry_at_def sample_zip_def sample_zip_file_def name_ok_def strict_prefix_def
        dest!: spec split: if_splits)
qed

section \<open>Properties\<close>

text \<open>C24: The inode table made from an archive is a tree: inode 0 is unused, the root is a directory, the
  names in a directory are distinct, every entry names a later inode and states its kind correctly, and
  every inode but the root is entered in exactly one place.\<close>

theorem from_zip_tree:
  assumes "from_zip archive = Ok t"
  shows "inode_wf t"
  using fold_describes[OF assms[unfolded from_zip_eq]] by (simp only: describes_def)

theorem from_zip_tree_witness: "from_zip sample_zip = Ok sample_table \<and> inode_wf sample_table"
  using from_zip_tree[OF sample_table] sample_table by simp

text \<open>C23: The table describes the archive: the path of every entry leads from the root to an inode, and every
  file of the table is a file of the archive, found at its path, with its index and its size.\<close>

theorem from_zip_describes:
  assumes "from_zip archive = Ok t"
  shows "(\<forall>i < za_len archive. \<exists>file path. za_by_index archive i = Ok file \<and> ze_enclosed_name file = Some path \<and>
      resolve t ROOT path \<noteq> None) \<and>
    (\<forall>ino d j. InodeTable_get t ino = Some d \<longrightarrow> get_zip_index d = Some j \<longrightarrow>
      j < za_len archive \<and> (\<exists>file path. za_by_index archive j = Ok file \<and> ze_enclosed_name file = Some path \<and>
        ze_is_file file \<and> id_size d = ze_size file \<and> resolve t ROOT path = Some ino))"
proof -
  have "describes archive (za_len archive) t" by (rule fold_describes[OF assms[unfolded from_zip_eq]])
  then show ?thesis
    by (auto simp: describes_def entry_at_def InodeTable_get_def get_zip_index_def split: if_splits InodeDataData.splits)
qed

theorem from_zip_describes_witness:
  "from_zip sample_zip = Ok sample_table \<and>
   (\<exists>file path. za_by_index sample_zip 2 = Ok file \<and> ze_enclosed_name file = Some path \<and> ze_is_file file \<and>
      ze_size file = 1 \<and> resolve sample_table ROOT path = Some 4)"
proof -
  have "InodeTable_get sample_table 4 = Some \<lparr>id_size = 1, id_mode = 0, id_data = File 2\<rparr>"
    by (simp add: sample_table_def InodeTable_get_def INVALID_def)
  moreover have "get_zip_index \<lparr>id_size = 1, id_mode = 0, id_data = File 2\<rparr> = Some 2"
    by (simp add: get_zip_index_def)
  ultimately show ?thesis
    using from_zip_describes[OF sample_table, THEN conjunct2, rule_format] sample_table by fastforce
qed

text \<open>C25: An archive can be mounted if all its entries can be read, have names without \<open>..\<close> and NUL, and no
  file is used as a directory by a later entry: then the construction neither fails nor panics.\<close>

theorem from_zip_succeeds:
  assumes "archive_ok archive"
  shows "\<exists>t. from_zip archive = Ok t"
  unfolding from_zip_eq by (rule fold_total[OF assms order_refl])

theorem from_zip_succeeds_witness: "archive_ok sample_zip \<and> (\<exists>t. from_zip sample_zip = Ok t)"
  using from_zip_succeeds[OF sample_zip_ok] sample_zip_ok by simp

text \<open>An archive in which a file is followed by an entry below it makes the construction panic.\<close>

theorem file_as_directory_panics:
  assumes "za_len archive = 2" "entry_at archive 0 zf [a]" "ze_is_file zf" "name_ok a"
    and "entry_at archive 1 zg (a # b # rest)" "name_ok b"
  shows "from_zip archive = Panic"
proof -
  have root: "dir_at empty_table ROOT" "child empty_table ROOT a = None"
    by (simp_all add: dir_at_def empty_table_def INVALID_def ROOT_def new_dir_def is_dir_def child_eq)
  let ?t = "linked empty_table ROOT a (new_file 0 zf)"
  have "add_entry archive empty_table 0 = Ok ?t"
    using assms root by (simp add: add_entry_def entry_at_def add_path_Cons name_ok_def fresh_inode_def)
  moreover have "add_entry archive ?t 1 = Panic"
  proof -
    have "dir_at ?t ROOT" using root is_dir_linked[OF root(1), of ROOT] by (simp add: dir_at_def length_linked[OF root(1)])
    moreover have "\<not> dir_at ?t (length (table empty_table))"
      using root by (simp add: dir_at_def nth_linked new_file_def is_dir_def empty_table_def ROOT_def)
    ultimately show ?thesis
      using assms child_linked_new[OF root, of "new_file 0 zf"]
      by (simp add: add_entry_def entry_at_def add_path_Cons name_ok_def found_same)
  qed
  ultimately show ?thesis using assms(1) by (simp add: from_zip_eq numeral_2_eq_2)
qed

theorem file_as_directory_panics_witness:
  "from_zip \<lparr>za_len = 2, za_by_index = (\<lambda>i.
     if i = 0 then Ok (sample_zip_file [''a''] True []) else Ok (sample_zip_file [''a'', ''b''] True []))\<rparr> = Panic"
  by (rule file_as_directory_panics[where a = "''a''" and b = "''b''" and rest = "[]"
        and zf = "sample_zip_file [''a''] True []" and zg = "sample_zip_file [''a'', ''b''] True []"])
    (simp_all add: entry_at_def sample_zip_file_def name_ok_def)

text \<open>In the other order nothing fails: a file at the path of an existing directory is left out without an error.\<close>

definition sample_hidden_zip :: zip_archive where
  "sample_hidden_zip = \<lparr>za_len = 2, za_by_index = (\<lambda>i.
     if i = 0 then Ok (sample_zip_file [''a'', ''b''] True [1]) else Ok (sample_zip_file [''a''] True [2]))\<rparr>"

lemma file_over_directory_ignored:
  "try_r (from_zip sample_hidden_zip) (\<lambda>t. Ok (map_option (\<lambda>i. is_dir (table t ! i)) (resolve t ROOT [''a'']))) = Ok (Some True)"
  by code_simp

end
