(* ===== verification/Inode_Tests.thy ===== *)
theory Inode_Tests
  imports Zip_Inode Rust_Str
begin

text \<open>
  The unit tests of \<open>zipfuse/src/inode.rs\<close>. They write archives with the \<open>zip\<close> crate and read them back with it, which
  is the parameter \<open>write_zip\<close>: the calls of the writer, in order, to the archive that \<open>ZipArchive::new\<close> returns for the
  finished buffer. \<open>zip_crate\<close> states what the crate documents of it: one entry for each \<open>start_file\<close> and
  \<open>add_directory\<close> in the order of the calls, its size the number of bytes written into it, and its
  \<open>enclosed_name\<close> the components of its name unless they lead out of the archive. Under that contract all tests pass.
\<close>

section \<open>The archives of the tests\<close>

datatype zip_op = StartFile string | WriteAll bytes | AddDirectory string

type_synonym write_zip = "zip_op list \<Rightarrow> (io_error, zip_archive) res"

text \<open>The names and the sizes of the entries after some calls; a directory is named with a slash at the end.\<close>

fun zip_calls :: "(string \<times> nat) list \<Rightarrow> zip_op list \<Rightarrow> (string \<times> nat) list" where
  "zip_calls es [] = es"
| "zip_calls es (StartFile name # ops) = zip_calls (es @ [(name, 0)]) ops"
| "zip_calls es (AddDirectory name # ops) = zip_calls (es @ [(name @ ''/'', 0)]) ops"
| "zip_calls es (WriteAll data # ops) =
     zip_calls (butlast es @ [(fst (last es), snd (last es) + length data)]) ops"

text \<open>The components of a relative path, and \<open>enclosed_name\<close>: no prefix of the path leads out of the directory.\<close>

definition path_components :: "string \<Rightarrow> string list" where
  "path_components name = filter (\<lambda>c. c \<noteq> [] \<and> c \<noteq> ''.'') (split_on CHR ''/'' name)"

fun encloses :: "nat \<Rightarrow> string list \<Rightarrow> bool" where
  "encloses depth [] = True"
| "encloses depth (c # cs) =
     (if c = ''..'' then 0 < depth \<and> encloses (depth - 1) cs else encloses (Suc depth) cs)"

definition zip_entry_of :: "string \<times> nat \<Rightarrow> nat option \<Rightarrow> (io_error, bytes) res \<Rightarrow> zip_entry" where
  "zip_entry_of e mode data =
     \<lparr>ze_name = fst e,
      ze_enclosed_name = (let cs = path_components (fst e) in if encloses 0 cs then Some cs else None),
      ze_is_file = (last (fst e) \<noteq> CHR ''/''), ze_unix_mode = mode, ze_size = snd e, ze_data = data\<rparr>"

definition zip_crate :: "write_zip \<Rightarrow> bool" where
  "zip_crate write_zip \<longleftrightarrow>
     (\<forall>ops. \<exists>modes datas archive. write_zip ops = Ok archive \<and> za_len archive = length (zip_calls [] ops) \<and>
        (\<forall>i < length (zip_calls [] ops).
           za_by_index archive i = Ok (zip_entry_of (zip_calls [] ops ! i) (modes i) (datas i))))"

section \<open>The tests\<close>

definition setup_table :: "write_zip \<Rightarrow> zip_op list \<Rightarrow> ('e, InodeTable) res" where
  "setup_table write_zip add =
     (case write_zip add of
        Ok archive \<Rightarrow> (case from_zip archive of Ok it \<Rightarrow> Ok it | Hang \<Rightarrow> Hang | _ \<Rightarrow> Panic)
      | Hang \<Rightarrow> Hang
      | _ \<Rightarrow> Panic)"

definition check_dir :: "InodeTable \<Rightarrow> inode \<Rightarrow> string \<Rightarrow> ('e, inode) res" where
  "check_dir it parent name =
     try_r (c_string name) (\<lambda>name.
     try_r (InodeTable_find it parent name) (\<lambda>inode.
     try_r (unwrap inode) (\<lambda>inode.
     try_r (unwrap (InodeTable_get it inode)) (\<lambda>inode_data.
     assert_r (0 = id_size inode_data) (
     assert_r (is_dir inode_data) (
     Ok inode))))))"

definition check_file :: "InodeTable \<Rightarrow> inode \<Rightarrow> string \<Rightarrow> ('e, InodeData) res" where
  "check_file it parent name =
     try_r (c_string name) (\<lambda>name.
     try_r (InodeTable_find it parent name) (\<lambda>inode.
     try_r (unwrap inode) (\<lambda>inode.
     try_r (unwrap (InodeTable_get it inode)) (\<lambda>inode_data.
     assert_r (\<not> is_dir inode_data) (
     Ok inode_data)))))"

definition empty_zip_has_two_inodes :: "write_zip \<Rightarrow> ('e, unit) res" where
  "empty_zip_has_two_inodes write_zip =
     try_r (setup_table write_zip []) (\<lambda>it.
     assert_r (2 = length (table it)) (
     assert_r (InodeTable_get it INVALID = None) (
     assert_r (InodeTable_get it ROOT \<noteq> None) (Ok ()))))"

definition digits_10 :: bytes where
  "digits_10 = [48, 49, 50, 51, 52, 53, 54, 55, 56, 57]"

definition one_file :: "write_zip \<Rightarrow> ('e, unit) res" where
  "one_file write_zip =
     try_r (setup_table write_zip [StartFile ''foo'', WriteAll digits_10]) (\<lambda>it.
     try_r (check_file it ROOT ''foo'') (\<lambda>inode_data.
     assert_r (length digits_10 = id_size inode_data) (Ok ())))"

definition one_dir :: "write_zip \<Rightarrow> ('e, unit) res" where
  "one_dir write_zip =
     try_r (setup_table write_zip [AddDirectory ''foo'']) (\<lambda>it.
     try_r (check_dir it ROOT ''foo'') (\<lambda>inode.
     try_r (unwrap (InodeTable_get it inode)) (\<lambda>d.
     try_r (unwrap (get_directory d)) (\<lambda>hash.
     assert_r (0 = length hash) (Ok ())))))"

definition one_file_in_subdirs :: "write_zip \<Rightarrow> ('e, unit) res" where
  "one_file_in_subdirs write_zip =
     try_r (setup_table write_zip [StartFile ''a/b/c/d'', WriteAll digits_10]) (\<lambda>it.
     assert_r (6 = length (table it)) (
     try_r (check_dir it ROOT ''a'') (\<lambda>a.
     try_r (check_dir it a ''b'') (\<lambda>b.
     try_r (check_dir it b ''c'') (\<lambda>c.
     try_r (check_file it c ''d'') (\<lambda>d.
     assert_r (10 = id_size d) (Ok ())))))))"

definition hierarchy :: "zip_op list" where
  "hierarchy =
     [AddDirectory ''a/b1'',
      StartFile ''a/b2/c1'',
      StartFile ''a/b2/c2/d1'', StartFile ''a/b2/c2/d2'', StartFile ''a/b2/c2/d3'',
      StartFile ''x/y1'', StartFile ''x/y2'', AddDirectory ''x/y3'',
      StartFile ''foo'', StartFile ''bar'']"

definition complex_hierarchy :: "write_zip \<Rightarrow> ('e, unit) res" where
  "complex_hierarchy write_zip =
     try_r (setup_table write_zip hierarchy) (\<lambda>it.
     assert_r (16 = length (table it)) (
     try_r (check_dir it ROOT ''a'') (\<lambda>a.
     try_r (check_dir it a ''b1'') (\<lambda>_.
     try_r (check_dir it a ''b2'') (\<lambda>b2.
     try_r (check_file it b2 ''c1'') (\<lambda>_.
     try_r (check_dir it b2 ''c2'') (\<lambda>c2.
     try_r (check_file it c2 ''d1'') (\<lambda>_.
     try_r (check_file it c2 ''d3'') (\<lambda>_.
     try_r (check_file it c2 ''d3'') (\<lambda>_.
     try_r (check_dir it ROOT ''x'') (\<lambda>x.
     try_r (check_file it x ''y1'') (\<lambda>_.
     try_r (check_file it x ''y2'') (\<lambda>_.
     try_r (check_dir it x ''y3'') (\<lambda>_.
     try_r (check_file it ROOT ''foo'') (\<lambda>_.
     try_r (check_file it ROOT ''bar'') (\<lambda>_.
     Ok ()))))))))))))))))"

definition file_size_test :: "write_zip \<Rightarrow> ('e, unit) res" where
  "file_size_test write_zip =
     try_r (setup_table write_zip
       [StartFile ''empty'',
        StartFile ''10bytes'', WriteAll (zeros 10),
        StartFile ''1234bytes'', WriteAll (zeros 1234),
        StartFile ''2^20bytes'', WriteAll (zeros (push_bit 20 2))]) (\<lambda>it.
     try_r (check_file it ROOT ''empty'') (\<lambda>f.
     assert_r (0 = id_size f) (
     try_r (check_file it ROOT ''10bytes'') (\<lambda>f.
     assert_r (10 = id_size f) (
     try_r (check_file it ROOT ''1234bytes'') (\<lambda>f.
     assert_r (1234 = id_size f) (
     try_r (check_file it ROOT ''2^20bytes'') (\<lambda>f.
     assert_r (push_bit 20 2 = id_size f) (Ok ())))))))))"

definition invalid_paths :: "string list" where
  "invalid_paths = [''a/../../b'', ''a/..'', ''a/../../b/c'', ''a/b/../c'']"

definition rejects_invalid_paths :: "write_zip \<Rightarrow> ('e, unit) res" where
  "rejects_invalid_paths write_zip =
     try_fold (\<lambda>_ path.
       case write_zip [StartFile path] of
         Ok archive \<Rightarrow> (case from_zip archive of Err _ \<Rightarrow> Ok () | Hang \<Rightarrow> Hang | _ \<Rightarrow> Panic)
       | Hang \<Rightarrow> Hang
       | _ \<Rightarrow> Panic) () invalid_paths"

section \<open>They pass\<close>

text \<open>The table of a written archive, computed from the calls.\<close>

primrec add_calls ::
  "(nat \<Rightarrow> nat option) \<Rightarrow> (nat \<Rightarrow> (io_error, bytes) res) \<Rightarrow> nat \<Rightarrow> (string \<times> nat) list \<Rightarrow> InodeTable \<Rightarrow>
   (inode_error, InodeTable) res" where
  "add_calls modes datas i [] t = Ok t"
| "add_calls modes datas i (e # es) t =
     (let cs = path_components (fst e) in
      if encloses 0 cs then
        try_r (add_path i (zip_entry_of e (modes i) (datas i)) ROOT cs t) (\<lambda>t. add_calls modes datas (Suc i) es t)
      else Err (InvalidName (fst e)))"

lemma add_calls_eq:
  assumes "\<And>j. j < length es \<Longrightarrow> za_by_index archive (i + j) = Ok (zip_entry_of (es ! j) (modes (i + j)) (datas (i + j)))"
  shows "try_fold (add_entry archive) t [i..<i + length es] = add_calls modes datas i es t"
  using assms
proof (induction es arbitrary: i t)
  case (Cons e es)
  have "za_by_index archive (Suc i + j) = Ok (zip_entry_of (es ! j) (modes (Suc i + j)) (datas (Suc i + j)))"
    if "j < length es" for j
    using Cons.prems[of "Suc j"] that by simp
  note IH = Cons.IH[OF this]
  have "add_entry archive t i = (let cs = path_components (fst e) in
      if encloses 0 cs then add_path i (zip_entry_of e (modes i) (datas i)) ROOT cs t else Err (InvalidName (fst e)))"
    using Cons.prems[of 0] by (simp add: add_entry_def zip_entry_of_def Let_def)
  moreover have "[i..<i + length (e # es)] = i # [Suc i..<Suc i + length es]" by (simp add: upt_rec)
  ultimately show ?case
    using IH by (simp only: try_fold.simps) (simp add: Let_def cong: if_cong)
qed simp

lemma written_table:
  assumes "zip_crate write_zip"
  obtains modes datas archive where "write_zip ops = Ok archive"
    "from_zip archive = add_calls modes datas 0 (zip_calls [] ops) empty_table"
proof -
  from assms obtain modes datas archive where a: "write_zip ops = Ok archive" "za_len archive = length (zip_calls [] ops)"
    "\<forall>i < length (zip_calls [] ops). za_by_index archive i = Ok (zip_entry_of (zip_calls [] ops ! i) (modes i) (datas i))"
    unfolding zip_crate_def by meson
  then have "try_fold (add_entry archive) empty_table [0..<0 + length (zip_calls [] ops)] =
      add_calls modes datas 0 (zip_calls [] ops) empty_table"
    by (intro add_calls_eq) simp
  with a(2) have "from_zip archive = add_calls modes datas 0 (zip_calls [] ops) empty_table"
    by (simp add: from_zip_eq)
  with a(1) show thesis by (rule that)
qed

lemmas inode_eval = zip_entry_of_def path_components_def empty_table_def add_path.simps c_string_def InodeTable_find_def
  InodeTable_add_def InodeTable_get_def InodeTable_put_def update_inode_def add_to_directory_def get_directory_def
  is_dir_def new_dir_def new_file_def ROOT_def INVALID_def

lemma empty_zip_has_two_inodes_passes: "zip_crate write_zip \<Longrightarrow> empty_zip_has_two_inodes write_zip = Ok ()"
  by (rule written_table[of write_zip "[]"])
    (simp_all add: empty_zip_has_two_inodes_def setup_table_def inode_eval)

lemma one_file_passes: "zip_crate write_zip \<Longrightarrow> one_file write_zip = Ok ()"
  by (rule written_table[of write_zip "[StartFile ''foo'', WriteAll digits_10]"])
    (simp_all add: one_file_def setup_table_def check_file_def digits_10_def inode_eval)

lemma one_dir_passes: "zip_crate write_zip \<Longrightarrow> one_dir write_zip = Ok ()"
  by (rule written_table[of write_zip "[AddDirectory ''foo'']"])
    (simp_all add: one_dir_def setup_table_def check_dir_def inode_eval)

lemma one_file_in_subdirs_passes: "zip_crate write_zip \<Longrightarrow> one_file_in_subdirs write_zip = Ok ()"
  by (rule written_table[of write_zip "[StartFile ''a/b/c/d'', WriteAll digits_10]"])
    (simp_all add: one_file_in_subdirs_def setup_table_def check_dir_def check_file_def digits_10_def inode_eval)

lemma complex_hierarchy_passes: "zip_crate write_zip \<Longrightarrow> complex_hierarchy write_zip = Ok ()"
  by (rule written_table[of write_zip hierarchy])
    (simp_all add: complex_hierarchy_def setup_table_def check_dir_def check_file_def hierarchy_def inode_eval)

lemma file_size_passes: "zip_crate write_zip \<Longrightarrow> file_size_test write_zip = Ok ()"
  by (rule written_table[of write_zip "[StartFile ''empty'',
        StartFile ''10bytes'', WriteAll (zeros 10),
        StartFile ''1234bytes'', WriteAll (zeros 1234),
        StartFile ''2^20bytes'', WriteAll (zeros (push_bit 20 2))]"])
    (simp_all add: file_size_test_def setup_table_def check_file_def inode_eval)

lemma invalid_path_rejected:
  assumes "zip_crate write_zip" "path \<in> set invalid_paths"
  shows "\<exists>archive e. write_zip [StartFile path] = Ok archive \<and> from_zip archive = Err e"
  using assms(2)
  by (rule_tac written_table[OF assms(1), of "[StartFile path]"])
    (auto simp: invalid_paths_def inode_eval)

lemma rejects_invalid_paths_passes:
  assumes "zip_crate write_zip"
  shows "rejects_invalid_paths write_zip = (Ok () :: ('e, unit) res)"
proof -
  have "try_fold (\<lambda>_ path.
       case write_zip [StartFile path] of
         Ok archive \<Rightarrow> (case from_zip archive of Err _ \<Rightarrow> Ok () | Hang \<Rightarrow> Hang | _ \<Rightarrow> Panic)
       | Hang \<Rightarrow> Hang
       | _ \<Rightarrow> Panic) () ps = (Ok () :: ('e, unit) res)" if "set ps \<subseteq> set invalid_paths" for ps
    using that
  proof (induction ps)
    case (Cons path ps)
    then show ?case using invalid_path_rejected[OF assms, of path] by auto
  qed simp
  then show ?thesis unfolding rejects_invalid_paths_def by simp
qed

text \<open>The contract of the crate can be met, so the lemmas above speak of something.\<close>

definition sample_write_zip :: write_zip where
  "sample_write_zip ops =
     (let es = zip_calls [] ops in
      Ok \<lparr>za_len = length es,
          za_by_index = (\<lambda>i. if i < length es then Ok (zip_entry_of (es ! i) (Some 0x1a4) (Ok (zeros (snd (es ! i)))))
            else Err (Os ENOENT))\<rparr>)"

lemma sample_zip_crate: "zip_crate sample_write_zip"
  by (auto simp: zip_crate_def sample_write_zip_def Let_def)

lemmas inode_tests_pass = empty_zip_has_two_inodes_passes one_file_passes one_dir_passes one_file_in_subdirs_passes
  complex_hierarchy_passes file_size_passes rejects_invalid_paths_passes

lemma inode_tests_pass_sample:
  "complex_hierarchy sample_write_zip = Ok ()" "rejects_invalid_paths sample_write_zip = Ok ()"
  by (rule inode_tests_pass[OF sample_zip_crate])+

end
