(* ===== verification/Fusefs.thy ===== *)
theory Fusefs
  imports Verifier Editor Fd_Server Fuse_Lib
begin

unbundle bit_operations_syntax

text \<open>
  \<open>authfs/src/fusefs.rs\<close>: the FUSE file system. \<open>auth_fs\<close> is the pool of file configurations; the
  state of the remote service is shared by all remote files and passed next to it. What lies
  outside the repository is in \<open>authfs_env\<close>: the hash library, the operating system's files and the
  remote service. The FUSE buffers are abstract: a writer is its \<open>write\<close> function, a reader its
  \<open>read_exact\<close> function. One definition per handler of \<open>impl FileSystem for AuthFs\<close>; the contexts,
  handles and flags the handlers ignore are left out, and so are the log messages. Mounting uses the
  FUSE library of theory \<open>Fuse_Lib\<close>.
\<close>

record ('c, 'f, 's) authfs_env =
  env_ffi :: "'c sha256_ffi"
  env_api :: "'f file_api"
  env_service :: "'s virt_fd_service"

text \<open>\<open>VerifiedFileReader<RemoteFileReader, RemoteMerkleTreeReader>\<close>: the readers are file ids.\<close>

record remote_verified_reader =
  rv_file_fd :: int
  rv_file_size :: nat
  rv_tree_fd :: int
  rv_root_hash :: hash

record 'f local_verified_reader =
  lv_file :: "'f local_file_reader"
  lv_file_size :: nat
  lv_tree :: "'f local_file_reader"
  lv_root_hash :: hash

datatype 'f file_config =
    LocalVerifiedReadonlyFile "'f local_verified_reader" nat
  | LocalUnverifiedReadonlyFile "'f local_file_reader" nat
  | RemoteVerifiedReadonlyFile remote_verified_reader nat
  | RemoteUnverifiedReadonlyFile int nat
  | RemoteVerifiedNewFile int merkle_leaves

definition remote_verified ::
  "profile \<Rightarrow> ('c, 'f, 's) authfs_env \<Rightarrow> 's \<Rightarrow> remote_verified_reader \<Rightarrow> verified_file_reader" where
  "remote_verified p env st r =
     \<lparr>vf_chunked_file = RemoteFileReader_read_chunk p (env_service env) st (rv_file_fd r),
      vf_file_size = rv_file_size r,
      vf_merkle_tree = RemoteMerkleTreeReader_read_chunk p (env_service env) st (rv_tree_fd r),
      vf_root_hash = rv_root_hash r\<rparr>"

definition local_verified ::
  "profile \<Rightarrow> ('c, 'f, 's) authfs_env \<Rightarrow> 'f local_verified_reader \<Rightarrow> verified_file_reader" where
  "local_verified p env r =
     \<lparr>vf_chunked_file = LocalFileReader_read_chunk p (env_api env) (lv_file r),
      vf_file_size = lv_file_size r,
      vf_merkle_tree = LocalFileReader_read_chunk p (env_api env) (lv_tree r),
      vf_root_hash = lv_root_hash r\<rparr>"

text \<open>The editor of a new file: its leaves and the state of the service behind the file id.\<close>

definition editor_of :: "'s \<Rightarrow> merkle_leaves \<Rightarrow> 's verified_file_editor" where
  "editor_of st tree = \<lparr>ed_file = st, ed_merkle_tree = tree\<rparr>"

record 'f auth_fs =
  file_pool :: "nat \<rightharpoonup> 'f file_config"
  max_write :: nat

definition AuthFs_new :: "(nat \<rightharpoonup> 'f file_config) \<Rightarrow> nat \<Rightarrow> 'f auth_fs" where
  "AuthFs_new pool n = \<lparr>file_pool = pool, max_write = n\<rparr>"

definition AuthFs_get_file_config :: "'f auth_fs \<Rightarrow> nat \<Rightarrow> (io_error, 'f file_config) res" where
  "AuthFs_get_file_config self inode = ok_or (Os ENOENT) (file_pool self inode)"

definition O_ACCMODE :: nat where "O_ACCMODE = 3"
definition O_RDONLY :: nat where "O_RDONLY = 0"

definition check_access_mode :: "nat \<Rightarrow> nat \<Rightarrow> (io_error, unit) res" where
  "check_access_mode flags mode = (if flags AND O_ACCMODE = mode then Ok () else Err (Os EACCES))"

definition blk_size :: nat where
  "blk_size = CHUNK_SIZE"

datatype file_mode = ModeReadOnly | ModeReadWrite

text \<open>The fields of \<open>stat64\<close> that are not always 0.\<close>

record stat64 =
  st_ino :: nat
  st_mode :: nat
  st_nlink :: nat
  st_size :: int
  st_blksize :: nat
  st_blocks :: nat

definition create_stat :: "profile \<Rightarrow> nat \<Rightarrow> nat \<Rightarrow> file_mode \<Rightarrow> (io_error, stat64) res" where
  "create_stat p ino file_sz mode =
     (let m = (case mode of ModeReadOnly \<Rightarrow> S_IFREG OR S_IRUSR
               | ModeReadWrite \<Rightarrow> S_IFREG OR S_IRUSR OR S_IWUSR) in
      if file_sz < 2 ^ 63 then
        try_r (divide_roundup p file_sz 512) (\<lambda>blocks.
        if blocks < 2 ^ 63 then
          Ok \<lparr>st_ino = ino, st_mode = m, st_nlink = 1, st_size = int file_sz,
              st_blksize = blk_size, st_blocks = blocks\<rparr>
        else Err (Os EFBIG))
      else Err (Os EFBIG))"

definition offset_to_chunk_index :: "nat \<Rightarrow> nat" where
  "offset_to_chunk_index off = off div CHUNK_SIZE"

text \<open>The closure of the \<open>try_fold\<close> in \<open>read_chunks\<close>.\<close>

definition read_chunks_step ::
  "profile \<Rightarrow> 'w writer \<Rightarrow> chunk_reader \<Rightarrow> nat \<times> 'w \<Rightarrow> nat \<times> nat \<Rightarrow> (io_error, nat \<times> 'w) res" where
  "read_chunks_step p wr file acc item =
     (case acc of (tot, w) \<Rightarrow> case item of (current_offset, planned_data_size) \<Rightarrow>
      try_r (file (offset_to_chunk_index current_offset) (zeros CHUNK_SIZE)) (\<lambda>(read_size, buf).
      if read_size < planned_data_size then Err (Os ENODATA)
      else
        let begin' = current_offset mod CHUNK_SIZE in
        try_r (uadd p 64 begin' planned_data_size) (\<lambda>end'.
        try_r (slice buf begin' end') (\<lambda>data.
        case wr w data of (r, w') \<Rightarrow>
          try_r r (\<lambda>s.
          if s \<noteq> planned_data_size then Err (Os EIO)
          else try_r (uadd p 64 tot s) (\<lambda>tot'. Ok (tot', w')))))))"

definition read_chunks ::
  "profile \<Rightarrow> 'w writer \<Rightarrow> 'w \<Rightarrow> chunk_reader \<Rightarrow> nat \<Rightarrow> nat \<Rightarrow> nat \<Rightarrow> (io_error, nat \<times> 'w) res" where
  "read_chunks p wr w file file_sz off n =
     (let rest = saturating_sub file_sz off;
          size_to_read = min n rest in
      chunked_try_fold p (read_chunks_step p wr file) (0, w)
        (ChunkedSizeIter_new size_to_read off CHUNK_SIZE))"

definition EmptyDirectoryIterator_next :: "unit \<Rightarrow> 'd option" where
  "EmptyDirectoryIterator_next self = None"

definition max_buffer_size :: "'f auth_fs \<Rightarrow> nat" where
  "max_buffer_size self = max_write self"

record entry =
  entry_inode :: nat
  generation :: nat
  entry_attr :: stat64

text \<open>The \<open>match\<close> that \<open>lookup\<close> and \<open>getattr\<close> share.\<close>

definition stat_of_config :: "profile \<Rightarrow> nat \<Rightarrow> 'f file_config \<Rightarrow> (io_error, stat64) res" where
  "stat_of_config p inode config =
     (case config of
        LocalVerifiedReadonlyFile _ file_sz \<Rightarrow> create_stat p inode file_sz ModeReadOnly
      | LocalUnverifiedReadonlyFile _ file_sz \<Rightarrow> create_stat p inode file_sz ModeReadOnly
      | RemoteUnverifiedReadonlyFile _ file_sz \<Rightarrow> create_stat p inode file_sz ModeReadOnly
      | RemoteVerifiedReadonlyFile _ file_sz \<Rightarrow> create_stat p inode file_sz ModeReadOnly
      | RemoteVerifiedNewFile _ tree \<Rightarrow>
          create_stat p inode (MerkleLeaves_file_size tree) ModeReadWrite)"

definition fs_init :: "'f auth_fs \<Rightarrow> (io_error, FsOptions) res" where
  "fs_init self = Ok WRITEBACK_CACHE"

text \<open>The name is the result of \<open>CStr::to_str\<close>: \<open>None\<close> if it is not UTF-8.\<close>

definition lookup :: "profile \<Rightarrow> 'f auth_fs \<Rightarrow> string option \<Rightarrow> (io_error, entry) res" where
  "lookup p self name =
     try_r (ok_or (Os EINVAL) name) (\<lambda>num.
     try_r (ok_or (Os ENOENT) (parse_uint 64 num)) (\<lambda>inode.
     try_r (AuthFs_get_file_config self inode) (\<lambda>config.
     try_r (stat_of_config p inode config) (\<lambda>st.
     Ok \<lparr>entry_inode = inode, generation = 0, entry_attr = st\<rparr>))))"

definition getattr :: "profile \<Rightarrow> 'f auth_fs \<Rightarrow> nat \<Rightarrow> (io_error, stat64) res" where
  "getattr p self inode =
     try_r (AuthFs_get_file_config self inode) (\<lambda>config. stat_of_config p inode config)"

text \<open>The result of a successful \<open>open\<close> is always \<open>(None, KEEP_CACHE)\<close>.\<close>

definition fs_open :: "'f auth_fs \<Rightarrow> nat \<Rightarrow> nat \<Rightarrow> (io_error, unit) res" where
  "fs_open self inode flags =
     try_r (AuthFs_get_file_config self inode) (\<lambda>config.
     case config of
       LocalVerifiedReadonlyFile _ _ \<Rightarrow> check_access_mode flags O_RDONLY
     | LocalUnverifiedReadonlyFile _ _ \<Rightarrow> check_access_mode flags O_RDONLY
     | RemoteVerifiedReadonlyFile _ _ \<Rightarrow> check_access_mode flags O_RDONLY
     | RemoteUnverifiedReadonlyFile _ _ \<Rightarrow> check_access_mode flags O_RDONLY
     | RemoteVerifiedNewFile _ _ \<Rightarrow> Ok ())"

text \<open>The reader that \<open>read\<close> hands to \<open>read_chunks\<close>, and the file size.\<close>

definition config_reader ::
  "profile \<Rightarrow> ('c, 'f, 's) authfs_env \<Rightarrow> 's \<Rightarrow> 'f file_config \<Rightarrow> chunk_reader \<times> nat" where
  "config_reader p env st config =
     (case config of
        LocalVerifiedReadonlyFile r file_sz \<Rightarrow>
          (VerifiedFileReader_read_chunk p (env_ffi env) (local_verified p env r), file_sz)
      | LocalUnverifiedReadonlyFile r file_sz \<Rightarrow> (LocalFileReader_read_chunk p (env_api env) r, file_sz)
      | RemoteVerifiedReadonlyFile r file_sz \<Rightarrow>
          (VerifiedFileReader_read_chunk p (env_ffi env) (remote_verified p env st r), file_sz)
      | RemoteUnverifiedReadonlyFile fd file_sz \<Rightarrow>
          (RemoteFileReader_read_chunk p (env_service env) st fd, file_sz)
      | RemoteVerifiedNewFile fd tree \<Rightarrow>
          (VerifiedFileEditor_read_chunk (RemoteFileEditor p (env_service env) fd) (editor_of st tree),
           MerkleLeaves_file_size tree))"

definition fs_read ::
  "profile \<Rightarrow> ('c, 'f, 's) authfs_env \<Rightarrow> 's \<Rightarrow> 'f auth_fs \<Rightarrow> nat \<Rightarrow> 'w writer \<Rightarrow> 'w \<Rightarrow> nat \<Rightarrow> nat \<Rightarrow>
   (io_error, nat \<times> 'w) res" where
  "fs_read p env st self inode wr w n off =
     try_r (AuthFs_get_file_config self inode) (\<lambda>config.
     case config_reader p env st config of (reader, file_sz) \<Rightarrow>
       read_chunks p wr w reader file_sz off n)"

definition put_tree :: "'f auth_fs \<Rightarrow> nat \<Rightarrow> int \<Rightarrow> merkle_leaves \<Rightarrow> 'f auth_fs" where
  "put_tree self inode fd tree =
     self\<lparr>file_pool := (file_pool self)(inode \<mapsto> RemoteVerifiedNewFile fd tree)\<rparr>"

definition fs_write ::
  "profile \<Rightarrow> ('c, 'f, 's) authfs_env \<Rightarrow> 'f auth_fs \<times> 's \<Rightarrow> nat \<Rightarrow> (nat \<Rightarrow> (io_error, bytes) res) \<Rightarrow> nat \<Rightarrow> nat \<Rightarrow>
   (io_error, nat) res \<times> 'f auth_fs \<times> 's" where
  "fs_write p env s inode read_exact n off =
     and_then (AuthFs_get_file_config (fst s) inode, s) (\<lambda>config s.
     case config of
       RemoteVerifiedNewFile fd tree \<Rightarrow>
         and_then (read_exact n, s) (\<lambda>buf s.
         case VerifiedFileEditor_write_at p (env_ffi env) (RemoteFileEditor p (env_service env) fd)
                (editor_of (snd s) tree) buf off of
           (r, ed) \<Rightarrow> (r, put_tree (fst s) inode fd (ed_merkle_tree ed), ed_file ed))
     | _ \<Rightarrow> (Err (Os EBADF), s))"

text \<open>The bits of \<open>SetattrValid\<close> that change what \<open>setattr\<close> does.\<close>

record setattr_valid =
  valid_mode :: bool
  valid_uid :: bool
  valid_gid :: bool
  valid_size :: bool

definition setattr ::
  "profile \<Rightarrow> ('c, 'f, 's) authfs_env \<Rightarrow> 'f auth_fs \<times> 's \<Rightarrow> nat \<Rightarrow> stat64 \<Rightarrow> setattr_valid \<Rightarrow>
   (io_error, stat64) res \<times> 'f auth_fs \<times> 's" where
  "setattr p env s inode attr valid =
     and_then (AuthFs_get_file_config (fst s) inode, s) (\<lambda>config s.
     case config of
       RemoteVerifiedNewFile fd tree \<Rightarrow>
         and_then (create_stat p inode (MerkleLeaves_file_size tree) ModeReadWrite, s) (\<lambda>new_attr s.
         and_then
           (if valid_size valid then
              if debug_assertions p \<and> \<not> st_size attr \<ge> 0 then (Panic, s)
              else
                (case VerifiedFileEditor_resize p (env_ffi env) (RemoteFileEditor p (env_service env) fd)
                        (editor_of (snd s) tree) (nat (st_size attr mod 2 ^ 64)) of
                   (r, ed) \<Rightarrow>
                     (try_r r (\<lambda>_. Ok (new_attr\<lparr>st_size := st_size attr\<rparr>)),
                      put_tree (fst s) inode fd (ed_merkle_tree ed), ed_file ed))
            else (Ok new_attr, s)) (\<lambda>new_attr s.
         if valid_mode valid then (Err (Os ENOSYS), s)
         else if valid_uid valid then (Err (Os ENOSYS), s)
         else if valid_gid valid then (Err (Os ENOSYS), s)
         else (Ok new_attr, s)))
     | _ \<Rightarrow> (Err (Os EBADF), s))"

definition loop_forever ::
  "('path, 'e, 'f auth_fs, 's) fuse_lib \<Rightarrow> 's \<Rightarrow> (nat \<rightharpoonup> 'f file_config) \<Rightarrow> 'path \<Rightarrow> ('e, unit) res \<times> 's" where
  "loop_forever lib s pool mountpoint =
     (let max_read = 65536; max_write = 65536 in
      and_then (expect_st (open_dev_fuse lib s)) (\<lambda>dev_fuse s.
      and_then (expect_st (fuse_mount lib s mountpoint ''authfs'' (MS_NOSUID OR MS_NODEV)
          [MountFD dev_fuse, RootMode (S_IFDIR OR S_IXUSR OR S_IXGRP OR S_IXOTH), AllowOther,
           UserId 0, GroupId 0, MaxRead max_read])) (\<lambda>_ s.
      start_message_loop lib s dev_fuse max_write max_read (AuthFs_new pool max_write))))"

end
