(* ===== verification/Fusefs_Correct.thy ===== *)
theory Fusefs_Correct
  imports Fusefs
begin

text \<open>
  Properties of the FUSE file system (theory \<open>Fusefs\<close>). The reply buffer takes every byte it is given
  (\<open>collects\<close>, theory \<open>Fuse_Lib\<close>). \<open>genuine_reader\<close> is the guarantee that the
  verified reader gives for data from an untrusted service. \<open>read_chunks\<close> turns it into the guarantee
  that a read returns exactly the requested range.
\<close>

definition genuine_reader :: "chunk_reader \<Rightarrow> bytes \<Rightarrow> bool" where
  "genuine_reader rd c \<longleftrightarrow>
     (\<forall>i n b. i < num_blocks c \<longrightarrow> rd i (zeros CHUNK_SIZE) = Ok (n, b) \<longrightarrow> b = pad_block (block c i))"

section \<open>Reading a range\<close>

lemma piece_of_block:
  assumes "o' mod CHUNK_SIZE + k \<le> CHUNK_SIZE" "o' + k \<le> length c"
  shows "take k (drop (o' mod CHUNK_SIZE) (pad_block (block c (o' div CHUNK_SIZE)))) = take k (drop o' c)"
    and "o' mod CHUNK_SIZE + k \<le> length (block c (o' div CHUNK_SIZE))"
proof -
  have "o' div CHUNK_SIZE * CHUNK_SIZE + o' mod CHUNK_SIZE = o'" by simp
  then have "o' mod CHUNK_SIZE + k \<le> length c - o' div CHUNK_SIZE * CHUNK_SIZE"
    using assms(2) by linarith
  with assms(1) show len: "o' mod CHUNK_SIZE + k \<le> length (block c (o' div CHUNK_SIZE))"
    by (simp add: length_block)
  then show "take k (drop (o' mod CHUNK_SIZE) (pad_block (block c (o' div CHUNK_SIZE)))) = take k (drop o' c)"
    using take_drop_blocks[OF assms(1), of c] by (simp add: pad_block_def)
qed

lemma read_chunks_step_eq:
  assumes wr: "collects wr out" and o': "o' mod CHUNK_SIZE + k \<le> CHUNK_SIZE" "o' + k \<le> length c"
    and rd: "rd (o' div CHUNK_SIZE) (zeros CHUNK_SIZE) = Ok (n, pad_block (block c (o' div CHUNK_SIZE)))"
    and fits: "t + k < 2 ^ 64"
  shows "\<exists>w'. read_chunks_step p wr rd (t, w) (o', k) =
      (if n < k then Err (Os ENODATA) else Ok (t + k, w')) \<and> out w' = out w @ take k (drop o' c)"
proof -
  let ?d = "take k (drop o' c)"
  have d: "length ?d = k" using o'(2) by simp
  obtain w' where w': "wr w ?d = (Ok (length ?d), w')" "out w' = out w @ ?d"
    using wr unfolding collects_def by blast
  have "o' mod CHUNK_SIZE + k < 2 ^ 64" using o'(1) by (simp add: CHUNK_SIZE_def)
  with o'(1) piece_of_block(1)[OF o'] rd w' d fits show ?thesis
    by (auto simp: read_chunks_step_def offset_to_chunk_index_def Let_def uadd_ok slice_def)
qed

lemma read_chunks_fold_complete:
  assumes wr: "collects wr out" and rd: "reads_blocks rd c" and len: "length c < 2 ^ 63"
  shows "o' + r \<le> length c \<Longrightarrow> t + r < 2 ^ 64 \<Longrightarrow>
    \<exists>w'. try_fold (read_chunks_step p wr rd) (t, w) (chunk_items CHUNK_SIZE o' r) = Ok (t + r, w') \<and>
      out w' = out w @ take r (drop o' c)"
proof (induction r arbitrary: o' t w rule: less_induct)
  case (less r)
  show ?case
  proof (cases "r = 0")
    case False
    define k where "k = min r (CHUNK_SIZE - o' mod CHUNK_SIZE)"
    have k: "0 < k" "k \<le> r" "o' mod CHUNK_SIZE + k \<le> CHUNK_SIZE"
      using chunk_head[of r o'] False by (simp_all add: k_def)
    have items: "chunk_items CHUNK_SIZE o' r = (o', k) # chunk_items CHUNK_SIZE (o' + k) (r - k)"
      using False by (simp add: chunk_items_step k_def)
    have ok: "o' + k \<le> length c" "t + k < 2 ^ 64" using less.prems k(2) by simp_all
    have i: "o' div CHUNK_SIZE < num_blocks c"
      unfolding less_num_blocks_iff
      using less.prems(1) False by (intro le_less_trans[OF div_times_less_eq_dividend]) linarith
    from read_chunks_step_eq[of wr out o' k c rd, OF wr k(3) ok(1) reads_blocks.read_within_zeros[OF rd i len] ok(2), of p w]
    obtain w1 where w1: "read_chunks_step p wr rd (t, w) (o', k) = Ok (t + k, w1)"
      "out w1 = out w @ take k (drop o' c)"
      using piece_of_block(2)[OF k(3) ok(1)] by auto
    from less.IH[of "r - k" "o' + k" "t + k" w1] k less.prems obtain w2 where
      "try_fold (read_chunks_step p wr rd) (t + k, w1) (chunk_items CHUNK_SIZE (o' + k) (r - k)) = Ok (t + r, w2)"
      "out w2 = out w1 @ take (r - k) (drop (o' + k) c)" by auto
    moreover have "take k (drop o' c) @ take (r - k) (drop (o' + k) c) = take r (drop o' c)"
      using k(2) by (metis add.commute drop_drop le_add_diff_inverse take_add)
    ultimately show ?thesis using w1 by (simp add: items)
  qed simp
qed

lemma read_chunks_fold_sound:
  assumes wr: "collects wr out" and rd: "genuine_reader rd c"
  shows "o' + r \<le> length c \<Longrightarrow> t + r < 2 ^ 64 \<Longrightarrow>
    try_fold (read_chunks_step p wr rd) (t, w) (chunk_items CHUNK_SIZE o' r) = Ok (t', w') \<Longrightarrow>
    t' = t + r \<and> out w' = out w @ take r (drop o' c)"
proof (induction r arbitrary: o' t w rule: less_induct)
  case (less r)
  show ?case
  proof (cases "r = 0")
    case True
    with less.prems show ?thesis by simp
  next
    case False
    define k where "k = min r (CHUNK_SIZE - o' mod CHUNK_SIZE)"
    have k: "0 < k" "k \<le> r" "o' mod CHUNK_SIZE + k \<le> CHUNK_SIZE"
      using chunk_head[of r o'] False by (simp_all add: k_def)
    have items: "chunk_items CHUNK_SIZE o' r = (o', k) # chunk_items CHUNK_SIZE (o' + k) (r - k)"
      using False by (simp add: chunk_items_step k_def)
    have ok: "o' + k \<le> length c" "t + k < 2 ^ 64" using less.prems k(2) by simp_all
    have i: "o' div CHUNK_SIZE < num_blocks c"
      unfolding less_num_blocks_iff
      using less.prems(1) False by (intro le_less_trans[OF div_times_less_eq_dividend]) linarith
    from less.prems(3) obtain t1 w1 where
      step: "read_chunks_step p wr rd (t, w) (o', k) = Ok (t1, w1)"
      and rest: "try_fold (read_chunks_step p wr rd) (t1, w1) (chunk_items CHUNK_SIZE (o' + k) (r - k)) = Ok (t', w')"
      unfolding items by (auto simp: try_r_Ok_iff)
    from step obtain n b where b: "rd (o' div CHUNK_SIZE) (zeros CHUNK_SIZE) = Ok (n, b)"
      by (auto simp: read_chunks_step_def offset_to_chunk_index_def try_r_Ok_iff)
    then have "b = pad_block (block c (o' div CHUNK_SIZE))" using rd i unfolding genuine_reader_def by blast
    from read_chunks_step_eq[of wr out o' k c rd, OF wr k(3) ok(1) b[unfolded this] ok(2), of p w] step
    have "t1 = t + k" "out w1 = out w @ take k (drop o' c)" by (auto split: if_splits)
    with less.IH[of "r - k" "o' + k" t1 w1] rest k less.prems(1,2)
    have "t' = t + r" "out w' = out w @ take k (drop o' c) @ take (r - k) (drop (o' + k) c)" by auto
    moreover have "take k (drop o' c) @ take (r - k) (drop (o' + k) c) = take r (drop o' c)"
      using k(2) by (metis add.commute drop_drop le_add_diff_inverse take_add)
    ultimately show ?thesis by simp
  qed
qed

lemma read_chunks_complete:
  assumes "collects wr out" "reads_blocks rd c" "length c < 2 ^ 63" "off < 2 ^ 64"
  shows "\<exists>w'. read_chunks p wr w rd (length c) off n = Ok (length (take n (drop off c)), w') \<and>
    out w' = out w @ take n (drop off c)"
proof -
  let ?r = "min n (length c - off)"
  have fold: "read_chunks p wr w rd (length c) off n =
      try_fold (read_chunks_step p wr rd) (0, w) (chunk_items CHUNK_SIZE off ?r)"
    unfolding read_chunks_def Let_def using assms(3,4) by (intro chunked_try_fold_eq) (auto simp: min_def)
  show ?thesis
  proof (cases "off \<le> length c")
    case True
    then have "off + ?r \<le> length c" "0 + ?r < 2 ^ 64" using assms(3) by auto
    from read_chunks_fold_complete[OF assms(1-3) this, of p w] show ?thesis
      unfolding fold by (simp add: min.commute) (metis length_drop min.commute take_all_iff min_def nat_le_linear)
  qed (simp add: fold)
qed

lemma read_chunks_sound:
  assumes "collects wr out" "genuine_reader rd c" "length c < 2 ^ 63" "off < 2 ^ 64"
    and run: "read_chunks p wr w rd (length c) off n = Ok (t, w')"
  shows "t = length (take n (drop off c)) \<and> out w' = out w @ take n (drop off c)"
proof -
  let ?r = "min n (length c - off)"
  have fold: "try_fold (read_chunks_step p wr rd) (0, w) (chunk_items CHUNK_SIZE off ?r) = Ok (t, w')"
    using run assms(3,4) unfolding read_chunks_def Let_def
    by (subst (asm) chunked_try_fold_eq) (auto simp: min_def)
  show ?thesis
  proof (cases "off \<le> length c")
    case True
    then have "off + ?r \<le> length c" "0 + ?r < 2 ^ 64" using assms(3) by auto
    from read_chunks_fold_sound[OF assms(1,2) this fold] show ?thesis
      by (simp add: min.commute) (metis length_drop min.commute take_all_iff min_def nat_le_linear)
  qed (use fold in simp)
qed

section \<open>Remote files with an untrusted service\<close>

lemma keeps_length_remote:
  "keeps_length (RemoteFileReader_read_chunk p service st fd)"
  "keeps_length (RemoteMerkleTreeReader_read_chunk p service st fd)"
  by (auto simp: keeps_length_def RemoteFileReader_read_chunk_def remote_read_chunk_def
      RemoteMerkleTreeReader_read_chunk_def try_r_Ok_iff Let_def)

definition service_no_collision ::
  "(bytes \<Rightarrow> hash) \<Rightarrow> profile \<Rightarrow> 's virt_fd_service \<Rightarrow> 's \<Rightarrow> int \<Rightarrow> bytes \<Rightarrow> bool" where
  "service_no_collision sha p service st fd c \<longleftrightarrow>
     (\<forall>i < num_blocks c.
        no_collision sha
          (served_msgs (RemoteFileReader_read_chunk p service st fd)
             (RemoteMerkleTreeReader_read_chunk p service st fd) i (zeros CHUNK_SIZE))
          (genuine_msgs sha c i))"

lemma remote_verified_genuine:
  assumes sha: "sha256_spec (env_ffi env) sha" and len: "length c \<le> 2 ^ 61"
    and sec: "service_no_collision sha p (env_service env) st fd c"
  shows "genuine_reader (VerifiedFileReader_read_chunk p (env_ffi env)
    (remote_verified p env st \<lparr>rv_file_fd = fd, rv_file_size = length c, rv_tree_fd = fd,
       rv_root_hash = root_of sha c\<rparr>)) c"
  unfolding genuine_reader_def
proof (intro allI impI)
  fix i n b
  let ?rd = "RemoteFileReader_read_chunk p (env_service env) st fd"
  let ?trd = "RemoteMerkleTreeReader_read_chunk p (env_service env) st fd"
  assume i: "i < num_blocks c" and "VerifiedFileReader_read_chunk p (env_ffi env)
    (remote_verified p env st \<lparr>rv_file_fd = fd, rv_file_size = length c, rv_tree_fd = fd,
       rv_root_hash = root_of sha c\<rparr>) i (zeros CHUNK_SIZE) = Ok (n, b)"
  then have rd: "?rd i (zeros CHUNK_SIZE) = Ok (n, b)"
    and run: "verity_check p (env_ffi env) (take n b) i (length c) ?trd = Ok (root_of sha c)"
    by (auto simp: VerifiedFileReader_read_chunk_def remote_verified_def try_r_Ok_iff split: if_splits)
  from rd have b: "b = pad_block (take n b)" and n: "length (take n b) \<le> CHUNK_SIZE"
    using remote_read_chunk_pads[of p "env_service env" st fd i n b]
    by (auto simp: RemoteFileReader_read_chunk_def)
  have "no_collision sha ({m. \<exists>k n. ?trd k (zeros 4096) = Ok (n, m)} \<union> {pad_block (take n b)})
      (genuine_msgs sha c i)"
    using sec i rd unfolding service_no_collision_def
    by (auto intro: no_collision_mono simp: served_msgs_def)
  from verity_check_sound[OF sha keeps_length_remote(2) i len n this run] b
  show "b = pad_block (block c i)" by simp
qed

section \<open>Properties\<close>

text \<open>C9: A FUSE read returns exactly the requested range of the file, cut at its end, whenever the
  reader of the file serves its chunks: no matter how the range lies in the chunks, the pieces
  written to the reply are adjacent and complete.\<close>

theorem fuse_read_exact:
  assumes "file_pool fs inode = Some config" "config_reader p env st config = (rd, length c)"
    and "reads_blocks rd c" "length c < 2 ^ 63" "off < 2 ^ 64" "collects wr out"
  shows "\<exists>w'. fs_read p env st fs inode wr w n off = Ok (length (take n (drop off c)), w') \<and>
    out w' = out w @ take n (drop off c)"
  using read_chunks_complete[OF assms(6,3,4,5), of p w n] assms(1,2)
  by (simp add: fs_read_def AuthFs_get_file_config_def)

definition sample_env :: "(bytes, bytes, bytes fd_service) authfs_env" where
  "sample_env = \<lparr>env_ffi = sample_ffi, env_api = mem_file, env_service = fd_server debug_profile mem_file\<rparr>"

definition sample_local_fs :: "bytes auth_fs" where
  "sample_local_fs =
     AuthFs_new [2 \<mapsto> LocalUnverifiedReadonlyFile
       \<lparr>lf_file = sample_block, lf_size = length sample_block\<rparr> (length sample_block)] 65536"

theorem fuse_read_exact_witness:
  "\<exists>w'. fs_read debug_profile sample_env \<lparr>fd_pool = Map.empty\<rparr> sample_local_fs 2 append_writer [] 20 30 =
      Ok (20, w') \<and> w' = [1, 1] @ zeros 18"
proof -
  have "\<exists>w'. fs_read debug_profile sample_env \<lparr>fd_pool = Map.empty\<rparr> sample_local_fs 2 append_writer [] 20 30 =
      Ok (length (take 20 (drop 30 sample_block)), w') \<and> w' = [] @ take 20 (drop 30 sample_block)"
    by (rule fuse_read_exact[OF _ _ local_file.within.reads_blocks_axioms[where p = debug_profile] _ _ collects_append,
          where config = "LocalUnverifiedReadonlyFile \<lparr>lf_file = sample_block, lf_size = length sample_block\<rparr>
            (length sample_block)"])
      (simp_all add: sample_local_fs_def AuthFs_new_def config_reader_def sample_env_def sample_block_simps)
  moreover have "take 20 (drop 30 sample_block) = [1, 1] @ zeros 18"
    by (simp add: sample_block_def numeral_2_eq_2)
  ultimately show ?thesis by simp
qed

text \<open>C8: Reading a verified remote file through FUSE returns bytes of the signed file \<open>c\<close> only. The
  service may serve anything, also change between opening the file and the read; a read that
  succeeds wrote exactly the requested range of \<open>c\<close> to the reply, unless the service found a second
  preimage.\<close>

theorem fuse_read_authentic:
  assumes "sha256_spec (env_ffi env) sha" "0 < length c" "length c \<le> 2 ^ 61"
    and "\<forall>d. verify sig d = Ok True \<longrightarrow> d = formatted_digest sha c"
    and "VerifiedFileReader_new (env_ffi env) verify
      (RemoteFileReader_read_chunk p (env_service env) st0 fd) file_sz sig
      (RemoteMerkleTreeReader_read_chunk p (env_service env) st0 fd) = Ok r0" "file_sz < 2 ^ 64"
    and "no_collision sha {fsverity_descriptor (vf_root_hash r0) file_sz}
      {fsverity_descriptor (root_of sha c) (length c)}"
    and "file_pool fs inode = Some (RemoteVerifiedReadonlyFile
      \<lparr>rv_file_fd = fd, rv_file_size = vf_file_size r0, rv_tree_fd = fd,
       rv_root_hash = vf_root_hash r0\<rparr> file_sz)"
    and "service_no_collision sha p (env_service env) st fd c"
    and "collects wr out" "off < 2 ^ 64" "fs_read p env st fs inode wr w n off = Ok (t, w')"
  shows "t = length (take n (drop off c)) \<and> out w' = out w @ take n (drop off c)"
proof -
  have c: "length c < 2 ^ 64" "length c < 2 ^ 63" using assms(3) by simp_all
  from verified_new_trusts[OF assms(1,6) c(1) assms(5,4,7,2)]
  have r0: "vf_file_size r0 = length c" "vf_root_hash r0 = root_of sha c" by simp_all
  have "file_sz = vf_file_size r0"
    using assms(5) by (auto simp: VerifiedFileReader_new_def try_r_Ok_iff split: if_splits)
  with assms(8,12) r0 have "read_chunks p wr w (VerifiedFileReader_read_chunk p (env_ffi env)
      (remote_verified p env st \<lparr>rv_file_fd = fd, rv_file_size = length c, rv_tree_fd = fd,
         rv_root_hash = root_of sha c\<rparr>)) (length c) off n = Ok (t, w')"
    by (simp add: fs_read_def AuthFs_get_file_config_def config_reader_def)
  from read_chunks_sound[OF assms(10) remote_verified_genuine[OF assms(1,3,9)] c(2) assms(11) this]
  show ?thesis .
qed

definition sample_service :: "bytes fd_service" where
  "sample_service = \<lparr>fd_pool = [3 \<mapsto> Readonly sample_block (Some sample_block) None]\<rparr>"

abbreviation sample_rd :: chunk_reader where
  "sample_rd \<equiv> RemoteFileReader_read_chunk debug_profile (env_service sample_env) sample_service 3"

abbreviation sample_trd :: chunk_reader where
  "sample_trd \<equiv> RemoteMerkleTreeReader_read_chunk debug_profile (env_service sample_env) sample_service 3"

lemma sample_remote_reads:
  "read_by_chunk sample_rd sample_block" "read_by_chunk sample_trd sample_block"
proof -
  have "serves (svc_readFile (env_service sample_env) sample_service 3) sample_block"
    using readFile_serves[OF regular_mem_file, of sample_service 3 "Readonly sample_block (Some sample_block) None"]
    by (simp add: sample_env_def fd_server_def sample_service_def config_file_def)
  then show "read_by_chunk sample_rd sample_block"
    using remote_reader_reads by (simp add: RemoteFileReader_read_chunk_def[abs_def])
  have "serves (svc_readFsverityMerkleTree (env_service sample_env) sample_service 3) sample_block"
    using readFsverityMerkleTree_serves[OF regular_mem_file, of sample_service 3 sample_block sample_block None]
    by (simp add: sample_env_def fd_server_def sample_service_def)
  then show "read_by_chunk sample_trd sample_block"
    by (rule remote_merkle_reader_reads)
qed

lemma sample_trd_pages: "sample_trd k (zeros 4096) = Ok (n, m) \<Longrightarrow> m = sample_block \<or> m = zeros 4096"
proof (cases "k * CHUNK_SIZE < 2 ^ 63")
  case True
  assume "sample_trd k (zeros 4096) = Ok (n, m)"
  with read_by_chunk.read_into_zeros[OF sample_remote_reads(2) True]
  have "m = pad_block (block sample_block k)" by (simp add: sample_block_simps CHUNK_SIZE_def)
  then show ?thesis
    by (cases k) (simp_all add: sample_block_simps CHUNK_SIZE_def pad_block_def)
next
  case False
  assume "sample_trd k (zeros 4096) = Ok (n, m)"
  then obtain b where b: "umul debug_profile 64 k CHUNK_SIZE = (Ok b :: (io_error, nat) res)" "b < 2 ^ 63"
    by (auto simp: RemoteMerkleTreeReader_read_chunk_def try_r_Ok_iff i64_try_from_def split: if_splits)
  then have "k * CHUNK_SIZE < 2 ^ 64"
    using umul_overflow[of 64 k CHUNK_SIZE debug_profile, where 'a = io_error] by fastforce
  with b False show ?thesis by (simp add: umul_ok)
qed

lemma sample_no_collision: "service_no_collision sample_sha debug_profile (env_service sample_env) sample_service 3 sample_block"
proof -
  have "sample_rd 0 (zeros 4096) = Ok (4096, sample_block)"
    using read_by_chunk.read_into_zeros[OF sample_remote_reads(1), of 0]
    by (simp add: sample_block_simps CHUNK_SIZE_def)
  then have seen: "served_msgs sample_rd sample_trd 0 (zeros 4096) \<subseteq> {sample_block, zeros 4096}"
    using sample_trd_pages by (auto simp: served_msgs_def sample_block_simps)
  have "no_collision sample_sha {sample_block, zeros 4096} (genuine_msgs sample_sha sample_block 0)"
  proof -
    have "hd HASH_OF_4096_ZEROS \<noteq> hd (replicate 32 1)" by (simp add: HASH_OF_4096_ZEROS_def)
    then have "sample_sha (zeros 4096) \<noteq> sample_sha sample_block"
      using sample_block_simps(5) sha256_spec_zeros[OF sample_sha256_spec] by metis
    then show ?thesis by (auto simp: no_collision_def genuine_msgs_def sample_path_msg)
  qed
  with seen show ?thesis
    by (simp add: service_no_collision_def sample_block_simps no_collision_mono CHUNK_SIZE_def)
qed

theorem fuse_read_authentic_witness:
  "\<exists>t w'. fs_read debug_profile sample_env sample_service
      \<lparr>file_pool = [5 \<mapsto> RemoteVerifiedReadonlyFile
         \<lparr>rv_file_fd = 3, rv_file_size = 4096, rv_tree_fd = 3, rv_root_hash = replicate 32 1\<rparr> 4096],
       max_write = 65536\<rparr> 5 append_writer [] 20 30 = Ok (t, w') \<and>
    t = length (take 20 (drop 30 sample_block)) \<and> w' = [] @ take 20 (drop 30 sample_block)"
proof -
  let ?r = "\<lparr>vf_chunked_file = sample_rd, vf_file_size = 4096, vf_merkle_tree = sample_trd,
    vf_root_hash = replicate 32 1\<rparr>"
  let ?fs = "\<lparr>file_pool = [5 \<mapsto> RemoteVerifiedReadonlyFile
    \<lparr>rv_file_fd = 3, rv_file_size = 4096, rv_tree_fd = 3, rv_root_hash = replicate 32 1\<rparr> 4096],
    max_write = 65536\<rparr>"
  have spec: "sha256_spec (env_ffi sample_env) sample_sha" by (simp add: sample_env_def sample_sha256_spec)
  note reads = sample_remote_reads[THEN read_by_chunk_within]
  have new: "VerifiedFileReader_new (env_ffi sample_env)
      (\<lambda>_ d. Ok (d = formatted_digest sample_sha sample_block)) sample_rd 4096 [] sample_trd = Ok ?r"
    using verified_new_eq[OF spec, of sample_trd sample_block] reads
    by (simp add: sample_block_simps sample_tree_file sample_root)
  have "reads_blocks (VerifiedFileReader_read_chunk debug_profile (env_ffi sample_env) ?r) sample_block"
    using verified_reader_reads[OF spec reads(1), of sample_trd debug_profile] reads(2)
    by (simp add: sample_tree_file sample_block_simps sample_root)
  from read_chunks_complete[OF collects_append this, of 30 debug_profile "[]" 20]
  obtain t w' where run: "fs_read debug_profile sample_env sample_service ?fs 5 append_writer [] 20 30 = Ok (t, w')"
    by (auto simp: fs_read_def AuthFs_get_file_config_def config_reader_def remote_verified_def
        sample_block_simps)
  have "t = length (take 20 (drop 30 sample_block)) \<and> w' = [] @ take 20 (drop 30 sample_block)"
    by (rule fuse_read_authentic[OF spec _ _ _ new _ _ _ sample_no_collision collects_append _ run])
      (simp_all add: sample_block_simps no_collision_def sample_root)
  with run show ?thesis by blast
qed

text \<open>C10: What is written to a new file through FUSE is read back: after a write of \<open>n\<close> bytes at \<open>off\<close> a
  read of the same range returns the bytes written, when the service behind the file meets its
  contract.\<close>

theorem fuse_write_read:
  assumes "virt_fd_file (env_service env) fd content valid" "sha256_spec (env_ffi env) sha"
    and "file_pool fs inode = Some (RemoteVerifiedNewFile fd tree)"
    and "editor_inv sha content valid (editor_of st tree)"
    and "read_exact n = Ok buf" "length buf = n" "off + n < 2 ^ 63" "collects wr out"
  shows "\<exists>fs' st' w'. fs_write p env (fs, st) inode read_exact n off = (Ok n, fs', st') \<and>
    fs_read p env st' fs' inode wr w n off = Ok (n, w') \<and> out w' = out w @ buf"
proof -
  let ?ops = "RemoteFileEditor p (env_service env) fd"
  note ra = virt_fd_file.remote_editor_contract[OF assms(1), of p]
  obtain ed where w: "VerifiedFileEditor_write_at p (env_ffi env) ?ops (editor_of st tree) buf off = (Ok n, ed)"
    and inv: "editor_inv sha content valid ed"
    and c: "content (ed_file ed) = write_bytes (content st) off buf"
    using random_access_file.editor_write_at_ok[OF ra assms(2,4), of off buf p] assms(6,7)
    by (auto simp: editor_of_def)
  let ?c = "content (ed_file ed)" and ?fs = "put_tree fs inode fd (ed_merkle_tree ed)"
  have v: "valid (ed_file ed)" and t: "MerkleLeaves_file_size (ed_merkle_tree ed) = length ?c"
    using inv by (simp_all add: editor_inv_def MerkleLeaves_file_size_def merkle_of_def)
  have "reads_blocks (VerifiedFileEditor_read_chunk ?ops (editor_of (ed_file ed) (ed_merkle_tree ed))) ?c"
    using random_access_file.reads[OF ra v]
    by (simp add: VerifiedFileEditor_read_chunk_def[abs_def] editor_of_def)
  from read_chunks_complete[OF assms(8) this random_access_file.size_bound[OF ra v], of off p w n]
  obtain w' where "fs_read p env (ed_file ed) ?fs inode wr w n off = Ok (length (take n (drop off ?c)), w')"
    "out w' = out w @ take n (drop off ?c)"
    using assms(7) t by (auto simp: fs_read_def AuthFs_get_file_config_def put_tree_def config_reader_def)
  moreover have "fs_write p env (fs, st) inode read_exact n off = (Ok n, ?fs, ed_file ed)"
    using assms(3,5) w by (simp add: fs_write_def AuthFs_get_file_config_def)
  moreover have "take n (drop off ?c) = buf"
    using read_written[of buf off "content st"] assms(6) c by simp
  ultimately show ?thesis using assms(6) by auto
qed

theorem fuse_write_read_witness:
  "\<exists>fs' st' w'. fs_write debug_profile sample_env
      (AuthFs_new [7 \<mapsto> RemoteVerifiedNewFile 4 MerkleLeaves_new] 65536, \<lparr>fd_pool = [4 \<mapsto> ReadWrite []]\<rparr>) 7
      (\<lambda>n. Ok (replicate n 9)) 5000 100 = (Ok 5000, fs', st') \<and>
    fs_read debug_profile sample_env st' fs' 7 append_writer [] 5000 100 = Ok (5000, w') \<and>
    w' = [] @ replicate 5000 9"
proof (rule fuse_write_read[OF _ _ _ _ _ _ _ collects_append])
  show "virt_fd_file (env_service sample_env) 4 (rw_content (\<lambda>f. f) 4) (rw_wf (\<lambda>f. f) 4)"
    by (simp add: sample_env_def fd_server_meets_contract[OF regular_mem_file])
  show "sha256_spec (env_ffi sample_env) sample_sha" by (simp add: sample_env_def sample_sha256_spec)
  show "editor_inv sample_sha (rw_content (\<lambda>f. f) 4) (rw_wf (\<lambda>f. f) 4)
      (editor_of \<lparr>fd_pool = [4 \<mapsto> ReadWrite []]\<rparr> MerkleLeaves_new)"
    by (simp add: editor_inv_def editor_of_def rw_content_def rw_wf_def MerkleLeaves_new_def merkle_of_def
        leaves_of_def num_blocks_def)
qed (simp_all add: AuthFs_new_def)

text \<open>C11: Files that are not new files cannot be changed through FUSE: opening one for writing is
  refused with \<open>EACCES\<close>, a write and a \<open>setattr\<close> with \<open>EBADF\<close>, and the file system and the state of the
  service stay as they were.\<close>

theorem readonly_files_protected:
  assumes "file_pool fs inode = Some config" "\<forall>fd tree. config \<noteq> RemoteVerifiedNewFile fd tree"
  shows "fs_write p env (fs, st) inode read_exact n off = (Err (Os EBADF), fs, st) \<and>
    setattr p env (fs, st) inode attr valid = (Err (Os EBADF), fs, st) \<and>
    fs_open fs inode flags = (if flags AND O_ACCMODE = O_RDONLY then Ok () else Err (Os EACCES))"
  using assms
  by (cases config)
    (simp_all add: fs_write_def setattr_def fs_open_def AuthFs_get_file_config_def check_access_mode_def)

theorem readonly_files_protected_witness:
  "fs_write debug_profile sample_env (sample_local_fs, sample_service) 2 (\<lambda>n. Ok (zeros n)) 5 0 =
      (Err (Os EBADF), sample_local_fs, sample_service) \<and>
   fs_open sample_local_fs 2 1 = Err (Os EACCES)"
  using readonly_files_protected[of sample_local_fs 2 "LocalUnverifiedReadonlyFile
      \<lparr>lf_file = sample_block, lf_size = length sample_block\<rparr> (length sample_block)" debug_profile sample_env
      sample_service "\<lambda>n. Ok (zeros n)" 5 0 undefined undefined 1]
  by (simp add: sample_local_fs_def AuthFs_new_def O_ACCMODE_def O_RDONLY_def)

text \<open>\<open>setattr\<close> with a new size returns the new size but the block count of the old size.\<close>

theorem setattr_stale_blocks:
  assumes "file_pool fs inode = Some (RemoteVerifiedNewFile fd tree)" "valid_size valid"
    and "setattr p env (fs, st) inode attr valid = (Ok a, s')" "file_size tree < 2 ^ 63"
  shows "st_size a = st_size attr \<and> st_blocks a = ceil_div (file_size tree) 512"
proof -
  have "(divide_roundup p (file_size tree) 512 :: (io_error, nat) res) = Ok (ceil_div (file_size tree) 512)"
    using assms(4) by (intro divide_roundup_ok) simp_all
  with assms show ?thesis
    by (auto simp: setattr_def AuthFs_get_file_config_def create_stat_def MerkleLeaves_file_size_def
        and_then_Ok_iff try_r_Ok_iff Let_def split: if_splits prod.splits)
qed

theorem setattr_stale_blocks_witness:
  "\<exists>a s'. setattr debug_profile sample_env
      (AuthFs_new [7 \<mapsto> RemoteVerifiedNewFile 4 MerkleLeaves_new] 65536, \<lparr>fd_pool = [4 \<mapsto> ReadWrite []]\<rparr>) 7
      \<lparr>st_ino = 7, st_mode = 0, st_nlink = 1, st_size = 5000, st_blksize = 4096, st_blocks = 0\<rparr>
      \<lparr>valid_mode = False, valid_uid = False, valid_gid = False, valid_size = True\<rparr> = (Ok a, s') \<and>
    st_size a = 5000 \<and> st_blocks a = 0"
proof -
  let ?fs = "AuthFs_new [7 \<mapsto> RemoteVerifiedNewFile 4 MerkleLeaves_new] 65536 :: bytes auth_fs"
  let ?st = "\<lparr>fd_pool = [4 \<mapsto> ReadWrite []]\<rparr> :: bytes fd_service"
  let ?attr = "\<lparr>st_ino = 7, st_mode = 0, st_nlink = 1, st_size = 5000, st_blksize = 4096, st_blocks = 0\<rparr>"
  let ?v = "\<lparr>valid_mode = False, valid_uid = False, valid_gid = False, valid_size = True\<rparr>"
  have "\<exists>a s'. setattr debug_profile sample_env (?fs, ?st) 7 ?attr ?v = (Ok a, s')"
    by (simp add: setattr_def AuthFs_get_file_config_def AuthFs_new_def create_stat_def MerkleLeaves_file_size_def
        MerkleLeaves_new_def divide_roundup_ok Let_def VerifiedFileEditor_resize_def editor_of_def
        RemoteFileEditor_def RemoteFileEditor_resize_def i64_try_from_def sample_env_def fd_server_def
        resize_def get_file_config_def mem_file_def map_err_st_def MerkleLeaves_resize_def CHUNK_SIZE_def)
  then obtain a s' where run: "setattr debug_profile sample_env (?fs, ?st) 7 ?attr ?v = (Ok a, s')" by blast
  from setattr_stale_blocks[OF _ _ run] run show ?thesis
    by (fastforce simp: AuthFs_new_def MerkleLeaves_new_def)
qed

end
