(* ===== verification/Authfs_Main.thy ===== *)
theory Authfs_Main
  imports Fusefs_Correct
begin

text \<open>
  \<open>authfs/src/main.rs\<close>: the command line of authfs. Each \<open>parse_\<close> function is given by the text of one
  option value, each \<open>new_config_\<close> function builds the configuration of one file, and
  \<open>prepare_file_pool\<close> fills the pool of the file system in the order of the source. \<open>StructOpt\<close>, which
  splits the command line into option values, is not part of the repository; opening local files is
  the parameter \<open>local_fs\<close>. \<open>get_local_binder\<close> stands for the service in \<open>authfs_env\<close>. Error messages
  and contexts are reduced to the kind of error.
\<close>

datatype authfs_error =
    InvalidOption string
  | BadNumber
  | AuthfsIo io_error
  | AuthfsStatus status
  | AuthfsVerity fsverity_error

record 'f local_fs =
  file_open :: "string \<Rightarrow> (io_error, 'f) res"
  read_to_end :: "'f \<Rightarrow> (io_error, bytes) res"

record OptionRemoteRoFile =
  rro_ino :: nat
  rro_remote_id :: int
  rro_file_size :: nat
  rro_certificate_path :: string

record OptionRemoteRoFileUnverified =
  rru_ino :: nat
  rru_remote_id :: int
  rru_file_size :: nat

record OptionRemoteRwFile =
  rrw_ino :: nat
  rrw_remote_id :: int

record OptionLocalFileRo =
  lro_ino :: nat
  lro_file_path :: string
  lro_merkle_tree_dump_path :: string
  lro_signature_path :: string
  lro_certificate_path :: string

record OptionLocalRoFileUnverified =
  lru_ino :: nat
  lru_file_path :: string

record authfs_args =
  mount_point :: string
  remote_ro_file :: "OptionRemoteRoFile list"
  remote_ro_file_unverified :: "OptionRemoteRoFileUnverified list"
  remote_new_rw_file :: "OptionRemoteRwFile list"
  local_ro_file :: "OptionLocalFileRo list"
  local_ro_file_unverified :: "OptionLocalRoFileUnverified list"
  debug :: bool

section \<open>Options\<close>

text \<open>\<open>s.parse::<Inode>()?\<close>, \<open>s.parse::<u64>()?\<close> and \<open>s.parse::<i32>()?\<close>.\<close>

definition parse_u64 :: "string \<Rightarrow> (authfs_error, nat) res" where
  "parse_u64 s = ok_or BadNumber (parse_uint 64 s)"

definition parse_i32 :: "string \<Rightarrow> (authfs_error, int) res" where
  "parse_i32 s = ok_or BadNumber (parse_int 32 s)"

definition parse_remote_ro_file_option :: "string \<Rightarrow> (authfs_error, OptionRemoteRoFile) res" where
  "parse_remote_ro_file_option opt =
     (let strs = split_on CHR '':'' opt in
      if length strs \<noteq> 4 then Err (InvalidOption opt)
      else
        try_r (parse_u64 (strs ! 0)) (\<lambda>ino.
        try_r (parse_i32 (strs ! 1)) (\<lambda>remote_id.
        try_r (parse_u64 (strs ! 2)) (\<lambda>n.
        Ok \<lparr>rro_ino = ino, rro_remote_id = remote_id, rro_file_size = n,
            rro_certificate_path = strs ! 3\<rparr>))))"

definition parse_remote_ro_file_unverified_option ::
  "string \<Rightarrow> (authfs_error, OptionRemoteRoFileUnverified) res" where
  "parse_remote_ro_file_unverified_option opt =
     (let strs = split_on CHR '':'' opt in
      if length strs \<noteq> 3 then Err (InvalidOption opt)
      else
        try_r (parse_u64 (strs ! 0)) (\<lambda>ino.
        try_r (parse_i32 (strs ! 1)) (\<lambda>remote_id.
        try_r (parse_u64 (strs ! 2)) (\<lambda>n.
        Ok \<lparr>rru_ino = ino, rru_remote_id = remote_id, rru_file_size = n\<rparr>))))"

definition parse_remote_new_rw_file_option :: "string \<Rightarrow> (authfs_error, OptionRemoteRwFile) res" where
  "parse_remote_new_rw_file_option opt =
     (let strs = split_on CHR '':'' opt in
      if length strs \<noteq> 2 then Err (InvalidOption opt)
      else
        try_r (unwrap (parse_uint 64 (strs ! 0))) (\<lambda>ino.
        try_r (unwrap (parse_int 32 (strs ! 1))) (\<lambda>remote_id.
        Ok \<lparr>rrw_ino = ino, rrw_remote_id = remote_id\<rparr>)))"

definition parse_local_file_ro_option :: "string \<Rightarrow> (authfs_error, OptionLocalFileRo) res" where
  "parse_local_file_ro_option opt =
     (let strs = split_on CHR '':'' opt in
      if length strs \<noteq> 5 then Err (InvalidOption opt)
      else
        try_r (parse_u64 (strs ! 0)) (\<lambda>ino.
        Ok \<lparr>lro_ino = ino, lro_file_path = strs ! 1, lro_merkle_tree_dump_path = strs ! 2,
            lro_signature_path = strs ! 3, lro_certificate_path = strs ! 4\<rparr>))"

definition parse_local_ro_file_unverified_ro_option ::
  "string \<Rightarrow> (authfs_error, OptionLocalRoFileUnverified) res" where
  "parse_local_ro_file_unverified_ro_option opt =
     (let strs = split_on CHR '':'' opt in
      if length strs \<noteq> 2 then Err (InvalidOption opt)
      else
        try_r (parse_u64 (strs ! 0)) (\<lambda>ino.
        Ok \<lparr>lru_ino = ino, lru_file_path = strs ! 1\<rparr>))"

text \<open>The command line after \<open>StructOpt\<close> has split it: the values of each option in order, to which
  the derived \<open>Args::from_args\<close> applies the parser named in the attribute of the field.\<close>

record authfs_matches =
  m_mount_point :: string
  m_remote_ro_file :: "string list"
  m_remote_ro_file_unverified :: "string list"
  m_remote_new_rw_file :: "string list"
  m_local_ro_file :: "string list"
  m_local_ro_file_unverified :: "string list"
  m_debug :: bool

definition Args_from_matches :: "authfs_matches \<Rightarrow> (authfs_error, authfs_args) res" where
  "Args_from_matches m =
     try_r (try_map parse_remote_ro_file_option (m_remote_ro_file m)) (\<lambda>ro.
     try_r (try_map parse_remote_ro_file_unverified_option (m_remote_ro_file_unverified m)) (\<lambda>ro_unverified.
     try_r (try_map parse_remote_new_rw_file_option (m_remote_new_rw_file m)) (\<lambda>new_rw.
     try_r (try_map parse_local_file_ro_option (m_local_ro_file m)) (\<lambda>local_ro.
     try_r (try_map parse_local_ro_file_unverified_ro_option (m_local_ro_file_unverified m)) (\<lambda>local_unverified.
     Ok \<lparr>mount_point = m_mount_point m, remote_ro_file = ro,
         remote_ro_file_unverified = ro_unverified, remote_new_rw_file = new_rw,
         local_ro_file = local_ro, local_ro_file_unverified = local_unverified, debug = m_debug m\<rparr>)))))"

section \<open>The file pool\<close>

definition new_config_remote_verified_file ::
  "profile \<Rightarrow> ('c, 'f, 's) authfs_env \<Rightarrow> 's \<Rightarrow> int \<Rightarrow> nat \<Rightarrow> (authfs_error, 'f file_config) res" where
  "new_config_remote_verified_file p env st remote_id n =
     try_r (map_err AuthfsStatus (svc_readFsveritySignature (env_service env) st remote_id)) (\<lambda>signature.
     try_r (map_err AuthfsVerity
              (VerifiedFileReader_new (env_ffi env)
                 (FakeAuthenticator_verify FakeAuthenticator_always_succeed)
                 (RemoteFileReader_read_chunk p (env_service env) st remote_id) n signature
                 (RemoteMerkleTreeReader_read_chunk p (env_service env) st remote_id))) (\<lambda>reader.
     Ok (RemoteVerifiedReadonlyFile
           \<lparr>rv_file_fd = remote_id, rv_file_size = vf_file_size reader, rv_tree_fd = remote_id,
            rv_root_hash = vf_root_hash reader\<rparr> n)))"

definition new_config_remote_unverified_file ::
  "int \<Rightarrow> nat \<Rightarrow> (authfs_error, 'f file_config) res" where
  "new_config_remote_unverified_file remote_id n = Ok (RemoteUnverifiedReadonlyFile remote_id n)"

definition new_config_local_ro_file ::
  "profile \<Rightarrow> ('c, 'f, 's) authfs_env \<Rightarrow> 'f local_fs \<Rightarrow> string \<Rightarrow> string \<Rightarrow> string \<Rightarrow>
   (authfs_error, 'f file_config) res" where
  "new_config_local_ro_file p env disk protected_file merkle_tree_dump signature =
     try_r (map_err AuthfsIo (file_open disk protected_file)) (\<lambda>f.
     try_r (map_err AuthfsIo (metadata_len (env_api env) f)) (\<lambda>n.
     try_r (map_err AuthfsIo (LocalFileReader_new (env_api env) f)) (\<lambda>file_reader.
     try_r (map_err AuthfsIo (file_open disk merkle_tree_dump)) (\<lambda>t.
     try_r (map_err AuthfsIo (LocalFileReader_new (env_api env) t)) (\<lambda>merkle_tree_reader.
     try_r (map_err AuthfsIo (file_open disk signature)) (\<lambda>s.
     try_r (map_err AuthfsIo (read_to_end disk s)) (\<lambda>sig.
     try_r (map_err AuthfsVerity
              (VerifiedFileReader_new (env_ffi env)
                 (FakeAuthenticator_verify FakeAuthenticator_always_succeed)
                 (LocalFileReader_read_chunk p (env_api env) file_reader) n sig
                 (LocalFileReader_read_chunk p (env_api env) merkle_tree_reader))) (\<lambda>reader.
     Ok (LocalVerifiedReadonlyFile
           \<lparr>lv_file = file_reader, lv_file_size = vf_file_size reader, lv_tree = merkle_tree_reader,
            lv_root_hash = vf_root_hash reader\<rparr> n)))))))))"

definition new_config_local_ro_file_unverified ::
  "('c, 'f, 's) authfs_env \<Rightarrow> 'f local_fs \<Rightarrow> string \<Rightarrow> (authfs_error, 'f file_config) res" where
  "new_config_local_ro_file_unverified env disk path =
     try_r (map_err AuthfsIo (file_open disk path)) (\<lambda>f.
     try_r (map_err AuthfsIo (LocalFileReader_new (env_api env) f)) (\<lambda>reader.
     Ok (LocalUnverifiedReadonlyFile reader (LocalFileReader_len reader))))"

definition new_config_remote_new_verified_file :: "int \<Rightarrow> (authfs_error, 'f file_config) res" where
  "new_config_remote_new_verified_file remote_id =
     Ok (RemoteVerifiedNewFile remote_id MerkleLeaves_new)"

text \<open>The body of each \<open>for\<close> loop: \<open>file_pool.insert(ino, config?)\<close>.\<close>

definition insert_config ::
  "('o \<Rightarrow> nat) \<Rightarrow> ('o \<Rightarrow> (authfs_error, 'f file_config) res) \<Rightarrow> (nat \<rightharpoonup> 'f file_config) \<Rightarrow> 'o \<Rightarrow>
   (authfs_error, nat \<rightharpoonup> 'f file_config) res" where
  "insert_config ino new_config pool opt = try_r (new_config opt) (\<lambda>config. Ok (pool(ino opt \<mapsto> config)))"

definition prepare_file_pool ::
  "profile \<Rightarrow> ('c, 'f, 's) authfs_env \<Rightarrow> 's \<Rightarrow> 'f local_fs \<Rightarrow> authfs_args \<Rightarrow>
   (authfs_error, nat \<rightharpoonup> 'f file_config) res" where
  "prepare_file_pool p env st disk args =
     try_r (try_fold (insert_config rro_ino
              (\<lambda>o'. new_config_remote_verified_file p env st (rro_remote_id o') (rro_file_size o')))
              Map.empty (remote_ro_file args)) (\<lambda>pool.
     try_r (try_fold (insert_config rru_ino
              (\<lambda>o'. new_config_remote_unverified_file (rru_remote_id o') (rru_file_size o')))
              pool (remote_ro_file_unverified args)) (\<lambda>pool.
     try_r (try_fold (insert_config rrw_ino
              (\<lambda>o'. new_config_remote_new_verified_file (rrw_remote_id o')))
              pool (remote_new_rw_file args)) (\<lambda>pool.
     try_r (try_fold (insert_config lro_ino
              (\<lambda>o'. new_config_local_ro_file p env disk (lro_file_path o')
                 (lro_merkle_tree_dump_path o') (lro_signature_path o')))
              pool (local_ro_file args)) (\<lambda>pool.
     try_fold (insert_config lru_ino
              (\<lambda>o'. new_config_local_ro_file_unverified env disk (lru_file_path o')))
              pool (local_ro_file_unverified args)))))"

text \<open>\<open>main\<close> after the command line is parsed; the log level is left out.\<close>

datatype 'e authfs_exit = PoolError authfs_error | LoopError 'e | UnexpectedExit

definition authfs_main ::
  "profile \<Rightarrow> ('c, 'f, 's) authfs_env \<Rightarrow> 's \<Rightarrow> 'f local_fs \<Rightarrow> (string, 'e, 'f auth_fs, 'm) fuse_lib \<Rightarrow> 'm \<Rightarrow>
   authfs_args \<Rightarrow> ('e authfs_exit, unit) res \<times> 'm" where
  "authfs_main p env st disk lib m args =
     and_then (map_err PoolError (prepare_file_pool p env st disk args), m) (\<lambda>pool m.
     and_then (map_err_st LoopError (loop_forever lib m pool (mount_point args))) (\<lambda>_ m.
     (Err UnexpectedExit, m)))"

section \<open>Lemmas\<close>

text \<open>A text of decimal fields between colons splits into its fields.\<close>

lemma split_fields [simp]:
  "split_on CHR '':'' (show_nat n @ CHR '':'' # t) = show_nat n # split_on CHR '':'' t"
  "split_on CHR '':'' (show_int i @ CHR '':'' # t) = show_int i # split_on CHR '':'' t"
  "split_on CHR '':'' (show_nat n) = [show_nat n]"
  "split_on CHR '':'' (show_int i) = [show_int i]"
  by (simp_all add: split_on_append split_on_no_sep)

lemma parse_shown [simp]:
  "n < 2 ^ 64 \<Longrightarrow> parse_u64 (show_nat n) = Ok n"
  "- (2 ^ 31) \<le> i \<Longrightarrow> i < 2 ^ 31 \<Longrightarrow> parse_i32 (show_int i) = Ok i"
  using parse_uint_show_nat[of n 64] parse_int_show_int[of 32 i]
  by (simp_all add: parse_u64_def parse_i32_def)

lemma try_fold_insert_config_step:
  "try_fold (insert_config ino mk) pool (o' # opts) = Ok pool' \<longleftrightarrow>
   (\<exists>c. mk o' = Ok c \<and> try_fold (insert_config ino mk) (pool(ino o' \<mapsto> c)) opts = Ok pool')"
  by (auto simp: insert_config_def try_r_Ok_iff)

lemma try_fold_insert_config:
  assumes "try_fold (insert_config ino mk) pool opts = Ok pool'"
  shows "dom pool' = dom pool \<union> ino ` set opts \<and>
    (\<forall>i config. pool' i = Some config \<longrightarrow>
       pool i = Some config \<or> (\<exists>o' \<in> set opts. ino o' = i \<and> mk o' = Ok config))"
  using assms
proof (induction opts arbitrary: pool)
  case (Cons o' opts)
  then obtain c where c: "mk o' = Ok c"
    and fold: "try_fold (insert_config ino mk) (pool(ino o' \<mapsto> c)) opts = Ok pool'"
    unfolding try_fold_insert_config_step by blast
  from Cons.IH[OF fold] c show ?case by (auto split: if_splits)
qed simp

lemma insert_config_kept:
  "try_fold (insert_config ino mk) pool opts = Ok pool' \<Longrightarrow> (\<And>o'. mk o' \<noteq> Ok config) \<Longrightarrow>
   pool' i = Some config \<Longrightarrow> pool i = Some config"
  using try_fold_insert_config[of ino mk pool opts pool'] by blast

lemma insert_config_new:
  "try_fold (insert_config ino mk) pool opts = Ok pool' \<Longrightarrow> pool' i = Some config \<Longrightarrow>
   pool i \<noteq> Some config \<Longrightarrow> \<exists>o' \<in> set opts. ino o' = i \<and> mk o' = Ok config"
  using try_fold_insert_config[of ino mk pool opts pool'] by blast

lemma try_fold_insert_config_Ok:
  assumes "\<And>o'. mk o' = Ok (g o')"
  shows "try_fold (insert_config ino mk) pool opts = Ok (pool ++ map_of (rev (map (\<lambda>o'. (ino o', g o')) opts)))"
proof (induction opts arbitrary: pool)
  case (Cons o' opts)
  have "pool(ino o' \<mapsto> g o') ++ m = pool ++ ([ino o' \<mapsto> g o'] ++ m)" for m
    by (simp add: fun_eq_iff map_add_def split: option.splits)
  with Cons show ?case by (simp add: insert_config_def assms)
qed simp

lemma only_new_files_writable:
  "new_config_remote_verified_file p env st fd n \<noteq> Ok (RemoteVerifiedNewFile fd' tree)"
  "new_config_remote_unverified_file fd n \<noteq> Ok (RemoteVerifiedNewFile fd' tree)"
  "new_config_local_ro_file p env disk f t s \<noteq> Ok (RemoteVerifiedNewFile fd' tree)"
  "new_config_local_ro_file_unverified env disk f \<noteq> Ok (RemoteVerifiedNewFile fd' tree)"
  by (simp_all add: new_config_remote_verified_file_def new_config_remote_unverified_file_def
      new_config_local_ro_file_def new_config_local_ro_file_unverified_def try_r_Ok_iff)

lemma split_on_two_fields:
  "length (split_on c s) = 2 \<longleftrightarrow> (\<exists>a b. s = a @ c # b \<and> c \<notin> set a \<and> c \<notin> set b)"
proof
  assume two: "length (split_on c s) = 2"
  then have "c \<in> set s" by (cases "c \<in> set s") (simp_all add: split_on_no_sep)
  then obtain a b where s: "s = a @ c # b" "c \<notin> set a" by (meson split_list_first)
  have "c \<notin> set b"
  proof
    assume "c \<in> set b"
    then obtain b1 b2 where "b = b1 @ c # b2" "c \<notin> set b1" by (meson split_list_first)
    with s two show False by (simp add: split_on_append)
  qed
  with s show "\<exists>a b. s = a @ c # b \<and> c \<notin> set a \<and> c \<notin> set b" by blast
qed (auto simp: split_on_append split_on_no_sep)

section \<open>Properties\<close>

text \<open>C19: The file pool authfs mounts has an entry for exactly the inodes named on the command line, and
  only the inodes given by \<open>--remote-new-rw-file\<close> are writable: such an entry is an empty new file on
  the named remote id, whatever other options name the same inode.\<close>

theorem file_pool_as_requested:
  fixes pool :: "nat \<rightharpoonup> 'f file_config"
  assumes "prepare_file_pool p env st disk args = Ok pool"
  shows "dom pool = rro_ino ` set (remote_ro_file args) \<union> rru_ino ` set (remote_ro_file_unverified args) \<union>
      rrw_ino ` set (remote_new_rw_file args) \<union> lro_ino ` set (local_ro_file args) \<union>
      lru_ino ` set (local_ro_file_unverified args) \<and>
    (\<forall>i fd tree. pool i = Some (RemoteVerifiedNewFile fd tree) \<longrightarrow>
      tree = MerkleLeaves_new \<and> \<lparr>rrw_ino = i, rrw_remote_id = fd\<rparr> \<in> set (remote_new_rw_file args))"
proof -
  from assms obtain p1 p2 p3 p4 where pools:
    "try_fold (insert_config rro_ino
        (\<lambda>o'. new_config_remote_verified_file p env st (rro_remote_id o') (rro_file_size o')))
        Map.empty (remote_ro_file args) = Ok p1"
    "try_fold (insert_config rru_ino
        (\<lambda>o'. new_config_remote_unverified_file (rru_remote_id o') (rru_file_size o')))
        p1 (remote_ro_file_unverified args) = Ok p2"
    "try_fold (insert_config rrw_ino (\<lambda>o'. new_config_remote_new_verified_file (rrw_remote_id o')))
        p2 (remote_new_rw_file args) = Ok p3"
    "try_fold (insert_config lro_ino
        (\<lambda>o'. new_config_local_ro_file p env disk (lro_file_path o')
           (lro_merkle_tree_dump_path o') (lro_signature_path o'))) p3 (local_ro_file args) = Ok p4"
    "try_fold (insert_config lru_ino
        (\<lambda>o'. new_config_local_ro_file_unverified env disk (lru_file_path o')))
        p4 (local_ro_file_unverified args) = Ok pool"
    unfolding prepare_file_pool_def try_r_Ok_iff by blast
  note steps = pools[THEN try_fold_insert_config]
  have dom: "dom pool = rro_ino ` set (remote_ro_file args) \<union> rru_ino ` set (remote_ro_file_unverified args) \<union>
      rrw_ino ` set (remote_new_rw_file args) \<union> lro_ino ` set (local_ro_file args) \<union>
      lru_ino ` set (local_ro_file_unverified args)"
    using steps by simp
  moreover have "tree = MerkleLeaves_new \<and> \<lparr>rrw_ino = i, rrw_remote_id = fd\<rparr> \<in> set (remote_new_rw_file args)"
    if new: "pool i = Some (RemoteVerifiedNewFile fd tree)" for i fd tree
  proof -
    have "p3 i = Some (RemoteVerifiedNewFile fd tree)"
      by (rule insert_config_kept[OF pools(4) only_new_files_writable(3)],
          rule insert_config_kept[OF pools(5) only_new_files_writable(4)], rule new)
    moreover have "p2 i \<noteq> Some (RemoteVerifiedNewFile fd tree)"
      using insert_config_kept[OF pools(1) only_new_files_writable(1), of i]
        insert_config_kept[OF pools(2) only_new_files_writable(2), of i] by auto
    ultimately obtain o' where "o' \<in> set (remote_new_rw_file args)" "rrw_ino o' = i"
      "new_config_remote_new_verified_file (rrw_remote_id o') = Ok (RemoteVerifiedNewFile fd tree :: 'f file_config)"
      using insert_config_new[OF pools(3), of i] by auto
    then have "\<lparr>rrw_ino = i, rrw_remote_id = fd\<rparr> = o' \<and> tree = MerkleLeaves_new"
      by (simp add: new_config_remote_new_verified_file_def)
    with \<open>o' \<in> set (remote_new_rw_file args)\<close> show ?thesis by blast
  qed
  ultimately show ?thesis by blast
qed

definition sample_args :: authfs_args where
  "sample_args = \<lparr>mount_point = ''/mnt'', remote_ro_file = [],
     remote_ro_file_unverified = [\<lparr>rru_ino = 3, rru_remote_id = 3, rru_file_size = 100\<rparr>],
     remote_new_rw_file = [\<lparr>rrw_ino = 4, rrw_remote_id = 5\<rparr>], local_ro_file = [],
     local_ro_file_unverified = [], debug = False\<rparr>"

lemma sample_pool:
  "prepare_file_pool debug_profile sample_env sample_service undefined sample_args =
   Ok [3 \<mapsto> RemoteUnverifiedReadonlyFile 3 100, 4 \<mapsto> RemoteVerifiedNewFile 5 MerkleLeaves_new]"
  by (simp add: prepare_file_pool_def sample_args_def insert_config_def new_config_remote_unverified_file_def
      new_config_remote_new_verified_file_def)

theorem file_pool_as_requested_witness:
  "\<exists>pool. prepare_file_pool debug_profile sample_env sample_service undefined sample_args = Ok pool \<and>
    dom pool = {3, 4}"
proof (intro exI conjI)
  show "prepare_file_pool debug_profile sample_env sample_service undefined sample_args =
    Ok [3 \<mapsto> RemoteUnverifiedReadonlyFile 3 100, 4 \<mapsto> RemoteVerifiedNewFile 5 MerkleLeaves_new]"
    by (rule sample_pool)
  then have "dom ([3 \<mapsto> RemoteUnverifiedReadonlyFile 3 100, 4 \<mapsto> RemoteVerifiedNewFile 5 MerkleLeaves_new]
      :: nat \<rightharpoonup> bytes file_config) =
    rru_ino ` set (remote_ro_file_unverified sample_args) \<union> rrw_ino ` set (remote_new_rw_file sample_args)"
    by (rule file_pool_as_requested[THEN conjunct1, THEN trans]) (simp add: sample_args_def)
  then show "dom ([3 \<mapsto> RemoteUnverifiedReadonlyFile 3 100, 4 \<mapsto> RemoteVerifiedNewFile 5 MerkleLeaves_new]
      :: nat \<rightharpoonup> bytes file_config) = {3, 4}"
    by (rule trans) (simp add: sample_args_def insert_commute)
qed

text \<open>The option values name what they say: the text of an inode, a remote id, a size and a path,
  joined by colons, is parsed back to the same values by the option parsers, for all values of their
  types and paths without a colon.\<close>

lemma options_roundtrip:
  assumes "ino < 2 ^ 64" "- (2 ^ 31) \<le> remote_id" "remote_id < 2 ^ 31" "n < 2 ^ 64"
    and "CHR '':'' \<notin> set path"
  shows "parse_remote_ro_file_option
      (show_nat ino @ '':'' @ show_int remote_id @ '':'' @ show_nat n @ '':'' @ path) =
        Ok \<lparr>rro_ino = ino, rro_remote_id = remote_id, rro_file_size = n, rro_certificate_path = path\<rparr> \<and>
    parse_remote_ro_file_unverified_option
      (show_nat ino @ '':'' @ show_int remote_id @ '':'' @ show_nat n) =
        Ok \<lparr>rru_ino = ino, rru_remote_id = remote_id, rru_file_size = n\<rparr> \<and>
    parse_remote_new_rw_file_option (show_nat ino @ '':'' @ show_int remote_id) =
        Ok \<lparr>rrw_ino = ino, rrw_remote_id = remote_id\<rparr> \<and>
    parse_local_ro_file_unverified_ro_option (show_nat ino @ '':'' @ path) =
        Ok \<lparr>lru_ino = ino, lru_file_path = path\<rparr>"
proof -
  have "parse_uint 64 (show_nat ino) = Some ino" "parse_int 32 (show_int remote_id) = Some remote_id"
    using assms parse_uint_show_nat[of ino 64] parse_int_show_int[of 32 remote_id] by simp_all
  then show ?thesis
    using assms split_on_no_sep[OF assms(5)]
    by (simp add: parse_remote_ro_file_option_def parse_remote_ro_file_unverified_option_def
        parse_remote_new_rw_file_option_def parse_local_ro_file_unverified_ro_option_def)
qed

lemma options_roundtrip_witness:
  "parse_remote_ro_file_option (show_nat 5 @ '':'' @ show_int 10 @ '':'' @ show_nat 1234 @ '':'' @ ''/cert'') =
    Ok \<lparr>rro_ino = 5, rro_remote_id = 10, rro_file_size = 1234, rro_certificate_path = ''/cert''\<rparr>"
  by (rule conjunct1[OF options_roundtrip]) simp_all

text \<open>A malformed option value is an error for every option but one: the value of
  \<open>--remote-new-rw-file\<close> makes authfs panic exactly if it has two fields and one of them is not a number
  of its type.\<close>

theorem option_errors:
  "parse_remote_ro_file_option s \<noteq> Panic \<and> parse_remote_ro_file_unverified_option s \<noteq> Panic \<and>
   parse_local_file_ro_option s \<noteq> Panic \<and> parse_local_ro_file_unverified_ro_option s \<noteq> Panic \<and>
   (parse_remote_new_rw_file_option s = Panic \<longleftrightarrow>
     (\<exists>a b. s = a @ '':'' @ b \<and> CHR '':'' \<notin> set a \<and> CHR '':'' \<notin> set b \<and>
        (parse_uint 64 a = None \<or> parse_int 32 b = None)))"
proof -
  have rw: "parse_remote_new_rw_file_option s = Panic \<longleftrightarrow>
      (\<exists>a b. split_on CHR '':'' s = [a, b] \<and> (parse_uint 64 a = None \<or> parse_int 32 b = None))"
  proof (cases "length (split_on CHR '':'' s) = 2")
    case True
    then obtain a b where "split_on CHR '':'' s = [a, b]"
      by (auto simp: split_on_two_fields split_on_append split_on_no_sep)
    then show ?thesis
      by (cases "parse_uint 64 a"; cases "parse_int 32 b") (simp_all add: parse_remote_new_rw_file_option_def)
  qed (auto simp: parse_remote_new_rw_file_option_def)
  have "(\<exists>a b. split_on CHR '':'' s = [a, b] \<and> Q a b) \<longleftrightarrow>
      (\<exists>a b. s = a @ '':'' @ b \<and> CHR '':'' \<notin> set a \<and> CHR '':'' \<notin> set b \<and> Q a b)" for Q
  proof
    assume "\<exists>a b. split_on CHR '':'' s = [a, b] \<and> Q a b"
    then obtain a b where ab: "split_on CHR '':'' s = [a, b]" "Q a b" by blast
    then have "length (split_on CHR '':'' s) = 2" by simp
    then obtain a' b' where "s = a' @ CHR '':'' # b'" "CHR '':'' \<notin> set a'" "CHR '':'' \<notin> set b'"
      unfolding split_on_two_fields by blast
    with ab show "\<exists>a b. s = a @ '':'' @ b \<and> CHR '':'' \<notin> set a \<and> CHR '':'' \<notin> set b \<and> Q a b"
      by (auto simp: split_on_append split_on_no_sep)
  qed (auto simp: split_on_append split_on_no_sep)
  with rw show ?thesis
    by (simp add: parse_u64_def parse_i32_def try_r_Panic_iff parse_remote_ro_file_option_def parse_remote_ro_file_unverified_option_def
        parse_local_file_ro_option_def parse_local_ro_file_unverified_ro_option_def Let_def)
qed

text \<open>The signature of a remote file is not checked against the certificate of the option, nor
  against anything else: if the service serves any content with a Merkle tree built for it, then
  authfs accepts it as a verified file under every signature, and reads return that content.\<close>

theorem any_signature_accepted:
  assumes "sha256_spec (env_ffi env) sha" "0 < length c" "length c \<le> 2 ^ 61"
    and "svc_readFsveritySignature (env_service env) st fd = Ok sig"
    and "reads_blocks (RemoteFileReader_read_chunk p (env_service env) st fd) c"
    and "reads_blocks (RemoteMerkleTreeReader_read_chunk p (env_service env) st fd) (tree_file sha c)"
    and "collects wr out" "off < 2 ^ 64"
  shows "\<exists>config w'. new_config_remote_verified_file p env st fd (length c) = Ok config \<and>
    fs_read p env st (AuthFs_new [inode \<mapsto> config] max_wr) inode wr w n off =
      Ok (length (take n (drop off c)), w') \<and> out w' = out w @ take n (drop off c)"
proof -
  let ?r = "\<lparr>rv_file_fd = fd, rv_file_size = length c, rv_tree_fd = fd, rv_root_hash = root_of sha c\<rparr>"
  let ?config = "RemoteVerifiedReadonlyFile ?r (length c)"
  have new: "new_config_remote_verified_file p env st fd (length c) = Ok ?config"
    using verified_new_eq[OF assms(1,6,2,3)] assms(4)
    by (simp add: new_config_remote_verified_file_def FakeAuthenticator_verify_def
        FakeAuthenticator_always_succeed_def)
  have "reads_blocks (VerifiedFileReader_read_chunk p (env_ffi env) (remote_verified p env st ?r)) c"
    using verified_reader_reads[OF assms(1,5,6,3)] by (simp add: remote_verified_def)
  moreover have "length c < 2 ^ 63" using assms(3) by simp
  ultimately have "\<exists>w'. read_chunks p wr w
      (VerifiedFileReader_read_chunk p (env_ffi env) (remote_verified p env st ?r)) (length c) off n =
      Ok (length (take n (drop off c)), w') \<and> out w' = out w @ take n (drop off c)"
    using read_chunks_complete[OF assms(7) _ _ assms(8)] by blast
  with new show ?thesis
    by (simp add: fs_read_def AuthFs_get_file_config_def AuthFs_new_def config_reader_def)
qed

definition sample_signed_env :: "(bytes, bytes, bytes fd_service) authfs_env" where
  "sample_signed_env = sample_env\<lparr>env_service :=
     (env_service sample_env)\<lparr>svc_readFsveritySignature := \<lambda>st fd. Ok [9]\<rparr>\<rparr>"

theorem any_signature_accepted_witness:
  "\<exists>config w'. new_config_remote_verified_file debug_profile sample_signed_env sample_service 3 4096 = Ok config \<and>
    fs_read debug_profile sample_signed_env sample_service (AuthFs_new [5 \<mapsto> config] 65536) 5 append_writer [] 20 30 =
      Ok (20, w') \<and> w' = take 20 (drop 30 sample_block)"
proof -
  note reads = sample_remote_reads[THEN read_by_chunk_within]
  have same: "RemoteFileReader_read_chunk debug_profile (env_service sample_signed_env) sample_service 3 = sample_rd"
    "RemoteMerkleTreeReader_read_chunk debug_profile (env_service sample_signed_env) sample_service 3 = sample_trd"
    by (simp_all add: sample_signed_env_def RemoteFileReader_read_chunk_def[abs_def]
        RemoteMerkleTreeReader_read_chunk_def[abs_def] remote_read_chunk_def[abs_def])
  have env: "sha256_spec (env_ffi sample_signed_env) sample_sha"
    "svc_readFsveritySignature (env_service sample_signed_env) sample_service 3 = Ok [9]"
    by (simp_all add: sample_signed_env_def sample_env_def sample_sha256_spec)
  have "\<exists>config w'. new_config_remote_verified_file debug_profile sample_signed_env sample_service 3
      (length sample_block) = Ok config \<and>
    fs_read debug_profile sample_signed_env sample_service (AuthFs_new [5 \<mapsto> config] 65536) 5 append_writer [] 20 30 =
      Ok (length (take 20 (drop 30 sample_block)), w') \<and> w' = [] @ take 20 (drop 30 sample_block)"
    by (rule any_signature_accepted[OF env(1) _ _ env(2)])
      (simp_all add: same sample_tree_file reads collects_append sample_block_simps)
  then show ?thesis by (simp add: sample_block_simps)
qed

end
