(* ===== verification/Compos.thy ===== *)
theory Compos
  imports Authfs_Main
begin

text \<open>
  \<open>compos/src\<close>: running a task of the host inside a VM. \<open>pvm_exec\<close> (host) serves its file descriptors with
  an \<open>fd_server\<close> and asks \<open>compsvc\<close> (guest) to run a command; \<open>compsvc\<close> starts \<open>compsvc_worker\<close>, which mounts
  authfs over the served files and starts the task with them. Each program is a sequence of calls to
  the operating system and to Minijail, which are the fields of \<open>vm_os\<close> over an abstract state. The
  result of a command line parser (\<open>clap\<close>) is the argument of the \<open>parse_args\<close> functions; what the
  programs rely on between them, that \<open>clap\<close> gives back the values a caller has put behind the option
  names, is stated where it is used. The value of a \<open>main\<close> is the exit code of the process; a returned
  error is \<open>Err\<close>. Log messages are not modelled; the services are registered and found in theory \<open>Services\<close>.
\<close>

datatype jail_error = ReturnCode nat | Killed nat | OtherJail

record ('j, 'f, 's) vm_os =
  jail_new :: "'s \<Rightarrow> (jail_error, 'j) res \<times> 's"
  namespace_vfs :: "'j \<Rightarrow> 's \<Rightarrow> 's"
  jail_run :: "'j \<Rightarrow> string \<Rightarrow> int list \<Rightarrow> string list \<Rightarrow> 's \<Rightarrow> (jail_error, int) res \<times> 's"
  jail_run_remap :: "'j \<Rightarrow> string \<Rightarrow> (int \<times> int) list \<Rightarrow> string list \<Rightarrow> 's \<Rightarrow> (jail_error, int) res \<times> 's"
  jail_wait :: "'j \<Rightarrow> 's \<Rightarrow> (jail_error, unit) res \<times> 's"
  jail_kill :: "'j \<Rightarrow> 's \<Rightarrow> (jail_error, unit) res \<times> 's"
  statfs_type :: "string \<Rightarrow> 's \<Rightarrow> (nix_error, nat) res \<times> 's"
  clock_ns :: "'s \<Rightarrow> nat"
  sleep_ns :: "nat \<Rightarrow> 's \<Rightarrow> 's"
  open_file :: "string \<Rightarrow> bool \<Rightarrow> 's \<Rightarrow> (io_error, 'f) res \<times> 's"
  as_raw_fd :: "'f \<Rightarrow> int"

datatype compos_error =
    JailError jail_error
  | NixError nix_error
  | ComposIo io_error
  | BinderFailed status
  | InvalidArgument string
  | NotANumber
  | PvmBadFd int
  | MountTimeout

section \<open>\<open>InputFdAnnotation\<close>, \<open>OutputFdAnnotation\<close>, \<open>Metadata\<close>\<close>

record InputFdAnnotation =
  input_fd :: int
  input_file_size :: int

record OutputFdAnnotation =
  output_fd :: int

record metadata =
  input_fd_annotations :: "InputFdAnnotation list"
  output_fd_annotations :: "OutputFdAnnotation list"

section \<open>\<open>compsvc\<close>\<close>

definition WORKER_BIN :: string where
  "WORKER_BIN = ''/system/bin/compsvc_worker''"

definition AUTHFS_MOUNTPOINT :: string where
  "AUTHFS_MOUNTPOINT = ''/data/local/tmp/authfs_mnt''"

record CompService =
  worker_bin :: string
  task_bin :: string
  svc_debuggable :: bool

text \<open>\<open>vec![1, 2]\<close> in a debuggable process: stdout and stderr are inherited.\<close>

definition debug_fds :: "bool \<Rightarrow> int list" where
  "debug_fds debuggable = (if debuggable then [1, 2] else [])"

definition run_worker_in_jail_and_wait ::
  "('j, 'f, 's) vm_os \<Rightarrow> CompService \<Rightarrow> string list \<Rightarrow> 's \<Rightarrow> (jail_error, unit) res \<times> 's" where
  "run_worker_in_jail_and_wait os self args s =
     and_then (jail_new os s) (\<lambda>jail s.
     let s = namespace_vfs os jail s in
     and_then (jail_run os jail (worker_bin self) (debug_fds (svc_debuggable self)) args s) (\<lambda>_ s.
     jail_wait os jail s))"

text \<open>\<open>args.push(name); args.push(value)\<close> for each value.\<close>

definition option_args :: "string \<Rightarrow> string list \<Rightarrow> string list" where
  "option_args name vals = concat (map (\<lambda>v. [name, v]) vals)"

definition build_worker_args ::
  "CompService \<Rightarrow> string list \<Rightarrow> metadata \<Rightarrow> ('e, string list) res" where
  "build_worker_args self args meta =
     try_r (slice args 1 (length args)) (\<lambda>rest.
     Ok ([WORKER_BIN, ''--authfs-root'', AUTHFS_MOUNTPOINT] @
         option_args ''--in-fd''
           (map (\<lambda>a. show_int (input_fd a) @ '':'' @ show_int (input_file_size a)) (input_fd_annotations meta)) @
         option_args ''--out-fd'' (map (\<lambda>a. show_int (output_fd a)) (output_fd_annotations meta)) @
         (if svc_debuggable self then [''--debug''] else []) @
         [''--'', task_bin self] @ rest))"

definition execute ::
  "('j, 'f, 's) vm_os \<Rightarrow> CompService \<Rightarrow> string list \<Rightarrow> metadata \<Rightarrow> 's \<Rightarrow> (status, int) res \<times> 's" where
  "execute os self args meta s =
     and_then (build_worker_args self args meta, s) (\<lambda>worker_args s.
     case run_worker_in_jail_and_wait os self worker_args s of
       (Ok _, s) \<Rightarrow> (Ok 0, s)
     | (Err (ReturnCode exit_code), s) \<Rightarrow> (Err (FromStatusCode FAILED_TRANSACTION), s)
     | (Err e, s) \<Rightarrow> (Err (FromStatusCode UNKNOWN_ERROR), s)
     | (Panic, s) \<Rightarrow> (Panic, s)
     | (Hang, s) \<Rightarrow> (Hang, s))"

text \<open>The value of the required argument and the flag, as \<open>clap\<close> found them.\<close>

definition compsvc_parse_args :: "string option \<Rightarrow> bool \<Rightarrow> (compos_error, CompService) res" where
  "compsvc_parse_args task_bin_value debug_present =
     try_r (unwrap task_bin_value) (\<lambda>t.
     Ok \<lparr>worker_bin = WORKER_BIN, task_bin = t, svc_debuggable = debug_present\<rparr>)"

section \<open>\<open>compsvc_worker\<close>\<close>

definition AUTHFS_BIN :: string where
  "AUTHFS_BIN = ''/apex/com.android.virt/bin/authfs''"

text \<open>A \<open>Duration\<close> is a number of nanoseconds: 50 milliseconds and 10 seconds.\<close>

definition AUTHFS_SETUP_POLL_INTERVAL_MS :: nat where
  "AUTHFS_SETUP_POLL_INTERVAL_MS = 50 * 10 ^ 6"

definition AUTHFS_SETUP_TIMEOUT_SEC :: nat where
  "AUTHFS_SETUP_TIMEOUT_SEC = 10 * 10 ^ 9"

definition FUSE_SUPER_MAGIC :: nat where
  "FUSE_SUPER_MAGIC = 0x65735546"

record InFdAnnotation =
  in_fd :: int
  in_file_size :: nat

record OutFdAnnotation =
  out_fd :: int

record worker_config =
  authfs_root :: string
  in_fds :: "InFdAnnotation list"
  out_fds :: "OutFdAnnotation list"
  task_args :: "string list"
  debuggable :: bool

definition is_fuse :: "('j, 'f, 's) vm_os \<Rightarrow> string \<Rightarrow> 's \<Rightarrow> (compos_error, bool) res \<times> 's" where
  "is_fuse os path s =
     and_then (apfst (map_err NixError) (statfs_type os path s)) (\<lambda>t s. (Ok (t = FUSE_SUPER_MAGIC), s))"

definition authfs_args_of :: "worker_config \<Rightarrow> string list" where
  "authfs_args_of config =
     [AUTHFS_BIN, authfs_root config] @
     option_args ''--remote-ro-file-unverified''
       (map (\<lambda>conf. show_int (in_fd conf) @ '':'' @ show_int (in_fd conf) @ '':'' @ show_nat (in_file_size conf))
          (in_fds config)) @
     option_args ''--remote-new-rw-file''
       (map (\<lambda>conf. show_int (out_fd conf) @ '':'' @ show_int (out_fd conf)) (out_fds config))"

definition spawn_authfs ::
  "('j, 'f, 's) vm_os \<Rightarrow> worker_config \<Rightarrow> 's \<Rightarrow> (compos_error, 'j) res \<times> 's" where
  "spawn_authfs os config s =
     and_then (apfst (map_err JailError) (jail_new os s)) (\<lambda>jail s.
     and_then (apfst (map_err JailError)
                (jail_run os jail AUTHFS_BIN (debug_fds (debuggable config)) (authfs_args_of config) s))
       (\<lambda>_ s. (Ok jail, s)))"

text \<open>The polling loop. It may not end if the clock stands still.\<close>

partial_function (option) wait_loop ::
  "('j, 'f, 's) vm_os \<Rightarrow> string \<Rightarrow> nat \<Rightarrow> 's \<Rightarrow> ((compos_error, unit) res \<times> 's) option" where
  "wait_loop os root start s =
     (case is_fuse os root s of (r, s') \<Rightarrow>
        case r of
          Ok fuse \<Rightarrow>
            if fuse then Some (Ok (), s')
            else if clock_ns os s' - start > AUTHFS_SETUP_TIMEOUT_SEC then Some (Err MountTimeout, s')
            else wait_loop os root start (sleep_ns os AUTHFS_SETUP_POLL_INTERVAL_MS s')
        | Err e \<Rightarrow> Some (Err e, s')
        | Panic \<Rightarrow> Some (Panic, s')
        | Hang \<Rightarrow> Some (Hang, s'))"

definition wait_until_authfs_ready ::
  "('j, 'f, 's) vm_os \<Rightarrow> string \<Rightarrow> 's \<Rightarrow> (compos_error, unit) res \<times> 's" where
  "wait_until_authfs_ready os root s =
     (case wait_loop os root (clock_ns os s) s of None \<Rightarrow> (Hang, s) | Some r \<Rightarrow> r)"

definition open_authfs_file ::
  "('j, 'f, 's) vm_os \<Rightarrow> string \<Rightarrow> int \<Rightarrow> bool \<Rightarrow> 's \<Rightarrow> (io_error, 'f) res \<times> 's" where
  "open_authfs_file os root basename writable s = open_file os (root @ ''/'' @ show_int basename) writable s"

definition open_authfs_files_for_mapping ::
  "('j, 'f, 's) vm_os \<Rightarrow> worker_config \<Rightarrow> 's \<Rightarrow> (io_error, ('f \<times> int) list) res \<times> 's" where
  "open_authfs_files_for_mapping os config s =
     and_then (try_map_st (\<lambda>conf s.
         and_then (open_authfs_file os (authfs_root config) (in_fd conf) False s) (\<lambda>f s. (Ok (f, in_fd conf), s)))
         (in_fds config) s) (\<lambda>ins s.
     and_then (try_map_st (\<lambda>conf s.
         and_then (open_authfs_file os (authfs_root config) (out_fd conf) True s) (\<lambda>f s. (Ok (f, out_fd conf), s)))
         (out_fds config) s) (\<lambda>outs s.
     (Ok (ins @ outs), s)))"

definition spawn_jailed_task ::
  "('j, 'f, 's) vm_os \<Rightarrow> worker_config \<Rightarrow> ('f \<times> int) list \<Rightarrow> 's \<Rightarrow> (compos_error, 'j) res \<times> 's" where
  "spawn_jailed_task os config fd_mapping s =
     and_then (apfst (map_err JailError) (jail_new os s)) (\<lambda>jail s.
     let preserve_fds = map (\<lambda>(f, id'). (as_raw_fd os f, id')) fd_mapping @
           (if debuggable config then [(1, 1), (2, 2)] else []) in
     case task_args config of
       [] \<Rightarrow> (Panic, s)
     | bin # _ \<Rightarrow>
         and_then (apfst (map_err JailError)
                    (jail_run_remap os jail bin preserve_fds (task_args config) s)) (\<lambda>_ s. (Ok jail, s)))"

text \<open>What \<open>clap\<close> found: the value of \<open>--authfs-root\<close>, the values of \<open>--in-fd\<close> and \<open>--out-fd\<close>, the flag
  \<open>--debug\<close> and the arguments after \<open>--\<close>.\<close>

record worker_matches =
  wm_authfs_root :: "string option"
  wm_in_fd :: "string list"
  wm_out_fd :: "string list"
  wm_debug :: bool
  wm_args :: "string list option"

definition str_find :: "char \<Rightarrow> string \<Rightarrow> nat option" where
  "str_find c s = (if c \<in> set s then Some (length (takeWhile (\<lambda>x. x \<noteq> c) s)) else None)"

definition parse_in_fd :: "string \<Rightarrow> (compos_error, InFdAnnotation) res" where
  "parse_in_fd arg =
     (case str_find CHR '':'' arg of
        None \<Rightarrow> Err (InvalidArgument arg)
      | Some index \<Rightarrow>
          try_r (ok_or NotANumber (parse_int 32 (take index arg))) (\<lambda>fd.
          try_r (ok_or NotANumber (parse_uint 64 (drop 1 (drop index arg)))) (\<lambda>n.
          Ok \<lparr>in_fd = fd, in_file_size = n\<rparr>)))"

definition parse_out_fd :: "string \<Rightarrow> (compos_error, OutFdAnnotation) res" where
  "parse_out_fd arg = try_r (ok_or NotANumber (parse_int 32 arg)) (\<lambda>fd. Ok \<lparr>out_fd = fd\<rparr>)"

definition worker_parse_args :: "worker_matches \<Rightarrow> (compos_error, worker_config) res" where
  "worker_parse_args m =
     try_r (unwrap (wm_authfs_root m)) (\<lambda>root.
     try_r (try_map parse_in_fd (wm_in_fd m)) (\<lambda>ins.
     try_r (try_map parse_out_fd (wm_out_fd m)) (\<lambda>outs.
     try_r (unwrap (wm_args m)) (\<lambda>args.
     Ok \<lparr>authfs_root = root, in_fds = ins, out_fds = outs, task_args = args, debuggable = wm_debug m\<rparr>))))"

text \<open>\<open>let jail_result = jail.wait()\<close>: the result is kept as a value, not propagated.\<close>

fun wait_result :: "(jail_error, unit) res \<times> 's \<Rightarrow> (compos_error, jail_error + unit) res \<times> 's" where
  "wait_result (Ok u, s) = (Ok (Inr u), s)"
| "wait_result (Err e, s) = (Ok (Inl e), s)"
| "wait_result (Panic, s) = (Panic, s)"
| "wait_result (Hang, s) = (Hang, s)"

text \<open>\<open>main\<close>, after the command line has been parsed by \<open>clap\<close>. The kill of authfs is the clean-up of a
  scope guard; a failure of it is only logged.\<close>

definition worker_main ::
  "('j, 'f, 's) vm_os \<Rightarrow> worker_matches \<Rightarrow> 's \<Rightarrow> (compos_error, int) res \<times> 's" where
  "worker_main os m s =
     and_then (worker_parse_args m, s) (\<lambda>config s.
     and_then (spawn_authfs os config s) (\<lambda>authfs_jail s.
     and_then
       (guarded (jail_kill os authfs_jail)
         (and_then (wait_until_authfs_ready os (authfs_root config) s) (\<lambda>_ s.
          and_then (apfst (map_err ComposIo) (open_authfs_files_for_mapping os config s)) (\<lambda>fd_mapping s.
          and_then (spawn_jailed_task os config fd_mapping s) (\<lambda>jail s.
          wait_result (jail_wait os jail s)))))) (\<lambda>jail_result s.
     case jail_result of
       Inr _ \<Rightarrow> (Ok 0, s)
     | Inl (ReturnCode exit_code) \<Rightarrow> (Ok (int exit_code), s)
     | Inl e \<Rightarrow> (Err (JailError e), s))))"

section \<open>\<open>pvm_exec\<close>\<close>

definition FD_SERVER_BIN :: string where
  "FD_SERVER_BIN = ''/apex/com.android.virt/bin/fd_server''"

record pvm_env =
  fcntl_fd :: "int \<Rightarrow> (nix_error, int) res"
  fstat_size :: "int \<Rightarrow> (nix_error, int) res"

definition fd_server_args_of :: "metadata \<Rightarrow> string list" where
  "fd_server_args_of meta =
     [FD_SERVER_BIN] @
     option_args ''--ro-fds'' (map (\<lambda>a. show_int (input_fd a)) (input_fd_annotations meta)) @
     option_args ''--rw-fds'' (map (\<lambda>a. show_int (output_fd a)) (output_fd_annotations meta))"

definition fd_server_fds :: "metadata \<Rightarrow> bool \<Rightarrow> int list" where
  "fd_server_fds meta dbg =
     debug_fds dbg @ map input_fd (input_fd_annotations meta) @ map output_fd (output_fd_annotations meta)"

definition spawn_fd_server ::
  "('j, 'f, 's) vm_os \<Rightarrow> metadata \<Rightarrow> bool \<Rightarrow> 's \<Rightarrow> (compos_error, 'j) res \<times> 's" where
  "spawn_fd_server os meta dbg s =
     and_then (apfst (map_err JailError) (jail_new os s)) (\<lambda>jail s.
     and_then (apfst (map_err JailError)
                (jail_run os jail FD_SERVER_BIN (fd_server_fds meta dbg) (fd_server_args_of meta) s))
       (\<lambda>_ s. (Ok jail, s)))"

definition pvm_is_fd_valid :: "pvm_env \<Rightarrow> int \<Rightarrow> (compos_error, bool) res" where
  "pvm_is_fd_valid env fd = try_r (map_err NixError (fcntl_fd env fd)) (\<lambda>retval. Ok (retval \<ge> 0))"

definition parse_arg_fd :: "pvm_env \<Rightarrow> string \<Rightarrow> (compos_error, int) res" where
  "parse_arg_fd env arg =
     try_r (ok_or NotANumber (parse_int 32 arg)) (\<lambda>fd.
     try_r (pvm_is_fd_valid env fd) (\<lambda>valid.
     if \<not> valid then Err (PvmBadFd fd) else Ok fd))"

record pvm_config =
  pvm_args :: "string list"
  pvm_metadata :: metadata
  pvm_debuggable :: bool

definition pvm_parse_args ::
  "pvm_env \<Rightarrow> string list \<Rightarrow> string list \<Rightarrow> string list option \<Rightarrow> bool \<Rightarrow> (compos_error, pvm_config) res" where
  "pvm_parse_args env in_fd_values out_fd_values args_values debug_present =
     try_r (try_map (\<lambda>arg.
         try_r (parse_arg_fd env arg) (\<lambda>fd.
         try_r (map_err NixError (fstat_size env fd)) (\<lambda>n.
         Ok \<lparr>input_fd = fd, input_file_size = n\<rparr>))) in_fd_values) (\<lambda>ins.
     try_r (try_map (\<lambda>arg. try_r (parse_arg_fd env arg) (\<lambda>fd. Ok \<lparr>output_fd = fd\<rparr>)) out_fd_values) (\<lambda>outs.
     try_r (unwrap args_values) (\<lambda>args.
     Ok \<lparr>pvm_args = args,
         pvm_metadata = \<lparr>input_fd_annotations = ins, output_fd_annotations = outs\<rparr>,
         pvm_debuggable = debug_present\<rparr>)))"

text \<open>\<open>main\<close>, after the command line; \<open>service\<close> is the \<open>execute\<close> of the remote \<open>compsvc\<close>.\<close>

definition pvm_main ::
  "('j, 'f, 's) vm_os \<Rightarrow> (string list \<Rightarrow> metadata \<Rightarrow> 's \<Rightarrow> (status, int) res \<times> 's) \<Rightarrow>
   (compos_error, pvm_config) res \<Rightarrow> 's \<Rightarrow> (compos_error, int) res \<times> 's" where
  "pvm_main os service parsed s =
     and_then (parsed, s) (\<lambda>config s.
     and_then (spawn_fd_server os (pvm_metadata config) (pvm_debuggable config) s) (\<lambda>fd_server_jail s.
     and_then
       (guarded (jail_kill os fd_server_jail)
         (apfst (map_err BinderFailed) (service (pvm_args config) (pvm_metadata config) s))) (\<lambda>exit_code s.
     if exit_code > 0 then (Ok exit_code, s) else (Ok 0, s))))"

end
