(* ===== verification/Compos_Correct.thy ===== *)
theory Compos_Correct
  imports Compos
begin

text \<open>
  Properties of the compos programs (theory \<open>Compos\<close>): what one program writes on the command line of
  the next is what the next one reads (\<open>clap_values\<close> collects what is relied on of the command line
  parsers), the polling loop ends, and the helper processes do not outlive the program that started
  them.
\<close>

section \<open>Command line parsers\<close>

text \<open>A value that \<open>clap\<close> does not take for an option.\<close>

definition plain_value :: "string \<Rightarrow> bool" where
  "plain_value v \<longleftrightarrow> v \<noteq> [] \<and> hd v \<noteq> CHR ''-''"

text \<open>The documented behaviour of \<open>clap\<close> for the options the programs declare: the values behind an
  option name are found in the order of the command line, a flag is found if it is there, and the
  last positional argument takes what follows \<open>--\<close>. One predicate for each of the three parsers.\<close>

definition worker_clap :: "(string list \<Rightarrow> worker_matches) \<Rightarrow> bool" where
  "worker_clap get_matches \<longleftrightarrow>
     (\<forall>bin root ins outs dbg args.
        list_all plain_value (root # ins @ outs) \<and> args \<noteq> [] \<longrightarrow>
        get_matches ([bin, ''--authfs-root'', root] @ option_args ''--in-fd'' ins @
          option_args ''--out-fd'' outs @ (if dbg then [''--debug''] else []) @ [''--''] @ args) =
        \<lparr>wm_authfs_root = Some root, wm_in_fd = ins, wm_out_fd = outs, wm_debug = dbg, wm_args = Some args\<rparr>)"

definition authfs_structopt :: "(string list \<Rightarrow> authfs_matches) \<Rightarrow> bool" where
  "authfs_structopt get_matches \<longleftrightarrow>
     (\<forall>bin root ins outs.
        list_all plain_value (root # ins @ outs) \<longrightarrow>
        get_matches ([bin, root] @ option_args ''--remote-ro-file-unverified'' ins @
          option_args ''--remote-new-rw-file'' outs) =
        \<lparr>m_mount_point = root, m_remote_ro_file = [], m_remote_ro_file_unverified = ins,
         m_remote_new_rw_file = outs, m_local_ro_file = [], m_local_ro_file_unverified = [],
         m_debug = False\<rparr>)"

definition fd_server_clap :: "(string list \<Rightarrow> string list \<times> string list) \<Rightarrow> bool" where
  "fd_server_clap get_matches \<longleftrightarrow>
     (\<forall>bin ros rws.
        list_all plain_value (ros @ rws) \<longrightarrow>
        get_matches ([bin] @ option_args ''--ro-fds'' ros @ option_args ''--rw-fds'' rws) = (ros, rws))"

text \<open>A parser that has this behaviour.\<close>

fun find_values :: "string \<Rightarrow> string list \<Rightarrow> string list" where
  "find_values name (a # v # args) =
     (if a = ''--'' then [] else if a = name then v # find_values name args else find_values name (v # args))"
| "find_values name _ = []"

definition after_dashes :: "string list \<Rightarrow> string list" where
  "after_dashes args = drop 1 (dropWhile (\<lambda>a. a \<noteq> ''--'') args)"

lemma find_values_option_args:
  assumes "list_all plain_value vals" "name \<noteq> ''--''" "hd name = CHR ''-''"
    and "other \<noteq> ''--''" "hd other = CHR ''-''"
  shows "find_values name (option_args other vals @ rest) =
    (if other = name then vals @ find_values name rest else find_values name rest)"
  using assms(1)
proof (induction vals)
  case (Cons v vals)
  then have v: "v \<noteq> ''--''" "v \<noteq> name" using assms(3) by (auto simp: plain_value_def)
  show ?case
  proof (cases "option_args other vals @ rest")
    case Nil
    with Cons v assms show ?thesis by (auto simp: option_args_def)
  next
    case (Cons x xs)
    with v Cons.IH[folded Cons] assms Cons.prems show ?thesis
      by (auto simp: option_args_def)
  qed
qed (simp add: option_args_def)

lemma set_option_args: "set (option_args name vals) = (if vals = [] then {} else insert name (set vals))"
  by (induction vals) (auto simp: option_args_def)

lemma option_args_no_dashes:
  assumes "list_all plain_value vals" "name \<noteq> ''--''"
  shows "takeWhile (\<lambda>a. a \<noteq> ''--'') (option_args name vals @ rest) =
      option_args name vals @ takeWhile (\<lambda>a. a \<noteq> ''--'') rest"
    and "dropWhile (\<lambda>a. a \<noteq> ''--'') (option_args name vals @ rest) = dropWhile (\<lambda>a. a \<noteq> ''--'') rest"
proof -
  have "a \<noteq> ''--''" if "a \<in> set (option_args name vals)" for a
    using that assms by (auto simp: set_option_args list_all_iff plain_value_def split: if_splits)
  then show "takeWhile (\<lambda>a. a \<noteq> ''--'') (option_args name vals @ rest) =
      option_args name vals @ takeWhile (\<lambda>a. a \<noteq> ''--'') rest"
    and "dropWhile (\<lambda>a. a \<noteq> ''--'') (option_args name vals @ rest) = dropWhile (\<lambda>a. a \<noteq> ''--'') rest"
    by (simp_all add: takeWhile_append2 dropWhile_append2)
qed

definition sample_worker_matches :: "string list \<Rightarrow> worker_matches" where
  "sample_worker_matches argv =
     \<lparr>wm_authfs_root = (case find_values ''--authfs-root'' (tl argv) of [] \<Rightarrow> None | v # _ \<Rightarrow> Some v),
      wm_in_fd = find_values ''--in-fd'' (tl argv), wm_out_fd = find_values ''--out-fd'' (tl argv),
      wm_debug = (''--debug'' \<in> set (takeWhile (\<lambda>a. a \<noteq> ''--'') (tl argv))),
      wm_args = Some (after_dashes (tl argv))\<rparr>"

definition sample_authfs_matches :: "string list \<Rightarrow> authfs_matches" where
  "sample_authfs_matches argv =
     \<lparr>m_mount_point = argv ! 1, m_remote_ro_file = [],
      m_remote_ro_file_unverified = find_values ''--remote-ro-file-unverified'' (drop 2 argv),
      m_remote_new_rw_file = find_values ''--remote-new-rw-file'' (drop 2 argv),
      m_local_ro_file = [], m_local_ro_file_unverified = [], m_debug = False\<rparr>"

definition sample_fd_server_matches :: "string list \<Rightarrow> string list \<times> string list" where
  "sample_fd_server_matches argv =
     (find_values ''--ro-fds'' (tl argv), find_values ''--rw-fds'' (tl argv))"

lemma find_values_tail:
  "name \<noteq> ''--debug'' \<Longrightarrow> name \<noteq> ''--'' \<Longrightarrow>
   find_values name ((if dbg then [''--debug''] else []) @ [''--''] @ args) = []"
  by (cases args; cases dbg) auto

lemma worker_clap_sample: "worker_clap sample_worker_matches"
  unfolding worker_clap_def
proof (intro allI impI)
  fix bin root :: string and ins outs args :: "string list" and dbg
  assume *: "list_all plain_value (root # ins @ outs) \<and> args \<noteq> []"
  then have plain: "list_all plain_value [root]" "list_all plain_value ins" "list_all plain_value outs" by auto
  then have nd: "''--debug'' \<notin> set ins" "''--debug'' \<notin> set outs" "''--debug'' \<noteq> root"
    by (auto simp: list_all_iff plain_value_def)
  let ?tail = "(if dbg then [''--debug''] else []) @ [''--''] @ args"
  have argv: "[bin, ''--authfs-root'', root] @ option_args ''--in-fd'' ins @ option_args ''--out-fd'' outs @ ?tail =
      bin # option_args ''--authfs-root'' [root] @ option_args ''--in-fd'' ins @ option_args ''--out-fd'' outs @ ?tail"
    by (simp add: option_args_def)
  show "sample_worker_matches ([bin, ''--authfs-root'', root] @ option_args ''--in-fd'' ins @
      option_args ''--out-fd'' outs @ ?tail) =
    \<lparr>wm_authfs_root = Some root, wm_in_fd = ins, wm_out_fd = outs, wm_debug = dbg, wm_args = Some args\<rparr>"
    unfolding argv sample_worker_matches_def list.sel
    by (simp add: find_values_option_args plain[simplified] find_values_tail[simplified] option_args_no_dashes
        after_dashes_def set_option_args nd)
qed

lemma authfs_structopt_sample: "authfs_structopt sample_authfs_matches"
  unfolding authfs_structopt_def sample_authfs_matches_def
  using find_values_option_args[where rest = "[]"] by (auto simp: find_values_option_args)

lemma fd_server_clap_sample: "fd_server_clap sample_fd_server_matches"
  unfolding fd_server_clap_def sample_fd_server_matches_def
  using find_values_option_args[where rest = "[]"] by (auto simp: find_values_option_args)

section \<open>Numbers on the command line\<close>

definition fd_ok :: "int \<Rightarrow> bool" where
  "fd_ok fd \<longleftrightarrow> 0 \<le> fd \<and> fd < 2 ^ 31"

lemma show_int_nonneg: "0 \<le> i \<Longrightarrow> show_int i = show_nat (nat i)"
  by (simp add: show_int_def)

lemma plain_show_nat: "plain_value (show_nat n @ t)"
  using hd_show_nat[of n] by (auto simp: plain_value_def)

lemma plain_show_int: "0 \<le> i \<Longrightarrow> plain_value (show_int i @ t)"
  using plain_show_nat by (simp add: show_int_nonneg)

lemmas plain_numbers = plain_show_int plain_show_int[where t = "[]", simplified]

lemma parse_shown_nonneg:
  "0 \<le> i \<Longrightarrow> i < 2 ^ 31 \<Longrightarrow> parse_int 32 (show_int i) = Some i"
  "0 \<le> i \<Longrightarrow> i < 2 ^ 64 \<Longrightarrow> parse_uint 64 (show_int i) = Some (nat i)"
  using parse_int_show_int[of 32 i] parse_uint_show_nat[of "nat i" 64]
  by (simp_all add: show_int_nonneg nat_less_iff)

lemma str_find_field: "CHR '':'' \<notin> set a \<Longrightarrow> str_find CHR '':'' (a @ CHR '':'' # b) = Some (length a)"
  by (simp add: str_find_def takeWhile_append)

lemma parse_in_fd_shown:
  "fd_ok fd \<Longrightarrow> 0 \<le> n \<Longrightarrow> n < 2 ^ 64 \<Longrightarrow>
   parse_in_fd (show_int fd @ '':'' @ show_int n) = Ok \<lparr>in_fd = fd, in_file_size = nat n\<rparr>"
  by (simp add: parse_in_fd_def str_find_field fd_ok_def parse_shown_nonneg)

lemma parse_out_fd_shown: "fd_ok fd \<Longrightarrow> parse_out_fd (show_int fd) = Ok \<lparr>out_fd = fd\<rparr>"
  by (simp add: parse_out_fd_def fd_ok_def parse_shown_nonneg)

text \<open>File descriptors are natural \<open>i32\<close> values and sizes are not negative.\<close>

definition metadata_ok :: "metadata \<Rightarrow> bool" where
  "metadata_ok meta \<longleftrightarrow>
     (\<forall>a \<in> set (input_fd_annotations meta). fd_ok (input_fd a) \<and> 0 \<le> input_file_size a \<and> input_file_size a < 2 ^ 63) \<and>
     (\<forall>a \<in> set (output_fd_annotations meta). fd_ok (output_fd a))"

definition worker_config_of :: "CompService \<Rightarrow> string list \<Rightarrow> metadata \<Rightarrow> worker_config" where
  "worker_config_of self args meta =
     \<lparr>authfs_root = AUTHFS_MOUNTPOINT,
      in_fds = map (\<lambda>a. \<lparr>in_fd = input_fd a, in_file_size = nat (input_file_size a)\<rparr>) (input_fd_annotations meta),
      out_fds = map (\<lambda>a. \<lparr>out_fd = output_fd a\<rparr>) (output_fd_annotations meta),
      task_args = task_bin self # tl args, debuggable = svc_debuggable self\<rparr>"

lemma worker_parses_args:
  assumes clap: "worker_clap get_matches" and args: "args \<noteq> []" and ok: "metadata_ok meta"
  shows "\<exists>argv. build_worker_args self args meta = (Ok argv :: ('e, string list) res) \<and>
    worker_parse_args (get_matches argv) = Ok (worker_config_of self args meta)"
proof -
  let ?ins = "map (\<lambda>a. show_int (input_fd a) @ '':'' @ show_int (input_file_size a)) (input_fd_annotations meta)"
  let ?outs = "map (\<lambda>a. show_int (output_fd a)) (output_fd_annotations meta)"
  let ?argv = "[WORKER_BIN, ''--authfs-root'', AUTHFS_MOUNTPOINT] @ option_args ''--in-fd'' ?ins @
    option_args ''--out-fd'' ?outs @ (if svc_debuggable self then [''--debug''] else []) @
    [''--''] @ (task_bin self # tl args)"
  have "list_all plain_value (AUTHFS_MOUNTPOINT # ?ins @ ?outs)"
    using ok by (auto simp: metadata_ok_def fd_ok_def list_all_iff plain_numbers AUTHFS_MOUNTPOINT_def plain_value_def[of "_ # _"])
  then have m: "get_matches ?argv = \<lparr>wm_authfs_root = Some AUTHFS_MOUNTPOINT, wm_in_fd = ?ins, wm_out_fd = ?outs,
      wm_debug = svc_debuggable self, wm_args = Some (task_bin self # tl args)\<rparr>"
    using clap unfolding worker_clap_def by blast
  have "try_map parse_in_fd ?ins = Ok (map (\<lambda>a. \<lparr>in_fd = input_fd a, in_file_size = nat (input_file_size a)\<rparr>)
      (input_fd_annotations meta))"
    "try_map parse_out_fd ?outs = Ok (map (\<lambda>a. \<lparr>out_fd = output_fd a\<rparr>) (output_fd_annotations meta))"
    using ok by (fastforce simp: metadata_ok_def intro!: try_map_map_Ok parse_in_fd_shown parse_out_fd_shown)+
  then have "worker_parse_args (get_matches ?argv) = Ok (worker_config_of self args meta)"
    unfolding m by (simp add: worker_parse_args_def worker_config_of_def)
  moreover have "build_worker_args self args meta = (Ok ?argv :: ('e, string list) res)"
    using args by (cases args) (simp_all add: build_worker_args_def slice_def)
  ultimately show ?thesis by blast
qed

section \<open>The file pool of a task\<close>

definition config_ok :: "worker_config \<Rightarrow> bool" where
  "config_ok config \<longleftrightarrow>
     plain_value (authfs_root config) \<and>
     (\<forall>c \<in> set (in_fds config). fd_ok (in_fd c) \<and> in_file_size c < 2 ^ 64) \<and>
     (\<forall>c \<in> set (out_fds config). fd_ok (out_fd c))"

definition task_pool :: "worker_config \<Rightarrow> (nat \<rightharpoonup> 'f file_config)" where
  "task_pool config =
     map_of (rev (map (\<lambda>c. (nat (in_fd c), RemoteUnverifiedReadonlyFile (in_fd c) (in_file_size c))) (in_fds config))) ++
     map_of (rev (map (\<lambda>c. (nat (out_fd c), RemoteVerifiedNewFile (out_fd c) MerkleLeaves_new)) (out_fds config)))"

lemma parse_fd_shown:
  assumes "fd_ok fd"
  shows "parse_uint 64 (show_int fd) = Some (nat fd)" "parse_int 32 (show_int fd) = Some fd"
    and "parse_u64 (show_int fd) = Ok (nat fd)" "parse_i32 (show_int fd) = Ok fd"
  using assms parse_shown_nonneg[of fd] by (simp_all add: fd_ok_def parse_u64_def parse_i32_def)

lemma authfs_parses_args:
  assumes structopt: "authfs_structopt get_matches" and ok: "config_ok config"
  shows "\<exists>args. Args_from_matches (get_matches (authfs_args_of config)) = Ok args \<and>
    prepare_file_pool p env st disk args = Ok (task_pool config)"
proof -
  let ?ins = "map (\<lambda>conf. show_int (in_fd conf) @ '':'' @ show_int (in_fd conf) @ '':'' @
    show_nat (in_file_size conf)) (in_fds config)"
  let ?outs = "map (\<lambda>conf. show_int (out_fd conf) @ '':'' @ show_int (out_fd conf)) (out_fds config)"
  let ?ro = "map (\<lambda>c. \<lparr>rru_ino = nat (in_fd c), rru_remote_id = in_fd c, rru_file_size = in_file_size c\<rparr>) (in_fds config)"
  let ?rw = "map (\<lambda>c. \<lparr>rrw_ino = nat (out_fd c), rrw_remote_id = out_fd c\<rparr>) (out_fds config)"
  have "list_all plain_value (authfs_root config # ?ins @ ?outs)"
    using ok by (auto simp: config_ok_def fd_ok_def list_all_iff plain_numbers)
  then have m: "get_matches (authfs_args_of config) =
      \<lparr>m_mount_point = authfs_root config, m_remote_ro_file = [], m_remote_ro_file_unverified = ?ins,
       m_remote_new_rw_file = ?outs, m_local_ro_file = [], m_local_ro_file_unverified = [], m_debug = False\<rparr>"
    using structopt unfolding authfs_structopt_def authfs_args_of_def by blast
  have ro: "try_map parse_remote_ro_file_unverified_option ?ins = Ok ?ro"
    using ok by (intro try_map_map_Ok)
      (simp add: config_ok_def parse_remote_ro_file_unverified_option_def parse_fd_shown)
  have rw: "try_map parse_remote_new_rw_file_option ?outs = Ok ?rw"
    using ok by (intro try_map_map_Ok)
      (simp add: config_ok_def parse_remote_new_rw_file_option_def parse_fd_shown)
  show ?thesis
    unfolding m using ro rw
    by (simp add: Args_from_matches_def prepare_file_pool_def new_config_remote_unverified_file_def
        new_config_remote_new_verified_file_def try_fold_insert_config_Ok task_pool_def comp_def rev_map)
qed

text \<open>The pool that \<open>fd_server\<close> makes of its command line.\<close>

definition served_pool :: "'f fd_env \<Rightarrow> metadata \<Rightarrow> (int \<rightharpoonup> 'f fd_config)" where
  "served_pool fds meta =
     map_of (rev (map (\<lambda>a. (input_fd a, Readonly (file_from_raw_fd fds (input_fd a)) None None))
       (input_fd_annotations meta))) ++
     map_of (rev (map (\<lambda>a. (output_fd a, ReadWrite (file_from_raw_fd fds (output_fd a))))
       (output_fd_annotations meta)))"

definition fds_ok :: "'f file_api \<Rightarrow> 'f fd_env \<Rightarrow> metadata \<Rightarrow> bool" where
  "fds_ok api fds meta \<longleftrightarrow>
     (\<forall>a \<in> set (input_fd_annotations meta). is_fd_valid fds (input_fd a)) \<and>
     (\<forall>a \<in> set (output_fd_annotations meta). is_fd_valid fds (output_fd a) \<and>
        metadata_len api (file_from_raw_fd fds (output_fd a)) = Ok 0)"

lemma try_fold_insert_parsed:
  assumes "\<And>x. x \<in> set xs \<Longrightarrow> parse (f x) = Ok (k x, v x)"
  shows "try_fold (insert_parsed parse) pool (map f xs) = Ok (pool ++ map_of (rev (map (\<lambda>x. (k x, v x)) xs)))"
  using assms
proof (induction xs arbitrary: pool)
  case (Cons x xs)
  have "pool(k x \<mapsto> v x) ++ m = pool ++ ([k x \<mapsto> v x] ++ m)" for m
    by (simp add: fun_eq_iff map_add_def split: option.splits)
  with Cons show ?case by (simp add: insert_parsed_def)
qed simp

lemma fd_server_parses_args:
  assumes clap: "fd_server_clap get_matches" and ok: "metadata_ok meta" "fds_ok api fds meta"
  shows "(case get_matches (fd_server_args_of meta) of (ro, rw) \<Rightarrow> parse_args api fds ro rw) =
    Ok (served_pool fds meta)"
proof -
  let ?ros = "map (\<lambda>a. show_int (input_fd a)) (input_fd_annotations meta)"
  let ?rws = "map (\<lambda>a. show_int (output_fd a)) (output_fd_annotations meta)"
  have "list_all plain_value (?ros @ ?rws)"
    using ok(1) by (auto simp: metadata_ok_def fd_ok_def list_all_iff plain_numbers)
  then have m: "get_matches (fd_server_args_of meta) = (?ros, ?rws)"
    using clap unfolding fd_server_clap_def fd_server_args_of_def by blast
  have "try_fold (insert_parsed (parse_arg_ro_fds fds)) Map.empty ?ros =
      Ok (Map.empty ++ map_of (rev (map (\<lambda>a. (input_fd a, Readonly (file_from_raw_fd fds (input_fd a)) None None))
        (input_fd_annotations meta))))"
    using ok by (intro try_fold_insert_parsed)
      (simp add: metadata_ok_def fds_ok_def parse_arg_ro_fds_def parse_fd_shown fd_to_file_def fd_to_file_opt_def)
  moreover have "try_fold (insert_parsed (parse_arg_rw_fds api fds)) pool ?rws =
      Ok (pool ++ map_of (rev (map (\<lambda>a. (output_fd a, ReadWrite (file_from_raw_fd fds (output_fd a))))
        (output_fd_annotations meta))))" for pool
    using ok by (intro try_fold_insert_parsed)
      (simp add: metadata_ok_def fds_ok_def parse_arg_rw_fds_def parse_fd_shown fd_to_file_def)
  ultimately show ?thesis by (simp add: m parse_args_def served_pool_def)
qed

text \<open>No descriptor is passed twice.\<close>

definition fds_distinct :: "metadata \<Rightarrow> bool" where
  "fds_distinct meta \<longleftrightarrow>
     distinct (map input_fd (input_fd_annotations meta) @ map output_fd (output_fd_annotations meta))"

lemma map_of_distinct:
  assumes "inj_on k (set xs)" "distinct xs" "x \<in> set xs"
  shows "map_of (rev (map (\<lambda>x. (k x, v x)) xs)) (k x) = Some (v x)"
  using assms by (intro map_of_is_SomeI) (auto simp: rev_map comp_def distinct_map image_iff)

lemma map_of_absent: "y \<notin> k ` set xs \<Longrightarrow> map_of (rev (map (\<lambda>x. (k x, v x)) xs)) y = None"
  by (auto simp: map_of_eq_None_iff image_iff)

lemma pools_agree:
  assumes ok: "metadata_ok meta" and dist: "fds_distinct meta"
  shows "a \<in> set (input_fd_annotations meta) \<Longrightarrow>
      served_pool fds meta (input_fd a) = Some (Readonly (file_from_raw_fd fds (input_fd a)) None None) \<and>
      task_pool (worker_config_of self args meta) (nat (input_fd a)) =
        Some (RemoteUnverifiedReadonlyFile (input_fd a) (nat (input_file_size a)))"
    and "b \<in> set (output_fd_annotations meta) \<Longrightarrow>
      served_pool fds meta (output_fd b) = Some (ReadWrite (file_from_raw_fd fds (output_fd b))) \<and>
      task_pool (worker_config_of self args meta) (nat (output_fd b)) =
        Some (RemoteVerifiedNewFile (output_fd b) MerkleLeaves_new)"
proof -
  let ?ins = "input_fd_annotations meta" and ?outs = "output_fd_annotations meta"
  have pos: "\<And>x. x \<in> set ?ins \<Longrightarrow> 0 \<le> input_fd x" "\<And>x. x \<in> set ?outs \<Longrightarrow> 0 \<le> output_fd x"
    using ok by (auto simp: metadata_ok_def fd_ok_def)
  have d: "inj_on input_fd (set ?ins)" "distinct ?ins" "inj_on output_fd (set ?outs)" "distinct ?outs"
    "input_fd ` set ?ins \<inter> output_fd ` set ?outs = {}"
    using dist by (auto simp: fds_distinct_def distinct_map)
  have n: "inj_on (\<lambda>x. nat (input_fd x)) (set ?ins)" "inj_on (\<lambda>x. nat (output_fd x)) (set ?outs)"
    by (rule inj_onI, metis d(1) inj_onD pos(1) eq_nat_nat_iff,
        rule inj_onI, metis d(3) inj_onD pos(2) eq_nat_nat_iff)
  have disj: "nat (input_fd x) \<noteq> nat (output_fd y)" "input_fd x \<noteq> output_fd y"
    if "x \<in> set ?ins" "y \<in> set ?outs" for x y
    using that d(5) pos by (auto simp: eq_nat_nat_iff disjoint_iff)
  show "a \<in> set ?ins \<Longrightarrow>
      served_pool fds meta (input_fd a) = Some (Readonly (file_from_raw_fd fds (input_fd a)) None None) \<and>
      task_pool (worker_config_of self args meta) (nat (input_fd a)) =
        Some (RemoteUnverifiedReadonlyFile (input_fd a) (nat (input_file_size a)))"
    using disj
    by (auto simp: served_pool_def task_pool_def worker_config_of_def comp_def map_add_Some_iff
        map_of_distinct[OF d(1,2)] map_of_distinct[OF n(1) d(2)] intro!: map_of_absent)
  show "b \<in> set ?outs \<Longrightarrow>
      served_pool fds meta (output_fd b) = Some (ReadWrite (file_from_raw_fd fds (output_fd b))) \<and>
      task_pool (worker_config_of self args meta) (nat (output_fd b)) =
        Some (RemoteVerifiedNewFile (output_fd b) MerkleLeaves_new)"
    by (auto simp: served_pool_def task_pool_def worker_config_of_def comp_def map_add_Some_iff
        map_of_distinct[OF d(3,4)] map_of_distinct[OF n(2) d(4)])
qed

lemma worker_config_ok: "metadata_ok meta \<Longrightarrow> config_ok (worker_config_of self args meta)"
  by (auto simp: config_ok_def worker_config_of_def metadata_ok_def plain_value_def AUTHFS_MOUNTPOINT_def)

section \<open>The polling loop\<close>

text \<open>What the operating system promises for its clock: it does not run backwards, sleeping takes at
  least the requested time, and \<open>statfs\<close> returns.\<close>

definition clock_runs :: "('j, 'f, 's) vm_os \<Rightarrow> bool" where
  "clock_runs os \<longleftrightarrow>
     (\<forall>path s r s'. statfs_type os path s = (r, s') \<longrightarrow> clock_ns os s \<le> clock_ns os s' \<and> r \<noteq> Panic \<and> r \<noteq> Hang) \<and>
     (\<forall>d s. clock_ns os s + d \<le> clock_ns os (sleep_ns os d s))"

lemma is_fuse_cases:
  assumes "is_fuse os root s = (r, s')" "clock_runs os"
  shows "clock_ns os s \<le> clock_ns os s'" "r \<noteq> Panic" "r \<noteq> Hang" "r \<noteq> Err MountTimeout"
    "r = Ok True \<Longrightarrow> statfs_type os root s = (Ok FUSE_SUPER_MAGIC, s')"
  using assms
  by (cases "statfs_type os root s"; cases "fst (statfs_type os root s)";
      force simp: is_fuse_def clock_runs_def)+

lemma wait_loop_result:
  assumes os: "clock_runs os" and "start \<le> clock_ns os s"
  shows "\<exists>r s'. wait_loop os root start s = Some (r, s') \<and> r \<noteq> Hang \<and> r \<noteq> Panic \<and>
    (r = Err MountTimeout \<longrightarrow> clock_ns os s' > start + AUTHFS_SETUP_TIMEOUT_SEC) \<and>
    (r = Ok () \<longrightarrow> (\<exists>s1. statfs_type os root s1 = (Ok FUSE_SUPER_MAGIC, s')))"
  using assms(2)
proof (induction "start + AUTHFS_SETUP_TIMEOUT_SEC + 1 - clock_ns os s" arbitrary: s rule: less_induct)
  case less
  obtain r s1 where f: "is_fuse os root s = (r, s1)" by fastforce
  note c = is_fuse_cases[OF f os]
  show ?case
  proof (cases r)
    case (Ok fuse)
    let ?s2 = "sleep_ns os AUTHFS_SETUP_POLL_INTERVAL_MS s1"
    show ?thesis
    proof (cases "fuse \<or> clock_ns os s1 - start > AUTHFS_SETUP_TIMEOUT_SEC")
      case True
      with f Ok c(5) show ?thesis by (auto simp: wait_loop.simps[of os root start s])
    next
      case False
      have "clock_ns os s1 + AUTHFS_SETUP_POLL_INTERVAL_MS \<le> clock_ns os ?s2"
        using os by (simp add: clock_runs_def)
      then have later: "clock_ns os s < clock_ns os ?s2" "clock_ns os s \<le> start + AUTHFS_SETUP_TIMEOUT_SEC"
        using c(1) False by (auto simp: AUTHFS_SETUP_POLL_INTERVAL_MS_def)
      have "wait_loop os root start s = wait_loop os root start ?s2"
        using False f Ok by (simp add: wait_loop.simps[of os root start s])
      moreover have "start + AUTHFS_SETUP_TIMEOUT_SEC + 1 - clock_ns os ?s2 <
          start + AUTHFS_SETUP_TIMEOUT_SEC + 1 - clock_ns os s" "start \<le> clock_ns os ?s2"
        using later less.prems by linarith+
      ultimately show ?thesis using less.hyps[of ?s2] by simp
    qed
  next
    case (Err e)
    with f c(4) show ?thesis by (simp add: wait_loop.simps[of os root start s])
  qed (use c in simp_all)
qed

section \<open>Processes\<close>

text \<open>What Minijail promises, for the set of the jails whose process is running and the set of the jails for
  which a \<open>wait\<close> or a \<open>kill\<close> has failed. A process may end by itself at any time. A successful \<open>run\<close> starts the
  process of a jail, one that fails starts none. A \<open>wait\<close> or \<open>kill\<close> that reports how the process ended (success, an
  exit code or a signal) has seen its end; with any other result the process may still be running, and the jail
  counts as failed. The other calls do not start processes.\<close>

definition kept :: "('s \<Rightarrow> 'j set) \<Rightarrow> ('s \<Rightarrow> 'j set) \<Rightarrow> 's \<Rightarrow> 's \<Rightarrow> bool" where
  "kept running failed s s' \<longleftrightarrow> running s' \<subseteq> running s \<and> failed s' = failed s"

definition starts ::
  "('s \<Rightarrow> 'j set) \<Rightarrow> ('s \<Rightarrow> 'j set) \<Rightarrow> 'j \<Rightarrow> 's \<Rightarrow> (jail_error, int) res \<times> 's \<Rightarrow> bool" where
  "starts running failed j s m \<longleftrightarrow>
     running (snd m) \<subseteq> (case fst m of Ok _ \<Rightarrow> insert j (running s) | _ \<Rightarrow> running s) \<and> failed (snd m) = failed s"

fun reports_end :: "(jail_error, unit) res \<Rightarrow> bool" where
  "reports_end (Ok _) = True"
| "reports_end (Err (ReturnCode _)) = True"
| "reports_end (Err (Killed _)) = True"
| "reports_end _ = False"

definition ends ::
  "('s \<Rightarrow> 'j set) \<Rightarrow> ('s \<Rightarrow> 'j set) \<Rightarrow> 'j \<Rightarrow> 's \<Rightarrow> (jail_error, unit) res \<times> 's \<Rightarrow> bool" where
  "ends running failed j s m \<longleftrightarrow>
     (if reports_end (fst m) then running (snd m) \<subseteq> running s - {j} \<and> failed (snd m) = failed s
      else running (snd m) \<subseteq> running s \<and> failed (snd m) = insert j (failed s))"

definition minijail :: "('j, 'f, 's) vm_os \<Rightarrow> ('s \<Rightarrow> 'j set) \<Rightarrow> ('s \<Rightarrow> 'j set) \<Rightarrow> bool" where
  "minijail os running failed \<longleftrightarrow>
     (\<forall>s. kept running failed s (snd (jail_new os s))) \<and>
     (\<forall>s j. fst (jail_new os s) = Ok j \<longrightarrow> j \<notin> running s \<union> failed s) \<and>
     (\<forall>j s. kept running failed s (namespace_vfs os j s)) \<and>
     (\<forall>j bin fds args s. starts running failed j s (jail_run os j bin fds args s)) \<and>
     (\<forall>j bin fds args s. starts running failed j s (jail_run_remap os j bin fds args s)) \<and>
     (\<forall>j s. ends running failed j s (jail_wait os j s)) \<and>
     (\<forall>j s. ends running failed j s (jail_kill os j s)) \<and>
     (\<forall>path s. kept running failed s (snd (statfs_type os path s))) \<and>
     (\<forall>d s. kept running failed s (sleep_ns os d s)) \<and>
     (\<forall>path w s. kept running failed s (snd (open_file os path w s)))"

lemma minijail_laws:
  assumes "minijail os running failed"
  shows "kept running failed s (snd (jail_new os s))" "fst (jail_new os s) = Ok j \<Longrightarrow> j \<notin> running s \<union> failed s"
    "kept running failed s (namespace_vfs os j s)"
    "starts running failed j s (jail_run os j bin fds args s)"
    "starts running failed j s (jail_run_remap os j bin rfds args s)"
    "ends running failed j s (jail_wait os j s)" "ends running failed j s (jail_kill os j s)"
    "kept running failed s (snd (statfs_type os path s))" "kept running failed s (sleep_ns os d s)"
    "kept running failed s (snd (open_file os path w s))"
  using assms by (simp_all add: minijail_def)

lemma kept_refl [simp]: "kept running failed s s"
  by (simp add: kept_def)

lemma kept_trans: "kept running failed s t \<Longrightarrow> kept running failed t u \<Longrightarrow> kept running failed s u"
  by (auto simp: kept_def)

lemma is_fuse_kept:
  assumes os: "minijail os running failed"
  shows "kept running failed s (snd (is_fuse os root s))"
  unfolding is_fuse_def
  by (rule and_then_state[where I = "kept running failed s"]) (simp_all add: minijail_laws(8)[OF os])

lemma wait_loop_kept:
  assumes "minijail os running failed" "wait_loop os root start s = Some r"
  shows "kept running failed s (snd r)"
proof -
  have "minijail os running failed \<longrightarrow> kept running failed s (snd r)"
  proof (rule wait_loop.raw_induct[OF _ assms(2)], intro impI)
    fix wl :: "('a, 'b, 'c) vm_os \<Rightarrow> string \<Rightarrow> nat \<Rightarrow> 'c \<Rightarrow> ((compos_error, unit) res \<times> 'c) option"
      and os root start s r
    let ?next = "\<lambda>s'. wl os root start (sleep_ns os AUTHFS_SETUP_POLL_INTERVAL_MS s')"
    assume IH: "\<And>os root start s r. wl os root start s = Some r \<Longrightarrow>
        minijail os running failed \<longrightarrow> kept running failed s (snd r)"
      and run: "(case is_fuse os root s of
         (Ok fuse, s') \<Rightarrow> if fuse then Some (Ok (), s')
            else if AUTHFS_SETUP_TIMEOUT_SEC < clock_ns os s' - start then Some (Err MountTimeout, s')
            else ?next s'
       | (Err e, s') \<Rightarrow> Some (Err e, s') | (Panic, s') \<Rightarrow> Some (Panic, s') | (Hang, s') \<Rightarrow> Some (Hang, s')) = Some r"
      and os: "minijail os running failed"
    obtain q t where q: "is_fuse os root s = (q, t)" by fastforce
    with is_fuse_kept[OF os, of s root] have t: "kept running failed s t" by simp
    have "snd r = t \<or> ?next t = Some r"
      using run by (cases q) (auto simp: q split: if_splits)
    then show "kept running failed s (snd r)"
    proof
      assume "?next t = Some r"
      with IH os have "kept running failed (sleep_ns os AUTHFS_SETUP_POLL_INTERVAL_MS t) (snd r)" by blast
      from kept_trans[OF kept_trans[OF t minijail_laws(9)[OF os]] this] show ?thesis .
    qed (use t in simp)
  qed
  with assms(1) show ?thesis by blast
qed

text \<open>Starting a program: a new jail, and its process if the start succeeds.\<close>

definition spawned :: "('s \<Rightarrow> 'j set) \<Rightarrow> ('s \<Rightarrow> 'j set) \<Rightarrow> 's \<Rightarrow> ('e, 'j) res \<Rightarrow> 's \<Rightarrow> bool" where
  "spawned running failed s r s' \<longleftrightarrow> failed s' = failed s \<and>
     (case r of Ok j \<Rightarrow> j \<notin> running s \<union> failed s \<and> running s' \<subseteq> insert j (running s) | _ \<Rightarrow> running s' \<subseteq> running s)"

lemma spawn_spawned:
  assumes os: "minijail os running failed" and run: "\<And>j s. starts running failed j s (run j s)"
    and spawn: "and_then (apfst (map_err JailError) (jail_new os s)) (\<lambda>j s.
      and_then (apfst (map_err JailError) (run j s)) (\<lambda>_ s. (Ok j, s))) = (r, s')"
  shows "spawned running failed s r s'"
proof -
  obtain q t where new: "jail_new os s = (q, t)" by fastforce
  note n = minijail_laws(1,2)[OF os, where s = s, unfolded new fst_conv snd_conv kept_def]
  show ?thesis
  proof (cases q)
    case (Ok j)
    obtain u t' where run': "run j t = (u, t')" by fastforce
    have "running t' \<subseteq> (case u of Ok _ \<Rightarrow> insert j (running t) | _ \<Rightarrow> running t)" "failed t' = failed t"
      using run[of j t] unfolding run' starts_def fst_conv snd_conv by blast+
    moreover have "running t \<subseteq> running s" "failed t = failed s" "j \<notin> running s \<union> failed s" using n Ok by blast+
    ultimately have "spawned running failed s (case u of Ok _ \<Rightarrow> Ok j | _ \<Rightarrow> Panic) t'"
      unfolding spawned_def by (cases u) (simp_all, blast+)
    with spawn show ?thesis by (cases u) (auto simp: new Ok run' spawned_def)
  qed (use spawn new n in \<open>auto simp: spawned_def\<close>)
qed

lemma spawn_authfs_spawned:
  "minijail os running failed \<Longrightarrow> spawn_authfs os config s = (r, s') \<Longrightarrow> spawned running failed s r s'"
  unfolding spawn_authfs_def by (rule spawn_spawned[OF _ minijail_laws(4)])

lemma spawn_fd_server_spawned:
  "minijail os running failed \<Longrightarrow> spawn_fd_server os meta dbg s = (r, s') \<Longrightarrow> spawned running failed s r s'"
  unfolding spawn_fd_server_def by (rule spawn_spawned[OF _ minijail_laws(4)])

lemma spawn_task_spawned:
  assumes os: "minijail os running failed" and spawn: "spawn_jailed_task os config fds s = (r, s')"
  shows "spawned running failed s r s'"
proof (cases "task_args config")
  case Nil
  obtain q t where new: "jail_new os s = (q, t)" by fastforce
  with minijail_laws(1)[OF os, of s] Nil spawn show ?thesis
    by (cases q) (auto simp: spawn_jailed_task_def Let_def spawned_def kept_def)
next
  case (Cons bin rest)
  with spawn show ?thesis
    using spawn_spawned[OF os minijail_laws(5)[OF os]] unfolding spawn_jailed_task_def Let_def by simp
qed

lemma open_files_kept:
  assumes os: "minijail os running failed"
  shows "kept running failed s (snd (open_authfs_files_for_mapping os config s))"
proof -
  let ?I = "kept running failed s"
  have "?I (snd (try_map_st (\<lambda>conf s. and_then (open_authfs_file os root (fd conf) w s) (\<lambda>f s. (Ok (f, fd conf), s))) xs t))"
    if "?I t" for fd root w t and xs :: "'x list"
  proof (rule try_map_st_state[where I = ?I, OF _ that])
    fix x t
    assume t: "?I t"
    show "?I (snd (and_then (open_authfs_file os root (fd x) w t) (\<lambda>f s. (Ok (f, fd x), s))))"
      by (rule and_then_state[where I = ?I])
        (simp_all add: open_authfs_file_def kept_trans[OF t minijail_laws(10)[OF os]])
  qed
  note opened = this
  show ?thesis
    unfolding open_authfs_files_for_mapping_def
  proof (rule and_then_state[where I = ?I])
    fix outs t
    assume "?I t"
    then show "?I (snd (and_then (try_map_st (\<lambda>conf s. and_then (open_authfs_file os (authfs_root config) (out_fd conf) True s)
        (\<lambda>f s. (Ok (f, out_fd conf), s))) (out_fds config) t) (\<lambda>outs' s. (Ok (outs @ outs'), s))))"
      by (intro and_then_state[where I = ?I] opened) simp_all
  qed (rule opened, simp)
qed

text \<open>Nothing is left behind but processes whose \<open>wait\<close> or \<open>kill\<close> failed on the way.\<close>

definition cleaned :: "('s \<Rightarrow> 'j set) \<Rightarrow> ('s \<Rightarrow> 'j set) \<Rightarrow> 's \<Rightarrow> 's \<Rightarrow> bool" where
  "cleaned running failed s s' \<longleftrightarrow> failed s \<subseteq> failed s' \<and> running s' \<subseteq> running s \<union> (failed s' - failed s)"

lemma kept_cleaned: "kept running failed s t \<Longrightarrow> cleaned running failed t u \<Longrightarrow> cleaned running failed s u"
  by (auto simp: kept_def cleaned_def)

lemma spawned_fail_cleaned: "spawned running failed s r s' \<Longrightarrow> \<forall>j. r \<noteq> Ok j \<Longrightarrow> cleaned running failed s s'"
  by (cases r) (auto simp: spawned_def cleaned_def)

lemma ends_cleaned:
  "spawned running failed s (Ok j) t \<Longrightarrow> cleaned running failed t u \<Longrightarrow> ends running failed j u m \<Longrightarrow>
   cleaned running failed s (snd m)"
  unfolding spawned_def cleaned_def ends_def by (simp split: if_splits) blast+

lemma wait_result_snd [simp]: "snd (wait_result m) = snd m"
  by (cases m rule: wait_result.cases) simp_all

text \<open>The part of \<open>worker_main\<close> under the scope guard.\<close>

lemma worker_body_cleaned:
  assumes os: "minijail os running failed"
    and run: "and_then (wait_until_authfs_ready os root s) (\<lambda>_ s.
       and_then (apfst (map_err ComposIo) (open_authfs_files_for_mapping os config s)) (\<lambda>fd_mapping s.
       and_then (spawn_jailed_task os config fd_mapping s) (\<lambda>jail s.
       wait_result (jail_wait os jail s)))) = (r, s')"
  shows "cleaned running failed s s'"
proof -
  have refl: "cleaned running failed t t" for t by (simp add: cleaned_def)
  have ready: "kept running failed s (snd (wait_until_authfs_ready os root s))"
    using wait_loop_kept[OF os, of root "clock_ns os s" s]
    by (simp add: wait_until_authfs_ready_def split: option.splits)
  show ?thesis
    using run
  proof (cases rule: and_thenE)
    case (ok u s1)
    with ready have s1: "kept running failed s s1" by simp
    from ok(2) show ?thesis
    proof (cases rule: and_thenE)
      case (ok fds s2)
      then have s2: "kept running failed s s2"
        using kept_trans[OF s1 open_files_kept[OF os, of s1 config]]
        by (cases "open_authfs_files_for_mapping os config s1") simp
      from ok(2) show ?thesis
      proof (cases rule: and_thenE)
        case (ok j s3)
        have "snd (wait_result (jail_wait os j s3)) = s'" by (simp only: ok(2) snd_conv)
        then have "snd (jail_wait os j s3) = s'" by (simp only: wait_result_snd)
        with kept_cleaned[OF s2 ends_cleaned[OF spawn_task_spawned[OF os ok(1)] refl minijail_laws(6)[OF os]]]
        show ?thesis by simp
      next
        case fail
        obtain q t where "spawn_jailed_task os config fds s2 = (q, t)" by fastforce
        with kept_cleaned[OF s2 spawned_fail_cleaned[OF spawn_task_spawned[OF os this]]] fail(1,2) show ?thesis by auto
      qed
    next
      case fail
      with kept_cleaned[OF kept_trans[OF s1 open_files_kept[OF os, of s1 config]] refl] show ?thesis by simp
    qed
  next
    case fail
    with kept_cleaned[OF ready refl] show ?thesis by simp
  qed
qed

section \<open>Properties\<close>

text \<open>C17: \<open>compsvc_worker\<close> leaves no process behind. However \<open>main\<close> ends, also if authfs or the task cannot be started,
  the mount does not appear or a file cannot be opened, a process that runs then and did not run before belongs to a
  jail whose \<open>wait\<close> (the task) or \<open>kill\<close> (authfs) has failed meanwhile. Nothing is said if \<open>main\<close> does not end.\<close>

theorem worker_leaves_no_process:
  assumes "minijail os running failed" "worker_main os m s = (r, s')" "r \<noteq> Hang"
  shows "running s' \<subseteq> running s \<union> (failed s' - failed s)"
proof -
  note os = assms(1)
  have "cleaned running failed s s'"
    using assms(2)[unfolded worker_main_def]
  proof (cases rule: and_thenE)
    case (ok config s0)
    then have s0: "s0 = s" by simp
    from ok(2) show ?thesis
    proof (cases rule: and_thenE)
      case (ok j s1)
      note authfs = spawn_authfs_spawned[OF os ok(1)]
      let ?body = "and_then (wait_until_authfs_ready os (authfs_root config) s1) (\<lambda>_ s.
         and_then (apfst (map_err ComposIo) (open_authfs_files_for_mapping os config s)) (\<lambda>fd_mapping s.
         and_then (spawn_jailed_task os config fd_mapping s) (\<lambda>jail s.
         wait_result (jail_wait os jail s))))"
      obtain q u where g: "guarded (jail_kill os j) ?body = (q, u)" by (rule prod.exhaust)
      from ok(2)[unfolded g] assms(3) have u: "u = s'" "q \<noteq> Hang"
        by (cases q; auto split: sum.splits jail_error.splits)+
      from g u(2) obtain b t k where b: "?body = (b, t)" "jail_kill os j t = (k, u)" by (rule guardedE)
      from ends_cleaned[OF authfs worker_body_cleaned[OF os b(1)] minijail_laws(7)[OF os]]
      show ?thesis by (simp only: b(2) u(1) s0 snd_conv)
    next
      case fail
      obtain q t where "spawn_authfs os config s0 = (q, t)" by fastforce
      with spawned_fail_cleaned[OF spawn_authfs_spawned[OF os this]] fail(1,2) s0 show ?thesis by auto
    qed
  qed (simp add: cleaned_def)
  then show ?thesis by (simp add: cleaned_def)
qed

text \<open>An operating system for examples: the state is the list of running jails and the time, authfs is
  mounted after 120 milliseconds, and a task ends with exit code 3.\<close>

definition sample_os :: "(nat, nat, nat list \<times> nat) vm_os" where
  "sample_os =
     \<lparr>jail_new = (\<lambda>s. (Ok (Suc (foldr max (fst s) 0)), s)),
      namespace_vfs = (\<lambda>j s. s),
      jail_run = (\<lambda>j bin fds args s. (Ok 7, j # fst s, snd s)),
      jail_run_remap = (\<lambda>j bin fds args s. (Ok 7, j # fst s, snd s)),
      jail_wait = (\<lambda>j s. (Err (ReturnCode 3), removeAll j (fst s), snd s)),
      jail_kill = (\<lambda>j s. (Ok (), removeAll j (fst s), snd s)),
      statfs_type = (\<lambda>path s. (Ok (if snd s > 120 * 10 ^ 6 then FUSE_SUPER_MAGIC else 0), s)),
      clock_ns = snd,
      sleep_ns = (\<lambda>d s. (fst s, snd s + d)),
      open_file = (\<lambda>path w s. (Ok 9, s)),
      as_raw_fd = int\<rparr>"

text \<open>The same without the program of the task: it cannot be started.\<close>

definition sample_no_task_os :: "(nat, nat, nat list \<times> nat) vm_os" where
  "sample_no_task_os = sample_os\<lparr>jail_run_remap := (\<lambda>j bin fds args s. (Err OtherJail, s))\<rparr>"

lemma sample_os_minijail:
  "minijail sample_os (\<lambda>s. set (fst s)) (\<lambda>_. {})" "minijail sample_no_task_os (\<lambda>s. set (fst s)) (\<lambda>_. {})"
proof -
  have "x \<le> foldr max js 0" if "x \<in> set js" for x :: nat and js
    using that by (induction js) (auto simp: le_max_iff_disj)
  then have "Suc (foldr max js 0) \<notin> set js" for js :: "nat list"
    by (metis not_less_eq_eq order_refl)
  then show "minijail sample_os (\<lambda>s. set (fst s)) (\<lambda>_. {})" "minijail sample_no_task_os (\<lambda>s. set (fst s)) (\<lambda>_. {})"
    by (simp_all add: minijail_def sample_no_task_os_def sample_os_def kept_def starts_def ends_def)
qed

lemma sample_os_clock: "clock_runs sample_os"
  by (simp add: clock_runs_def sample_os_def)

definition sample_matches :: worker_matches where
  "sample_matches = \<lparr>wm_authfs_root = Some ''/mnt'', wm_in_fd = [], wm_out_fd = [], wm_debug = False,
     wm_args = Some [''/bin/task'']\<rparr>"

lemma sample_worker_run:
  "worker_main sample_os sample_matches ([], 0) = (Ok 3, [], 150000000)"
  "worker_main sample_no_task_os sample_matches ([], 0) = (Err (JailError OtherJail), [], 150000000)"
  by (simp_all add: worker_main_def worker_parse_args_def sample_matches_def spawn_authfs_def sample_os_def
      sample_no_task_os_def wait_until_authfs_ready_def wait_loop.simps is_fuse_def open_authfs_files_for_mapping_def
      spawn_jailed_task_def guarded_def FUSE_SUPER_MAGIC_def AUTHFS_SETUP_TIMEOUT_SEC_def
      AUTHFS_SETUP_POLL_INTERVAL_MS_def)

theorem worker_leaves_no_process_witness:
  "\<exists>s' t'. worker_main sample_os sample_matches ([], 0) = (Ok 3, s') \<and> set (fst s') = {} \<and>
     worker_main sample_no_task_os sample_matches ([], 0) = (Err (JailError OtherJail), t') \<and> set (fst t') = {}"
  using worker_leaves_no_process[OF sample_os_minijail(1) sample_worker_run(1)]
    worker_leaves_no_process[OF sample_os_minijail(2) sample_worker_run(2)] sample_worker_run by simp

text \<open>C18: Waiting for authfs ends: if the clock advances while the worker sleeps, the polling loop returns.
  It returns success only after it has seen the FUSE file system at the mount point, and reports a
  timeout only after more than ten seconds.\<close>

theorem mount_wait_ends:
  assumes "clock_runs os"
  shows "\<exists>r s'. wait_until_authfs_ready os root s = (r, s') \<and> r \<noteq> Hang \<and> r \<noteq> Panic \<and>
    (r = Ok () \<longrightarrow> (\<exists>s1. statfs_type os root s1 = (Ok FUSE_SUPER_MAGIC, s'))) \<and>
    (r = Err MountTimeout \<longrightarrow> clock_ns os s' > clock_ns os s + 10 * 10 ^ 9)"
  using wait_loop_result[OF assms, of "clock_ns os s" s root]
  by (auto simp: wait_until_authfs_ready_def AUTHFS_SETUP_TIMEOUT_SEC_def)

theorem mount_wait_ends_witness:
  "\<exists>r s'. wait_until_authfs_ready sample_os ''/mnt'' ([], 0) = (r, s') \<and> r \<noteq> Hang"
  using mount_wait_ends[OF sample_os_clock, of "''/mnt''" "([], 0)"] by blast

text \<open>C16: The worker gets from its command line exactly what \<open>compsvc\<close> put there: every input descriptor
  with its size, every output descriptor, and as the task always the executable of the service,
  followed by the caller's arguments without the first one. The caller's program name never becomes
  the task.\<close>

theorem worker_gets_the_request:
  assumes "worker_clap get_matches" "args \<noteq> []" "metadata_ok meta"
  shows "\<exists>argv. build_worker_args self args meta = (Ok argv :: (status, string list) res) \<and>
    worker_parse_args (get_matches argv) = Ok
      \<lparr>authfs_root = AUTHFS_MOUNTPOINT,
       in_fds = map (\<lambda>a. \<lparr>in_fd = input_fd a, in_file_size = nat (input_file_size a)\<rparr>) (input_fd_annotations meta),
       out_fds = map (\<lambda>a. \<lparr>out_fd = output_fd a\<rparr>) (output_fd_annotations meta),
       task_args = task_bin self # tl args, debuggable = svc_debuggable self\<rparr>"
  using worker_parses_args[OF assms] by (simp only: worker_config_of_def)

definition sample_metadata :: metadata where
  "sample_metadata = \<lparr>input_fd_annotations = [\<lparr>input_fd = 3, input_file_size = 4096\<rparr>],
     output_fd_annotations = [\<lparr>output_fd = 4\<rparr>]\<rparr>"

lemma sample_metadata_ok: "metadata_ok sample_metadata"
  by (simp add: metadata_ok_def sample_metadata_def fd_ok_def)

definition sample_comp_service :: CompService where
  "sample_comp_service = \<lparr>worker_bin = WORKER_BIN, task_bin = ''/bin/task'', svc_debuggable = False\<rparr>"

theorem worker_gets_the_request_witness:
  "\<exists>argv config. build_worker_args sample_comp_service [''sh'', ''-x''] sample_metadata = (Ok argv :: (status, string list) res) \<and>
    worker_parse_args (sample_worker_matches argv) = Ok config \<and> task_args config = [''/bin/task'', ''-x''] \<and>
    map in_fd (in_fds config) = [3]"
  using worker_gets_the_request[OF worker_clap_sample _ sample_metadata_ok, of "[''sh'', ''-x'']" sample_comp_service]
  by (auto simp: sample_comp_service_def sample_metadata_def)

text \<open>The exit code of the task is lost: \<open>compsvc\<close> answers 0 or an error, so \<open>pvm_exec\<close>, if it ends
  without an error, exits with 0; its branch for a positive exit code is never taken. An empty
  argument list makes the service panic.\<close>

lemma exit_code_lost:
  "execute os self [] meta s = (Panic, s) \<and>
   (fst (pvm_main os' (execute os self) parsed s) = Ok c \<longrightarrow> c = 0)"
proof -
  have zero: "c = 0" if run: "execute os self args meta s = (Ok c, s')" for args meta s c s'
  proof -
    from run obtain wargs t where "(case run_worker_in_jail_and_wait os self wargs t of
         (Ok _, s) \<Rightarrow> (Ok 0, s)
       | (Err (ReturnCode exit_code), s) \<Rightarrow> (Err (FromStatusCode FAILED_TRANSACTION), s)
       | (Err e, s) \<Rightarrow> (Err (FromStatusCode UNKNOWN_ERROR), s)
       | (Panic, s) \<Rightarrow> (Panic, s)
       | (Hang, s) \<Rightarrow> (Hang, s)) = (Ok c, s')"
      unfolding execute_def and_then_Ok_iff by blast
    then show ?thesis
      by (cases "run_worker_in_jail_and_wait os self wargs t"; cases "fst (run_worker_in_jail_and_wait os self wargs t)")
        (auto split: jail_error.splits)
  qed
  have "c = 0" if run: "fst (pvm_main os' (execute os self) parsed s) = Ok c"
  proof -
    obtain s' where "pvm_main os' (execute os self) parsed s = (Ok c, s')"
      using run by (cases "pvm_main os' (execute os self) parsed s") simp
    then obtain j d s1 s2 and config :: pvm_config where
      g: "guarded (jail_kill os' j)
         (apfst (map_err BinderFailed) (execute os self (pvm_args config) (pvm_metadata config) s1)) = (Ok d, s2)"
      and c: "c = (if d > 0 then d else 0)"
      unfolding pvm_main_def and_then_Ok_iff by (fastforce split: if_splits)
    obtain q t where e: "execute os self (pvm_args config) (pvm_metadata config) s1 = (q, t)" by fastforce
    with g have "q = Ok d" by (elim guardedE) (cases q; auto split: if_splits)+
    with zero e c show ?thesis by auto
  qed
  then show ?thesis by (simp add: execute_def build_worker_args_def slice_def)
qed

definition sample_quiet_os :: "(nat, nat, nat list \<times> nat) vm_os" where
  "sample_quiet_os = sample_os\<lparr>jail_wait := (\<lambda>j s. (Ok (), removeAll j (fst s), snd s))\<rparr>"

definition sample_pvm_config :: pvm_config where
  "sample_pvm_config = \<lparr>pvm_args = [''sh''], pvm_metadata = \<lparr>input_fd_annotations = [], output_fd_annotations = []\<rparr>,
     pvm_debuggable = False\<rparr>"

lemma exit_code_lost_witness:
  "\<exists>c. fst (pvm_main sample_os (execute sample_quiet_os sample_comp_service) (Ok sample_pvm_config) ([], 0)) = Ok c \<and>
    c = 0"
proof -
  have "\<exists>c. fst (pvm_main sample_os (execute sample_quiet_os sample_comp_service) (Ok sample_pvm_config) ([], 0)) = Ok c"
    by (simp add: pvm_main_def execute_def run_worker_in_jail_and_wait_def build_worker_args_def slice_def
        sample_quiet_os_def sample_os_def sample_pvm_config_def spawn_fd_server_def guarded_def sample_comp_service_def
        Let_def)
  then show ?thesis
    using exit_code_lost[of sample_quiet_os sample_comp_service undefined "([], 0)" sample_os "Ok sample_pvm_config"]
    by auto
qed

end
