(* ===== verification/Zipfuse.thy ===== *)
theory Zipfuse
  imports Zip_Inode Fuse_Lib
begin

unbundle bit_operations_syntax

text \<open>
  \<open>zipfuse/src/main.rs\<close>: the FUSE file system over the inode table of theory \<open>Zip_Inode\<close>, one definition per
  handler. The contexts, flags and handles the handlers ignore are left out. The order in which the hash
  table of a directory is iterated is a parameter (\<open>it\<close>, given the inode and the entries); so are the size
  of the crate's \<open>Dirent\<close>, the width of \<open>nlink_t\<close>, and opening the archive. A handler runs to the end before
  the next starts (one thread serves the requests), so the mutexes are always free, and a panic ends the
  process.
\<close>

section \<open>The file system\<close>

type_synonym zhandle = nat

record OpenFileBuf =
  ofb_open_count :: nat
  ofb_buf :: bytes

record OpenDirBuf =
  odb_open_count :: nat
  odb_buf :: "(string \<times> DirectoryEntry) list"

record ZipFuse =
  zf_archive :: zip_archive
  zf_inode_table :: InodeTable
  zf_open_files :: "zhandle \<rightharpoonup> OpenFileBuf"
  zf_open_dirs :: "zhandle \<rightharpoonup> OpenDirBuf"

definition ebadf :: io_error where
  "ebadf = Os EBADF"

text \<open>A \<open>Duration\<close> as seconds and nanoseconds.\<close>

definition timeout_max :: "nat \<times> nat" where
  "timeout_max = (2 ^ 64 - 1, 1000000000 - 1)"

datatype 'e zipfuse_error = ZipfuseIo io_error | ZipfuseInode inode_error | ZipfuseFuse 'e

definition ZipFuse_new ::
  "('path \<Rightarrow> (io_error, 'f) res) \<Rightarrow> ('f \<Rightarrow> (io_error, zip_archive) res) \<Rightarrow> 'path \<Rightarrow>
   ('e zipfuse_error, ZipFuse) res" where
  "ZipFuse_new open_file zip_archive_new zip_file =
     try_r (map_err ZipfuseIo (open_file zip_file)) (\<lambda>f.
     try_r (map_err ZipfuseIo (zip_archive_new f)) (\<lambda>z.
     try_r (map_err ZipfuseInode (from_zip z)) (\<lambda>it.
     Ok \<lparr>zf_archive = z, zf_inode_table = it, zf_open_files = Map.empty, zf_open_dirs = Map.empty\<rparr>)))"

definition find_inode :: "ZipFuse \<Rightarrow> inode \<Rightarrow> (io_error, InodeData) res" where
  "find_inode self inode = ok_or ebadf (InodeTable_get (zf_inode_table self) inode)"

text \<open>The fields of \<open>stat64\<close> that \<open>stat_from\<close> sets; the others are 0.\<close>

record zip_stat =
  zst_nlink :: nat
  zst_ino :: nat
  zst_mode :: nat
  zst_size :: int

definition stat_from :: "profile \<Rightarrow> nat \<Rightarrow> ZipFuse \<Rightarrow> inode \<Rightarrow> (io_error, zip_stat) res" where
  "stat_from p nlink_w self inode =
     try_r (find_inode self inode) (\<lambda>inode_data.
     try_r (case get_directory inode_data of
              Some directory \<Rightarrow> uadd p nlink_w 2 (length directory mod 2 ^ nlink_w)
            | None \<Rightarrow> Ok 1) (\<lambda>nlink.
     Ok \<lparr>zst_nlink = nlink, zst_ino = inode,
         zst_mode = (if is_dir inode_data then S_IFDIR else S_IFREG) OR id_mode inode_data,
         zst_size = (if id_size inode_data < 2 ^ 63 then int (id_size inode_data) else 2 ^ 63 - 1)\<rparr>))"

section \<open>Handlers\<close>

definition zip_init :: "ZipFuse \<Rightarrow> (io_error, FsOptions) res" where
  "zip_init self = Ok FsOptions_empty"

record zip_fuse_entry =
  zfe_inode :: inode
  zfe_generation :: nat
  zfe_attr :: zip_stat
  zfe_attr_timeout :: "nat \<times> nat"
  zfe_entry_timeout :: "nat \<times> nat"

definition zip_lookup ::
  "profile \<Rightarrow> nat \<Rightarrow> ZipFuse \<Rightarrow> inode \<Rightarrow> string \<Rightarrow> (io_error, zip_fuse_entry) res" where
  "zip_lookup p nlink_w self parent name =
     try_r (find_inode self parent) (\<lambda>inode.
     try_r (ok_or ebadf (get_directory inode)) (\<lambda>directory.
     case map_of directory name of
       Some e \<Rightarrow>
         try_r (stat_from p nlink_w self (de_inode e)) (\<lambda>attr.
         Ok \<lparr>zfe_inode = de_inode e, zfe_generation = 0, zfe_attr = attr,
             zfe_attr_timeout = timeout_max, zfe_entry_timeout = timeout_max\<rparr>)
     | None \<Rightarrow> Err (Os ENOENT)))"

definition zip_getattr ::
  "profile \<Rightarrow> nat \<Rightarrow> ZipFuse \<Rightarrow> inode \<Rightarrow> (io_error, zip_stat \<times> nat \<times> nat) res" where
  "zip_getattr p nlink_w self inode =
     try_r (stat_from p nlink_w self inode) (\<lambda>st. Ok (st, timeout_max))"

text \<open>\<open>Vec::with_capacity\<close> for bytes: panics when the capacity exceeds \<open>isize::MAX\<close>.\<close>

definition with_capacity :: "nat \<Rightarrow> ('e, unit) res" where
  "with_capacity n = (if n < 2 ^ 63 then Ok () else Panic)"

datatype ZipOpenOptions = OpenOptions_empty | CACHE_DIR

text \<open>The contents of a file as \<open>open\<close> reads them.\<close>

definition load_file :: "ZipFuse \<Rightarrow> inode \<Rightarrow> (io_error, bytes) res" where
  "load_file self inode =
     try_r (find_inode self inode) (\<lambda>inode_data.
     try_r (ok_or ebadf (get_zip_index inode_data)) (\<lambda>zip_index.
     try_r (za_by_index (zf_archive self) zip_index) (\<lambda>zip_file.
     try_r (with_capacity (id_size inode_data)) (\<lambda>_.
     ze_data zip_file))))"

definition zip_open ::
  "profile \<Rightarrow> ZipFuse \<Rightarrow> inode \<Rightarrow> (io_error, zhandle option \<times> ZipOpenOptions) res \<times> ZipFuse" where
  "zip_open p self inode =
     (let handle = inode in
      and_then
        (case zf_open_files self handle of
           Some ofb \<Rightarrow>
             if ofb_open_count ofb = 0 then (Err ebadf, self)
             else
               and_then (uadd p 32 (ofb_open_count ofb) 1, self) (\<lambda>n self.
               (Ok (), self\<lparr>zf_open_files := (zf_open_files self)(handle \<mapsto> ofb\<lparr>ofb_open_count := n\<rparr>)\<rparr>))
         | None \<Rightarrow>
             and_then (load_file self inode, self) (\<lambda>buf self.
             (Ok (), self\<lparr>zf_open_files :=
                (zf_open_files self)(handle \<mapsto> \<lparr>ofb_open_count = 1, ofb_buf = buf\<rparr>)\<rparr>)))
        (\<lambda>_ self. (Ok (Some handle, OpenOptions_empty), self)))"

definition checked_sub :: "nat \<Rightarrow> nat \<Rightarrow> nat option" where
  "checked_sub a b = (if b \<le> a then Some (a - b) else None)"

definition zip_release :: "ZipFuse \<Rightarrow> inode \<Rightarrow> (io_error, unit) res \<times> ZipFuse" where
  "zip_release self inode =
     (let handle = inode in
      case zf_open_files self handle of
        Some ofb \<Rightarrow>
          and_then (ok_or ebadf (checked_sub (ofb_open_count ofb) 1), self) (\<lambda>n self.
          (Ok (), if n = 0 then self\<lparr>zf_open_files := (zf_open_files self)(handle := None)\<rparr> else self))
      | None \<Rightarrow> (Err ebadf, self))"

definition zip_read ::
  "profile \<Rightarrow> ZipFuse \<Rightarrow> zhandle \<Rightarrow> 'w writer \<Rightarrow> 'w \<Rightarrow> nat \<Rightarrow> nat \<Rightarrow> (io_error, nat) res \<times> 'w" where
  "zip_read p self handle wr w n offset =
     and_then (ok_or ebadf (zf_open_files self handle), w) (\<lambda>ofb w.
     if ofb_open_count ofb = 0 then (Err ebadf, w)
     else
       let start = offset in
       and_then (uadd p 64 start n, w) (\<lambda>end' w.
       let end' = min end' (length (ofb_buf ofb)) in
       and_then (slice (ofb_buf ofb) start end', w) (\<lambda>data w.
       wr w data)))"

text \<open>The entries of a directory as \<open>opendir\<close> copies them.\<close>

definition load_dir ::
  "(inode \<Rightarrow> (string \<times> DirectoryEntry) list \<Rightarrow> (string \<times> DirectoryEntry) list) \<Rightarrow> ZipFuse \<Rightarrow> inode \<Rightarrow>
   (io_error, (string \<times> DirectoryEntry) list) res" where
  "load_dir it self inode =
     try_r (find_inode self inode) (\<lambda>inode_data.
     try_r (ok_or ebadf (get_directory inode_data)) (\<lambda>directory.
     try_map (\<lambda>(name, dir_entry). try_r (c_string name) (\<lambda>name. Ok (name, dir_entry))) (it inode directory)))"

definition zip_opendir ::
  "profile \<Rightarrow> (inode \<Rightarrow> (string \<times> DirectoryEntry) list \<Rightarrow> (string \<times> DirectoryEntry) list) \<Rightarrow> ZipFuse \<Rightarrow> inode \<Rightarrow>
   (io_error, zhandle option \<times> ZipOpenOptions) res \<times> ZipFuse" where
  "zip_opendir p it self inode =
     (let handle = inode in
      and_then
        (case zf_open_dirs self handle of
           Some odb \<Rightarrow>
             if odb_open_count odb = 0 then (Err ebadf, self)
             else
               and_then (uadd p 32 (odb_open_count odb) 1, self) (\<lambda>n self.
               (Ok (), self\<lparr>zf_open_dirs := (zf_open_dirs self)(handle \<mapsto> odb\<lparr>odb_open_count := n\<rparr>)\<rparr>))
         | None \<Rightarrow>
             and_then (load_dir it self inode, self) (\<lambda>buf self.
             (Ok (), self\<lparr>zf_open_dirs :=
                (zf_open_dirs self)(handle \<mapsto> \<lparr>odb_open_count = 1, odb_buf = buf\<rparr>)\<rparr>)))
        (\<lambda>_ self. (Ok (Some handle, CACHE_DIR), self)))"

definition zip_releasedir :: "ZipFuse \<Rightarrow> inode \<Rightarrow> (io_error, unit) res \<times> ZipFuse" where
  "zip_releasedir self inode =
     (let handle = inode in
      case zf_open_dirs self handle of
        Some odb \<Rightarrow>
          and_then (ok_or ebadf (checked_sub (odb_open_count odb) 1), self) (\<lambda>n self.
          (Ok (), if n = 0 then self\<lparr>zf_open_dirs := (zf_open_dirs self)(handle := None)\<rparr> else self))
      | None \<Rightarrow> (Err ebadf, self))"

text \<open>The \<open>while\<close> loop of \<open>readdir\<close>: the index behind the last entry that is returned.\<close>

function readdir_end ::
  "profile \<Rightarrow> nat \<Rightarrow> (string \<times> DirectoryEntry) list \<Rightarrow> nat \<Rightarrow> nat \<Rightarrow> nat \<Rightarrow> (io_error, nat) res" where
  "readdir_end p dirent_size buf sz estimate end' =
     (if estimate < sz \<and> end' < length buf then
        let name_size = length (fst (buf ! end')) in
        try_r (uadd p 64 dirent_size name_size) (\<lambda>n.
        try_r (uadd p 64 n 7) (\<lambda>n.
        try_r (uadd p 64 estimate (n AND (2 ^ 64 - 1 - 7))) (\<lambda>estimate.
        readdir_end p dirent_size buf sz estimate (end' + 1))))
      else Ok end')"
  by pat_completeness auto
termination
  by (relation "measure (\<lambda>(p, dirent_size, buf, sz, estimate, end'). length buf - end')") auto

declare readdir_end.simps [simp del]

record DirIter =
  dit_inner :: "(string \<times> DirectoryEntry) list"
  dit_offset :: nat
  dit_cur :: nat

definition zip_readdir :: "profile \<Rightarrow> nat \<Rightarrow> ZipFuse \<Rightarrow> inode \<Rightarrow> nat \<Rightarrow> nat \<Rightarrow> (io_error, DirIter) res" where
  "zip_readdir p dirent_size self inode sz offset =
     (let handle = inode in
      try_r (ok_or ebadf (zf_open_dirs self handle)) (\<lambda>odb.
      if odb_open_count odb = 0 then Err ebadf
      else
        let start = offset in
        try_r (readdir_end p dirent_size (odb_buf odb) sz 0 start) (\<lambda>end'.
        try_r (slice (odb_buf odb) start end') (\<lambda>new_buf.
        Ok \<lparr>dit_inner = new_buf, dit_offset = offset, dit_cur = 0\<rparr>))))"

datatype dirent_type = DT_DIR | DT_REG

record zip_dir_entry =
  zde_ino :: nat
  zde_offset :: nat
  zde_type :: dirent_type
  zde_name :: string

definition DirIter_next :: "profile \<Rightarrow> DirIter \<Rightarrow> (io_error, zip_dir_entry option) res \<times> DirIter" where
  "DirIter_next p self =
     (if dit_cur self \<ge> length (dit_inner self) then (Ok None, self)
      else
        case dit_inner self ! dit_cur self of (name, entry) \<Rightarrow>
          let self = self\<lparr>dit_cur := dit_cur self + 1\<rparr> in
          and_then (uadd p 64 (dit_offset self) (dit_cur self), self) (\<lambda>offset self.
          (Ok (Some \<lparr>zde_ino = de_inode entry, zde_offset = offset,
             zde_type = (case de_kind entry of KindDirectory \<Rightarrow> DT_DIR | KindFile \<Rightarrow> DT_REG),
             zde_name = name\<rparr>), self)))"

section \<open>Mounting\<close>

definition ZIPFUSE_MAX_READ :: nat where "ZIPFUSE_MAX_READ = 2 ^ 20"
definition ZIPFUSE_MAX_WRITE :: nat where "ZIPFUSE_MAX_WRITE = 2 ^ 13"

definition run_fuse ::
  "('path, 'e, ZipFuse, 's) fuse_lib \<Rightarrow> ('path \<Rightarrow> (io_error, 'f) res) \<Rightarrow> ('f \<Rightarrow> (io_error, zip_archive) res) \<Rightarrow> 's \<Rightarrow>
   'path \<Rightarrow> 'path \<Rightarrow> ('e zipfuse_error, unit) res \<times> 's" where
  "run_fuse lib open_file zip_archive_new s zip_file mount_point =
     and_then (map_err_st ZipfuseIo (open_dev_fuse lib s)) (\<lambda>dev_fuse s.
     and_then (map_err_st ZipfuseFuse (fuse_mount lib s mount_point ''zipfuse''
         (MS_NOSUID OR MS_NODEV OR MS_RDONLY)
         [MountFD dev_fuse, RootMode (S_IFDIR OR S_IXUSR OR S_IXGRP OR S_IXOTH), AllowOther,
          UserId 0, GroupId 0, MaxRead ZIPFUSE_MAX_READ])) (\<lambda>_ s.
     and_then (ZipFuse_new open_file zip_archive_new zip_file, s) (\<lambda>fs s.
     map_err_st ZipfuseFuse (start_message_loop lib s dev_fuse ZIPFUSE_MAX_READ ZIPFUSE_MAX_WRITE fs))))"

end
