(* ===== verification/Zipfuse_Correct.thy ===== *)
theory Zipfuse_Correct
  imports Zipfuse
begin

text \<open>
  Properties of the zip file system (theory \<open>Zipfuse\<close>). Open files and open directories are counted the same
  way; \<open>handle_table\<close> is what both have in common, and its lemmas hold for both by the two interpretations.
  \<open>zip_step\<close> is one request that may change the state, and \<open>zip_inv\<close> the invariant: the buffer of an open
  file is the contents of the file in the archive, the buffer of an open directory its entries.
\<close>

section \<open>Counted handles\<close>

locale handle_table =
  fixes p :: profile
    and handles :: "'s \<Rightarrow> nat \<Rightarrow> (nat \<times> 'b) option"
    and load :: "'s \<Rightarrow> nat \<Rightarrow> (io_error, 'b) res"
    and acquire :: "'s \<Rightarrow> nat \<Rightarrow> (io_error, 'o) res \<times> 's"
    and release :: "'s \<Rightarrow> nat \<Rightarrow> (io_error, unit) res \<times> 's"
  assumes acquire_new: "handles s h = None \<Longrightarrow> load s h = Ok b \<Longrightarrow>
      (\<exists>r. fst (acquire s h) = Ok r) \<and> handles (snd (acquire s h)) = (handles s)(h \<mapsto> (1, b))"
    and acquire_fails: "handles s h = None \<Longrightarrow> (\<And>b. load s h \<noteq> Ok b) \<Longrightarrow> snd (acquire s h) = s"
    and acquire_again: "handles s h = Some (n, b) \<Longrightarrow> n \<noteq> 0 \<Longrightarrow> n + 1 < 2 ^ 32 \<Longrightarrow>
      (\<exists>r. fst (acquire s h) = Ok r) \<and> handles (snd (acquire s h)) = (handles s)(h \<mapsto> (n + 1, b))"
    and acquire_wraps: "handles s h = Some (n, b) \<Longrightarrow> n \<noteq> 0 \<Longrightarrow> n + 1 \<ge> 2 ^ 32 \<Longrightarrow>
      snd (acquire s h) = s \<or> (\<exists>m. handles (snd (acquire s h)) = (handles s)(h \<mapsto> (m, b)))"
    and acquire_dead: "handles s h = Some (0, b) \<Longrightarrow> acquire s h = (Err (Os EBADF), s)"
    and release_last: "handles s h = Some (1, b) \<Longrightarrow>
      fst (release s h) = Ok () \<and> handles (snd (release s h)) = (handles s)(h := None)"
    and release_shared: "handles s h = Some (n, b) \<Longrightarrow> n > 1 \<Longrightarrow> release s h = (Ok (), s)"
    and release_dead: "handles s h = Some (0, b) \<Longrightarrow> release s h = (Err (Os EBADF), s)"
    and release_none: "handles s h = None \<Longrightarrow> release s h = (Err (Os EBADF), s)"
    and load_acquire: "load (snd (acquire s h)) = load s"
    and load_release: "load (snd (release s h)) = load s"
begin

text \<open>Every open buffer is what loading it again would give.\<close>

definition backed :: "'s \<Rightarrow> bool" where
  "backed s \<longleftrightarrow> (\<forall>h n b. handles s h = Some (n, b) \<longrightarrow> load s h = Ok b)"

lemma backed_upd:
  assumes "backed s" "handles s' = (handles s)(h := x)" "load s' = load s"
    and "\<And>m b. x = Some (m, b) \<Longrightarrow> load s h = Ok b"
  shows "backed s'"
  unfolding backed_def
proof (intro allI impI)
  fix k n b
  assume k: "handles s' k = Some (n, b)"
  show "load s' k = Ok b"
    using k assms(2-4) assms(1)[unfolded backed_def, rule_format, of k n b] by (cases "k = h") simp_all
qed

lemma backed_acquire:
  assumes "backed s"
  shows "backed (snd (acquire s h))"
proof (cases "handles s h")
  case None
  show ?thesis
  proof (cases "\<exists>b. load s h = Ok b")
    case True
    then obtain b where b: "load s h = Ok b" by blast
    with acquire_new[OF None this] show ?thesis by (intro backed_upd[OF assms _ load_acquire]) auto
  next
    case False
    then have "snd (acquire s h) = s" by (intro acquire_fails[OF None]) blast
    with assms show ?thesis by simp
  qed
next
  case (Some nb)
  obtain n b where nb: "nb = (n, b)" by (cases nb)
  have b: "load s h = Ok b" using assms Some nb by (simp add: backed_def)
  consider "n = 0" | "n \<noteq> 0" "n + 1 < 2 ^ 32" | "n \<noteq> 0" "n + 1 \<ge> 2 ^ 32" by linarith
  then show ?thesis
  proof cases
    case 1
    with acquire_dead[of s h b] Some nb assms show ?thesis by simp
  next
    case 2
    with acquire_again[of s h n b] Some nb b show ?thesis by (intro backed_upd[OF assms _ load_acquire]) auto
  next
    case 3
    with acquire_wraps[of s h n b] Some nb have "snd (acquire s h) = s \<or>
      (\<exists>m. handles (snd (acquire s h)) = (handles s)(h \<mapsto> (m, b)))" by simp
    then show ?thesis
    proof
      assume "\<exists>m. handles (snd (acquire s h)) = (handles s)(h \<mapsto> (m, b))"
      with b show ?thesis by (elim exE) (rule backed_upd[OF assms _ load_acquire], auto)
    qed (simp add: assms)
  qed
qed

lemma release_cases:
  "snd (release s h) = s \<or> handles (snd (release s h)) = (handles s)(h := None)"
proof (cases "handles s h")
  case None
  then show ?thesis by (simp add: release_none)
next
  case (Some nb)
  obtain n b where nb: "nb = (n, b)" by (cases nb)
  consider "n = 0" | "n = 1" | "n > 1" by linarith
  then show ?thesis
  proof cases
    case 1
    with release_dead[of s h b] Some nb show ?thesis by simp
  next
    case 2
    with release_last[of s h b] Some nb show ?thesis by simp
  next
    case 3
    with release_shared[of s h n b] Some nb show ?thesis by simp
  qed
qed

lemma backed_release:
  assumes "backed s"
  shows "backed (snd (release s h))"
  using release_cases[of s h] assms backed_upd[OF assms _ load_release, of h h None] by auto

text \<open>After at most \<open>k\<close> requests every count is positive and at most \<open>k\<close>.\<close>

definition counted :: "nat \<Rightarrow> 's \<Rightarrow> bool" where
  "counted k s \<longleftrightarrow> (\<forall>h n b. handles s h = Some (n, b) \<longrightarrow> 0 < n \<and> n \<le> k)"

lemma counted_upd:
  assumes "counted k s" "k \<le> k'" "handles s' = (handles s)(h := x)" "\<And>m b. x = Some (m, b) \<Longrightarrow> 0 < m \<and> m \<le> k'"
  shows "counted k' s'"
  unfolding counted_def
proof (intro allI impI)
  fix i n b
  assume "handles s' i = Some (n, b)"
  with assms(2-4) assms(1)[unfolded counted_def, rule_format, of i n b] show "0 < n \<and> n \<le> k'"
    by (cases "i = h") auto
qed

lemma counted_mono: "counted k s \<Longrightarrow> k \<le> k' \<Longrightarrow> counted k' s"
  unfolding counted_def by (meson order_trans)

lemma counted_acquire:
  assumes "counted k s" "k + 1 < 2 ^ 32"
  shows "counted (k + 1) (snd (acquire s h))"
proof (cases "handles s h")
  case None
  show ?thesis
  proof (cases "\<exists>b. load s h = Ok b")
    case True
    then obtain b where "load s h = Ok b" by blast
    with acquire_new[OF None this] show ?thesis by (intro counted_upd[OF assms(1)]) auto
  next
    case False
    then have "snd (acquire s h) = s" by (intro acquire_fails[OF None]) blast
    with counted_mono[OF assms(1), of "k + 1"] show ?thesis by simp
  qed
next
  case (Some nb)
  obtain n b where nb: "nb = (n, b)" by (cases nb)
  with Some assms(1) have n: "0 < n" "n \<le> k" by (auto simp: counted_def)
  with acquire_again[of s h n b] Some nb assms(2) show ?thesis by (intro counted_upd[OF assms(1)]) auto
qed

lemma counted_release:
  assumes "counted k s"
  shows "counted (k + 1) (snd (release s h))"
  using release_cases[of s h] counted_mono[OF assms, of "k + 1"] counted_upd[OF assms, of "k + 1" _ h None] by auto

text \<open>Opening and releasing once restores the table.\<close>

lemma acquire_release:
  assumes "handles s h = None" "load s h = Ok b"
  shows "fst (release (snd (acquire s h)) h) = Ok () \<and> handles (snd (release (snd (acquire s h)) h)) = handles s"
proof -
  have "handles (snd (acquire s h)) = (handles s)(h \<mapsto> (1, b))" using acquire_new[OF assms] by simp
  with release_last[of "snd (acquire s h)" h b] assms(1) show ?thesis by (simp add: fun_upd_idem)
qed

lemma other_handle: "h' \<noteq> h \<Longrightarrow> handles (snd (acquire s h')) h = handles s h"
proof (cases "handles s h'")
  case None
  assume ne: "h' \<noteq> h"
  show ?thesis
  proof (cases "\<exists>b. load s h' = Ok b")
    case True
    then obtain b where "load s h' = Ok b" by blast
    with acquire_new[OF None this] ne show ?thesis by simp
  next
    case False
    then have "snd (acquire s h') = s" by (intro acquire_fails[OF None]) blast
    then show ?thesis by simp
  qed
next
  case (Some nb)
  assume ne: "h' \<noteq> h"
  obtain n b where nb: "nb = (n, b)" by (cases nb)
  consider "n = 0" | "n \<noteq> 0" "n + 1 < 2 ^ 32" | "n \<noteq> 0" "n + 1 \<ge> 2 ^ 32" by linarith
  then show ?thesis
  proof cases
    case 1
    with acquire_dead[of s h' b] Some nb show ?thesis by simp
  next
    case 2
    with acquire_again[of s h' n b] Some nb ne show ?thesis by simp
  next
    case 3
    with acquire_wraps[of s h' n b] Some nb ne show ?thesis by auto
  qed
qed

text \<open>A buffer that was opened twice is not dropped: a release does not store the decremented count.\<close>

definition shared_grows :: "nat \<Rightarrow> nat \<Rightarrow> 'b \<Rightarrow> 's \<Rightarrow> bool" where
  "shared_grows h n b s \<longleftrightarrow> (\<exists>m. n \<le> m \<and> m \<le> n + 1 \<and> handles s h = Some (m, b))"

lemma shared_acquire:
  assumes "handles s h = Some (n, b)" "1 < n" "n + 1 < 2 ^ 32"
  shows "shared_grows h n b (snd (acquire s h'))"
proof (cases "h' = h")
  case True
  with acquire_again[OF assms(1)] assms(2,3) show ?thesis by (simp add: shared_grows_def)
next
  case False
  with other_handle[of h' h s] assms(1) show ?thesis by (simp add: shared_grows_def)
qed

lemma shared_release:
  assumes "handles s h = Some (n, b)" "1 < n"
  shows "shared_grows h n b (snd (release s h'))"
proof (cases "h' = h")
  case True
  with release_shared[OF assms] assms(1) show ?thesis by (simp add: shared_grows_def)
next
  case False
  with release_cases[of s h'] assms(1) show ?thesis by (auto simp: shared_grows_def)
qed

end

definition file_handles :: "ZipFuse \<Rightarrow> nat \<Rightarrow> (nat \<times> bytes) option" where
  "file_handles s h = map_option (\<lambda>o'. (ofb_open_count o', ofb_buf o')) (zf_open_files s h)"

definition dir_handles :: "ZipFuse \<Rightarrow> nat \<Rightarrow> (nat \<times> (string \<times> DirectoryEntry) list) option" where
  "dir_handles s h = map_option (\<lambda>o'. (odb_open_count o', odb_buf o')) (zf_open_dirs s h)"

lemma load_cong:
  "zf_inode_table s' = zf_inode_table s \<Longrightarrow> zf_archive s' = zf_archive s \<Longrightarrow> load_file s' = load_file s"
  "zf_inode_table s' = zf_inode_table s \<Longrightarrow> load_dir it s' = load_dir it s"
  by (simp_all add: fun_eq_iff load_file_def load_dir_def find_inode_def)

definition put_file :: "ZipFuse \<Rightarrow> nat \<Rightarrow> OpenFileBuf option \<Rightarrow> ZipFuse" where
  "put_file s h x = s\<lparr>zf_open_files := (zf_open_files s)(h := x)\<rparr>"

definition put_dir :: "ZipFuse \<Rightarrow> nat \<Rightarrow> OpenDirBuf option \<Rightarrow> ZipFuse" where
  "put_dir s h x = s\<lparr>zf_open_dirs := (zf_open_dirs s)(h := x)\<rparr>"

text \<open>A result that decides the new state.\<close>

primrec commit :: "('e, 'a) res \<Rightarrow> 's \<Rightarrow> ('a \<Rightarrow> 'b \<times> 's) \<Rightarrow> ('e, 'b) res \<times> 's" where
  "commit (Ok x) s f = (Ok (fst (f x)), snd (f x))"
| "commit (Err e) s f = (Err e, s)"
| "commit Panic s f = (Panic, s)"
| "commit Hang s f = (Hang, s)"

lemma and_then_commit:
  "and_then (and_then (m, s) (\<lambda>x s. (Ok u, f x s))) (\<lambda>_ s. (Ok r, s)) = commit m s (\<lambda>x. (r, f x s))"
  by (cases m) simp_all

lemma zip_open_eq:
  "zip_open p s h =
     (case zf_open_files s h of
        None \<Rightarrow> commit (load_file s h) s (\<lambda>b. ((Some h, OpenOptions_empty), put_file s h (Some \<lparr>ofb_open_count = 1, ofb_buf = b\<rparr>)))
      | Some x \<Rightarrow> if ofb_open_count x = 0 then (Err ebadf, s)
          else commit (uadd p 32 (ofb_open_count x) 1) s (\<lambda>n. ((Some h, OpenOptions_empty), put_file s h (Some (x\<lparr>ofb_open_count := n\<rparr>)))))"
  by (simp add: zip_open_def put_file_def and_then_commit split: option.split)

lemma zip_opendir_eq:
  "zip_opendir p it s h =
     (case zf_open_dirs s h of
        None \<Rightarrow> commit (load_dir it s h) s (\<lambda>b. ((Some h, CACHE_DIR), put_dir s h (Some \<lparr>odb_open_count = 1, odb_buf = b\<rparr>)))
      | Some x \<Rightarrow> if odb_open_count x = 0 then (Err ebadf, s)
          else commit (uadd p 32 (odb_open_count x) 1) s (\<lambda>n. ((Some h, CACHE_DIR), put_dir s h (Some (x\<lparr>odb_open_count := n\<rparr>)))))"
  by (simp add: zip_opendir_def put_dir_def and_then_commit split: option.split)

lemma zip_release_eq:
  "zip_release s h =
     (case zf_open_files s h of
        None \<Rightarrow> (Err ebadf, s)
      | Some x \<Rightarrow> if ofb_open_count x = 0 then (Err ebadf, s)
          else (Ok (), if ofb_open_count x = 1 then put_file s h None else s))"
  by (auto simp: zip_release_def put_file_def checked_sub_def split: option.split)

lemma zip_releasedir_eq:
  "zip_releasedir s h =
     (case zf_open_dirs s h of
        None \<Rightarrow> (Err ebadf, s)
      | Some x \<Rightarrow> if odb_open_count x = 0 then (Err ebadf, s)
          else (Ok (), if odb_open_count x = 1 then put_dir s h None else s))"
  by (auto simp: zip_releasedir_def put_dir_def checked_sub_def split: option.split)

lemmas handler_eqs = zip_open_eq zip_opendir_eq zip_release_eq zip_releasedir_eq

lemma snd_commit: "snd (commit m s f) = (case m of Ok x \<Rightarrow> snd (f x) | _ \<Rightarrow> s)"
  by (cases m) simp_all

lemma put_simps [simp]:
  "zf_inode_table (put_file s h x) = zf_inode_table s" "zf_archive (put_file s h x) = zf_archive s"
  "zf_inode_table (put_dir s h y) = zf_inode_table s" "zf_archive (put_dir s h y) = zf_archive s"
  "zf_open_files (put_file s h x) = (zf_open_files s)(h := x)" "zf_open_dirs (put_file s h x) = zf_open_dirs s"
  "zf_open_dirs (put_dir s h y) = (zf_open_dirs s)(h := y)" "zf_open_files (put_dir s h y) = zf_open_files s"
  by (simp_all add: put_file_def put_dir_def)

lemma file_handles_put [simp]:
  "file_handles (put_file s h x) = (file_handles s)(h := map_option (\<lambda>o'. (ofb_open_count o', ofb_buf o')) x)"
  "dir_handles (put_dir s h y) = (dir_handles s)(h := map_option (\<lambda>o'. (odb_open_count o', odb_buf o')) y)"
  "file_handles (put_dir s h y) = file_handles s" "dir_handles (put_file s h x) = dir_handles s"
  by (simp_all add: fun_eq_iff file_handles_def dir_handles_def)

text \<open>No handler changes the table or the archive; the handlers of files leave the directories alone.\<close>

lemma handlers_keep:
  "zf_inode_table (snd (zip_open p s h)) = zf_inode_table s \<and> zf_archive (snd (zip_open p s h)) = zf_archive s \<and>
     dir_handles (snd (zip_open p s h)) = dir_handles s"
  "zf_inode_table (snd (zip_release s h)) = zf_inode_table s \<and> zf_archive (snd (zip_release s h)) = zf_archive s \<and>
     dir_handles (snd (zip_release s h)) = dir_handles s"
  "zf_inode_table (snd (zip_opendir p it s h)) = zf_inode_table s \<and> zf_archive (snd (zip_opendir p it s h)) = zf_archive s \<and>
     file_handles (snd (zip_opendir p it s h)) = file_handles s"
  "zf_inode_table (snd (zip_releasedir s h)) = zf_inode_table s \<and> zf_archive (snd (zip_releasedir s h)) = zf_archive s \<and>
     file_handles (snd (zip_releasedir s h)) = file_handles s"
  by (simp_all add: handler_eqs snd_commit split: option.split res.split)

lemma load_keep:
  "load_file (snd (zip_open p s h)) = load_file s" "load_file (snd (zip_release s h)) = load_file s"
  "load_dir it (snd (zip_opendir p it' s h)) = load_dir it s" "load_dir it (snd (zip_releasedir s h)) = load_dir it s"
  by (rule load_cong; simp add: handlers_keep)+

lemma handles_iff [simp]:
  "file_handles s h = None \<longleftrightarrow> zf_open_files s h = None"
  "file_handles s h = Some (n, b) \<longleftrightarrow> zf_open_files s h = Some \<lparr>ofb_open_count = n, ofb_buf = b\<rparr>"
  "dir_handles s h = None \<longleftrightarrow> zf_open_dirs s h = None"
  "dir_handles s h = Some (n, c) \<longleftrightarrow> zf_open_dirs s h = Some \<lparr>odb_open_count = n, odb_buf = c\<rparr>"
  by (auto simp: file_handles_def dir_handles_def)

interpretation files: handle_table p file_handles load_file "zip_open p" zip_release for p
proof (unfold_locales, goal_cases)
  case (2 s h)
  then show ?case by (cases "load_file s h") (auto simp: zip_open_eq)
next
  case (3 s h n b)
  then show ?case by (simp add: zip_open_eq uadd_ok)
next
  case (4 s h n b)
  then show ?case by (cases "uadd p 32 n 1 :: (io_error, nat) res") (auto simp: zip_open_eq)
qed (simp_all add: load_keep, simp_all add: handler_eqs ebadf_def)

interpretation dirs: handle_table p dir_handles "load_dir it" "zip_opendir p it" zip_releasedir for p it
proof (unfold_locales, goal_cases)
  case (2 s h)
  then show ?case by (cases "load_dir it s h") (auto simp: zip_opendir_eq)
next
  case (3 s h n b)
  then show ?case by (simp add: zip_opendir_eq uadd_ok)
next
  case (4 s h n b)
  then show ?case by (cases "uadd p 32 n 1 :: (io_error, nat) res") (auto simp: zip_opendir_eq)
qed (simp_all add: load_keep, simp_all add: handler_eqs ebadf_def)

section \<open>Requests\<close>

text \<open>One request that may change the state. A panic ends the process.\<close>

type_synonym dir_order = "inode \<Rightarrow> (string \<times> DirectoryEntry) list \<Rightarrow> (string \<times> DirectoryEntry) list"

inductive zip_step :: "profile \<Rightarrow> dir_order \<Rightarrow> ZipFuse \<Rightarrow> ZipFuse \<Rightarrow> bool" for p it where
  step_open: "zip_open p s h = (r, s') \<Longrightarrow> r \<noteq> Panic \<Longrightarrow> zip_step p it s s'"
| step_release: "zip_release s h = (r, s') \<Longrightarrow> r \<noteq> Panic \<Longrightarrow> zip_step p it s s'"
| step_opendir: "zip_opendir p it s h = (r, s') \<Longrightarrow> r \<noteq> Panic \<Longrightarrow> zip_step p it s s'"
| step_releasedir: "zip_releasedir s h = (r, s') \<Longrightarrow> r \<noteq> Panic \<Longrightarrow> zip_step p it s s'"

definition zip_inv :: "dir_order \<Rightarrow> zip_archive \<Rightarrow> ZipFuse \<Rightarrow> bool" where
  "zip_inv it archive s \<longleftrightarrow>
     zf_archive s = archive \<and> from_zip archive = Ok (zf_inode_table s) \<and> files.backed s \<and> dirs.backed it s"

definition zip_counted :: "nat \<Rightarrow> ZipFuse \<Rightarrow> bool" where
  "zip_counted k s \<longleftrightarrow> files.counted k s \<and> dirs.counted k s"

lemma files_dirs_cong:
  "file_handles s' = file_handles s \<Longrightarrow> load_file s' = load_file s \<Longrightarrow> files.backed s' = files.backed s"
  "file_handles s' = file_handles s \<Longrightarrow> files.counted k s' = files.counted k s"
  "dir_handles s' = dir_handles s \<Longrightarrow> load_dir it s' = load_dir it s \<Longrightarrow> dirs.backed it s' = dirs.backed it s"
  "dir_handles s' = dir_handles s \<Longrightarrow> dirs.counted k s' = dirs.counted k s"
  by (simp_all only: files.backed_def files.counted_def dirs.backed_def dirs.counted_def)

lemma new_inv:
  assumes "open_file zip_path = Ok f" "zip_new f = Ok archive" "ZipFuse_new open_file zip_new zip_path = Ok s"
  shows "zip_inv it archive s" "zip_counted 0 s"
  using assms by (auto simp: ZipFuse_new_def try_r_Ok_iff zip_inv_def zip_counted_def files.backed_def dirs.backed_def
      files.counted_def dirs.counted_def)

text \<open>A request on files changes only the file handles, one on directories only the directory handles.\<close>

lemma file_request_inv:
  assumes "zip_inv it archive s" "files.backed s'"
    and "zf_inode_table s' = zf_inode_table s \<and> zf_archive s' = zf_archive s \<and> dir_handles s' = dir_handles s"
  shows "zip_inv it archive s'"
  using assms files_dirs_cong(3)[of s' s it] load_cong(2)[of s' s it] by (simp add: zip_inv_def)

lemma dir_request_inv:
  assumes "zip_inv it archive s" "dirs.backed it s'"
    and "zf_inode_table s' = zf_inode_table s \<and> zf_archive s' = zf_archive s \<and> file_handles s' = file_handles s"
  shows "zip_inv it archive s'"
  using assms files_dirs_cong(1)[of s' s] load_cong(1)[of s' s] by (simp add: zip_inv_def)

lemma file_request_counted:
  assumes "zip_counted k s" "k \<le> k'" "files.counted k' s'" "dir_handles s' = dir_handles s"
  shows "zip_counted k' s'"
  using assms dirs.counted_mono[of k s k'] files_dirs_cong(4)[of s' s k'] by (simp add: zip_counted_def)

lemma dir_request_counted:
  assumes "zip_counted k s" "k \<le> k'" "dirs.counted k' s'" "file_handles s' = file_handles s"
  shows "zip_counted k' s'"
  using assms files.counted_mono[of k s k'] files_dirs_cong(2)[of s' s k'] by (simp add: zip_counted_def)

lemma step_inv:
  assumes "zip_step p it s s'" "zip_inv it archive s"
  shows "zip_inv it archive s'"
proof -
  have b: "files.backed s" "dirs.backed it s" using assms(2) by (simp_all add: zip_inv_def)
  from assms(1) show ?thesis
  proof cases
    case (step_open h r)
    with file_request_inv[OF assms(2) files.backed_acquire[OF b(1)] handlers_keep(1)[of p s h]] show ?thesis by simp
  next
    case (step_release h r)
    with file_request_inv[OF assms(2) files.backed_release[OF b(1)] handlers_keep(2)[of s h]] show ?thesis by simp
  next
    case (step_opendir h r)
    with dir_request_inv[OF assms(2) dirs.backed_acquire[OF b(2)] handlers_keep(3)[of p it s h]] show ?thesis by simp
  next
    case (step_releasedir h r)
    with dir_request_inv[OF assms(2) dirs.backed_release[OF b(2)] handlers_keep(4)[of s h]] show ?thesis by simp
  qed
qed

lemma step_counted:
  assumes "zip_step p it s s'" "zip_counted k s" "k + 1 < 2 ^ 32"
  shows "zip_counted (k + 1) s'"
proof -
  have c: "files.counted k s" "dirs.counted k s" using assms(2) by (simp_all add: zip_counted_def)
  note fr = file_request_counted[OF assms(2) le_add1] and dr = dir_request_counted[OF assms(2) le_add1]
  from assms(1) show ?thesis
  proof cases
    case (step_open h r)
    with fr[OF files.counted_acquire[OF c(1) assms(3)], of p h] handlers_keep(1)[of p s h] show ?thesis by simp
  next
    case (step_release h r)
    with fr[OF files.counted_release[OF c(1)], of h] handlers_keep(2)[of s h] show ?thesis by simp
  next
    case (step_opendir h r)
    with dr[OF dirs.counted_acquire[OF c(2) assms(3)], of p it h] handlers_keep(3)[of p it s h] show ?thesis by simp
  next
    case (step_releasedir h r)
    with dr[OF dirs.counted_release[OF c(2)], of h] handlers_keep(4)[of s h] show ?thesis by simp
  qed
qed

lemma steps_inv: "(zip_step p it ^^ k) s s' \<Longrightarrow> zip_inv it archive s \<Longrightarrow> zip_inv it archive s'"
  by (induction k arbitrary: s') (auto intro: step_inv)

lemma steps_counted:
  "(zip_step p it ^^ k) s s' \<Longrightarrow> zip_counted j s \<Longrightarrow> j + k < 2 ^ 32 \<Longrightarrow> zip_counted (j + k) s'"
proof (induction k arbitrary: s')
  case (Suc k)
  then obtain m where m: "(zip_step p it ^^ k) s m" "zip_step p it m s'" by auto
  have "zip_counted (j + k) m" using Suc.IH[OF m(1)] Suc.prems by simp
  from step_counted[OF m(2) this] Suc.prems(3) show ?case by simp
qed simp

lemma step_shared:
  assumes "zip_step p it s s'" "file_handles s h = Some (n, b)" "1 < n" "n + 1 < 2 ^ 32"
  shows "files.shared_grows h n b s'"
  using assms(1)
proof cases
  case (step_open h' r)
  with files.shared_acquire[OF assms(2-4), of p h'] show ?thesis by simp
next
  case (step_release h' r)
  with files.shared_release[OF assms(2,3), of h'] show ?thesis by simp
next
  case (step_opendir h' r)
  with handlers_keep(3)[of p it s h'] assms(2) show ?thesis by (simp add: files.shared_grows_def)
next
  case (step_releasedir h' r)
  with handlers_keep(4)[of s h'] assms(2) show ?thesis by (simp add: files.shared_grows_def)
qed

lemma steps_shared:
  "(zip_step p it ^^ k) s s' \<Longrightarrow> file_handles s h = Some (n, b) \<Longrightarrow> 1 < n \<Longrightarrow> n + k < 2 ^ 32 \<Longrightarrow>
   \<exists>m. n \<le> m \<and> m \<le> n + k \<and> file_handles s' h = Some (m, b)"
proof (induction k arbitrary: s')
  case (Suc k)
  then obtain x where x: "(zip_step p it ^^ k) s x" "zip_step p it x s'" by auto
  have "n + k < 2 ^ 32" using Suc.prems(4) by simp
  from Suc.IH[OF x(1) Suc.prems(2,3) this] obtain m where
    m: "n \<le> m" "m \<le> n + k" "file_handles x h = Some (m, b)" by blast
  have "1 < m" "m + 1 < 2 ^ 32" using m(1,2) Suc.prems(3,4) by simp_all
  from step_shared[OF x(2) m(3) this] obtain j where "m \<le> j" "j \<le> m + 1" "file_handles s' h = Some (j, b)"
    unfolding files.shared_grows_def by blast
  with m(1,2) show ?case by (intro exI[of _ j]) simp
qed auto

section \<open>Paths\<close>

text \<open>The kernel resolves a path by looking up one component after the other.\<close>

fun zip_walk :: "profile \<Rightarrow> nat \<Rightarrow> ZipFuse \<Rightarrow> inode \<Rightarrow> string list \<Rightarrow> (io_error, inode) res" where
  "zip_walk p nlink_w s i [] = Ok i"
| "zip_walk p nlink_w s i (name # path) =
     try_r (zip_lookup p nlink_w s i name) (\<lambda>e. zip_walk p nlink_w s (zfe_inode e) path)"

text \<open>No directory has so many entries that \<open>st_nlink\<close> overflows.\<close>

definition dirs_fit :: "nat \<Rightarrow> InodeTable \<Rightarrow> bool" where
  "dirs_fit nlink_w t \<longleftrightarrow>
     (\<forall>d \<in> set (table t). \<forall>es. get_directory d = Some es \<longrightarrow> length es + 2 < 2 ^ nlink_w)"

lemma lookup_child:
  "zip_lookup p nlink_w s i name = Ok e \<Longrightarrow> child (zf_inode_table s) i name = Some (zfe_inode e)"
  by (auto simp: zip_lookup_def find_inode_def child_def try_r_Ok_iff split: option.splits)

lemma walk_resolve: "zip_walk p nlink_w s i path = Ok j \<Longrightarrow> resolve (zf_inode_table s) i path = Some j"
  by (induction path arbitrary: i) (auto simp: try_r_Ok_iff dest: lookup_child)

lemma stat_from_ok:
  assumes "InodeTable_get (zf_inode_table s) i = Some d" "dirs_fit nlink_w (zf_inode_table s)"
  shows "stat_from p nlink_w s i = Ok
    \<lparr>zst_nlink = (case get_directory d of Some es \<Rightarrow> length es + 2 | None \<Rightarrow> 1), zst_ino = i,
     zst_mode = (if is_dir d then S_IFDIR else S_IFREG) OR id_mode d,
     zst_size = min (int (id_size d)) (2 ^ 63 - 1)\<rparr>"
proof -
  have "d \<in> set (table (zf_inode_table s))" using assms(1) by (auto simp: InodeTable_get_def split: if_splits)
  then have "length es + 2 < 2 ^ nlink_w" if "get_directory d = Some es" for es
    using assms(2) that by (simp add: dirs_fit_def)
  then have "(case get_directory d of Some es \<Rightarrow> uadd p nlink_w 2 (length es mod 2 ^ nlink_w) | None \<Rightarrow> Ok 1) =
    (Ok (case get_directory d of Some es \<Rightarrow> length es + 2 | None \<Rightarrow> 1) :: (io_error, nat) res)"
    by (cases "get_directory d") (simp_all add: uadd_ok)
  with assms(1) show ?thesis by (auto simp: stat_from_def find_inode_def)
qed

lemma walk_ok:
  assumes "inode_wf (zf_inode_table s)" "dirs_fit nlink_w (zf_inode_table s)"
  shows "resolve (zf_inode_table s) i path = Some j \<Longrightarrow> zip_walk p nlink_w s i path = Ok j"
proof (induction path arbitrary: i)
  case (Cons name path)
  then obtain k where k: "child (zf_inode_table s) i name = Some k" "resolve (zf_inode_table s) k path = Some j"
    by (auto split: option.splits)
  then obtain d es e where d: "InodeTable_get (zf_inode_table s) i = Some d" "get_directory d = Some es"
    "map_of es name = Some e" "de_inode e = k" by (auto simp: child_def split: option.splits)
  have "\<exists>d'. InodeTable_get (zf_inode_table s) k = Some d'"
    using wf_child(2,3)[OF assms(1) k(1)] by (simp add: InodeTable_get_def INVALID_def)
  then obtain d' where "InodeTable_get (zf_inode_table s) k = Some d'" by blast
  from stat_from_ok[OF this assms(2), of p] d Cons.IH[OF k(2)] show ?case by (simp add: zip_lookup_def find_inode_def)
qed simp

section \<open>Reading files\<close>

lemma zip_read_Ok:
  assumes "zip_read p s h wr w n off = (Ok k, w')" "off < 2 ^ 64" "n < 2 ^ 64"
  obtains c data where "file_handles s h = Some (c, data)" "0 < c" "off \<le> length data"
    "wr w (take n (drop off data)) = (Ok k, w')"
proof -
  from assms(1) obtain x e d where x: "zf_open_files s h = Some x" "ofb_open_count x \<noteq> 0"
    "(uadd p 64 off n :: (io_error, nat) res) = Ok e"
    "(slice (ofb_buf x) off (min e (length (ofb_buf x))) :: (io_error, bytes) res) = Ok d" "wr w d = (Ok k, w')"
    by (auto simp: zip_read_def and_then_Ok_iff Let_def split: if_splits)
  have oe: "off \<le> e" "off \<le> length (ofb_buf x)" using x(4) by (auto simp: slice_def split: if_splits)
  have "e = (off + n) mod 2 ^ 64" by (rule uadd_Ok_mod[OF x(3)])
  moreover have "off + n < 2 ^ 64"
  proof (rule ccontr)
    assume "\<not> off + n < 2 ^ 64"
    with assms(2,3) have "(off + n) mod 2 ^ 64 = off + n - 2 ^ 64" by (subst mod_if) (simp add: mod_less)
    with calculation oe(1) assms(3) \<open>\<not> off + n < 2 ^ 64\<close> show False by simp
  qed
  ultimately have e: "e = off + n" by simp
  have "d = take n (drop off (ofb_buf x))"
    using x(4) oe by (auto simp: e slice_def min_def split: if_splits)
  with that[of "ofb_open_count x" "ofb_buf x"] x oe show ?thesis by (simp add: file_handles_def)
qed

lemma zip_read_collects:
  assumes "file_handles s h = Some (c, data)" "0 < c" "collects wr out" "off \<le> length data" "off + n < 2 ^ 64"
  shows "\<exists>w'. zip_read p s h wr w n off = (Ok (min n (length data - off)), w') \<and> out w' = out w @ take n (drop off data)"
proof -
  have "(slice data off (min (off + n) (length data)) :: (io_error, bytes) res) = Ok (take n (drop off data))"
    using assms(4) by (auto simp: slice_def min_def)
  moreover obtain w' where "wr w (take n (drop off data)) = (Ok (length (take n (drop off data))), w')"
    "out w' = out w @ take n (drop off data)" using assms(3) unfolding collects_def by blast
  ultimately show ?thesis using assms by (auto simp: zip_read_def uadd_ok min.commute)
qed

lemma open_counted:
  assumes "files.backed s" "files.counted k s" "k + 1 < 2 ^ 32" "load_file s h = Ok data"
  shows "\<exists>s' c. zip_open p s h = (Ok (Some h, OpenOptions_empty), s') \<and> file_handles s' h = Some (c, data) \<and> 0 < c"
proof (cases "zf_open_files s h")
  case None
  then show ?thesis using assms(4) by (simp add: zip_open_eq)
next
  case (Some x)
  then have "file_handles s h = Some (ofb_open_count x, ofb_buf x)" by (simp add: file_handles_def)
  with assms(1,2,4) have "ofb_buf x = data" "0 < ofb_open_count x" "ofb_open_count x \<le> k"
    unfolding files.backed_def files.counted_def by fastforce+
  with Some assms(3) show ?thesis by (cases x) (simp add: zip_open_eq uadd_ok)
qed

text \<open>The contents of the file that an inode stands for.\<close>

lemma load_file_Ok:
  assumes "zip_inv it archive s" "load_file s ino = Ok data"
  obtains i zf path where "i < za_len archive" "entry_at archive i zf path" "ze_is_file zf" "ze_data zf = Ok data"
    "resolve (zf_inode_table s) ROOT path = Some ino"
proof -
  from assms obtain d i zf where d: "InodeTable_get (zf_inode_table s) ino = Some d" "get_zip_index d = Some i"
    "za_by_index archive i = Ok zf" "ze_data zf = Ok data"
    by (auto simp: load_file_def find_inode_def try_r_Ok_iff zip_inv_def)
  have t: "describes archive (za_len archive) (zf_inode_table s)"
    using assms(1) fold_describes by (simp add: zip_inv_def from_zip_eq)
  have "ino < length (table (zf_inode_table s))" "id_data (table (zf_inode_table s) ! ino) = File i"
    using d(1,2) by (auto simp: InodeTable_get_def get_zip_index_def split: if_splits InodeDataData.splits)
  from describesD[OF t this] obtain zf' path where "i < za_len archive" "entry_at archive i zf' path"
    "ze_is_file zf'" "resolve (zf_inode_table s) ROOT path = Some ino" by blast
  with that[of i zf path] d(3,4) show ?thesis by (auto simp: entry_at_def)
qed

section \<open>A sample file system\<close>

definition sample_mount :: ZipFuse where
  "sample_mount = \<lparr>zf_archive = sample_zip, zf_inode_table = sample_table,
     zf_open_files = Map.empty, zf_open_dirs = Map.empty\<rparr>"

definition sample_mount_open :: ZipFuse where
  "sample_mount_open = put_file sample_mount 4 (Some \<lparr>ofb_open_count = 1, ofb_buf = [4]\<rparr>)"

lemma sample_mount: "ZipFuse_new Ok (\<lambda>_. Ok sample_zip) ''a.zip'' = (Ok sample_mount :: ('e zipfuse_error, ZipFuse) res)"
  by (simp add: ZipFuse_new_def sample_table sample_mount_def)

lemma sample_mount_load: "load_file sample_mount 4 = Ok [4]"
  by (simp add: load_file_def find_inode_def sample_mount_def sample_table_def InodeTable_get_def INVALID_def
      get_zip_index_def sample_zip_def with_capacity_def sample_zip_file_def)

lemma sample_mount_opens:
  "zip_open p sample_mount 4 = (Ok (Some 4, OpenOptions_empty), sample_mount_open)"
  using sample_mount_load by (simp add: zip_open_eq sample_mount_open_def sample_mount_def)

lemma sample_mount_step: "(zip_step p it ^^ 1) sample_mount sample_mount_open"
  unfolding relpowp_1 by (rule step_open[OF sample_mount_opens]) simp

lemma sample_dirs_fit: "dirs_fit 32 sample_table"
  by (simp add: dirs_fit_def sample_table_def get_directory_def new_dir_def)

lemma sample_walk: "zip_walk p 32 sample_mount_open ROOT [''bar''] = Ok 4"
proof (rule walk_ok)
  have "resolve sample_table ROOT [''bar''] = Some 4"
    by (simp add: child_def sample_table_def InodeTable_get_def ROOT_def INVALID_def get_directory_def)
  then show "resolve (zf_inode_table sample_mount_open) ROOT [''bar''] = Some 4"
    by (simp add: sample_mount_open_def sample_mount_def)
qed (simp_all add: sample_mount_open_def sample_mount_def sample_dirs_fit sample_table_wf)

section \<open>Properties\<close>

text \<open>C20: What an application reads is what the archive contains. After any sequence of requests on a mounted
  archive, a successful read on the inode that a path leads to passes to the reply exactly the requested
  range of the contents of a file of the archive with that path.\<close>

theorem mounted_read_sound:
  assumes "open_file zip_path = Ok f" "zip_new f = Ok archive"
    and "ZipFuse_new open_file zip_new zip_path = Ok s0" "(zip_step p it ^^ k) s0 s"
    and "zip_walk p nlink_w s ROOT path = Ok ino"
    and "zip_read p s ino wr w n off = (Ok m, w')" "off < 2 ^ 64" "n < 2 ^ 32"
  shows "\<exists>i file data. i < za_len archive \<and> za_by_index archive i = Ok file \<and> ze_enclosed_name file = Some path \<and>
    ze_is_file file \<and> ze_data file = Ok data \<and> off \<le> length data \<and> wr w (take n (drop off data)) = (Ok m, w')"
proof -
  have inv: "zip_inv it archive s" by (rule steps_inv[OF assms(4) new_inv(1)[OF assms(1-3)]])
  have "n < 2 ^ 64" using assms(8) by simp
  then obtain c data where r: "file_handles s ino = Some (c, data)" "off \<le> length data"
    "wr w (take n (drop off data)) = (Ok m, w')" using zip_read_Ok[OF assms(6,7)] by blast
  have "load_file s ino = Ok data" using inv r(1) unfolding zip_inv_def files.backed_def by blast
  from load_file_Ok[OF inv this] obtain i zf path' where i: "i < za_len archive" "entry_at archive i zf path'"
    "ze_is_file zf" "ze_data zf = Ok data" "resolve (zf_inode_table s) ROOT path' = Some ino" by metis
  have "inode_wf (zf_inode_table s)"
    using inv fold_describes[of archive "za_len archive"] by (simp add: zip_inv_def from_zip_eq describes_def)
  from resolve_unique[OF this i(5) walk_resolve[OF assms(5)]] have "path' = path" .
  with i r show ?thesis by (auto simp: entry_at_def)
qed

theorem mounted_read_sound_witness:
  "\<exists>i file data. i < za_len sample_zip \<and> za_by_index sample_zip i = Ok file \<and> ze_enclosed_name file = Some [''bar''] \<and>
    ze_is_file file \<and> ze_data file = Ok data \<and> 0 \<le> length data \<and>
    append_writer [] (take 10 (drop 0 data)) = (Ok 1, [4])"
proof (rule mounted_read_sound[where open_file = Ok and zip_new = "\<lambda>_. Ok sample_zip" and p = debug_profile
      and it = "\<lambda>_ es. es" and k = 1 and nlink_w = 32 and ino = 4])
  show "ZipFuse_new Ok (\<lambda>_. Ok sample_zip) ''a.zip'' = (Ok sample_mount :: (unit zipfuse_error, ZipFuse) res)"
    by (rule sample_mount)
  show "(zip_step debug_profile (\<lambda>_ es. es) ^^ 1) sample_mount sample_mount_open" by (rule sample_mount_step)
  show "zip_walk debug_profile 32 sample_mount_open ROOT [''bar''] = Ok 4"
    by (rule sample_walk)
  show "zip_read debug_profile sample_mount_open 4 append_writer [] 10 0 = (Ok 1, [4])"
    by (simp add: zip_read_def sample_mount_open_def uadd_ok slice_def append_writer_def)
qed simp_all

text \<open>C21: A file of the archive can be read. If no earlier entry of the archive has the path of the file or a path below it
  (such an entry would take its place), its contents can be decompressed and its size is representable, then after
  any sequence of fewer than \<open>2^32 - 1\<close> requests its path resolves, it opens, and a read at an offset up to its end
  delivers the requested range.\<close>

theorem mounted_file_readable:
  assumes "open_file zip_path = Ok f" "zip_new f = Ok archive"
    and "ZipFuse_new open_file zip_new zip_path = Ok s0" "(zip_step p it ^^ k) s0 s" "k + 1 < 2 ^ 32"
    and "i < za_len archive" "za_by_index archive i = Ok file" "ze_enclosed_name file = Some path" "path \<noteq> []"
    and "ze_is_file file" "first_entry archive i path" "ze_data file = Ok data" "ze_size file < 2 ^ 63"
    and "dirs_fit nlink_w (zf_inode_table s0)" "collects wr out" "off \<le> length data" "off + n < 2 ^ 64"
  shows "\<exists>ino s' w'. zip_walk p nlink_w s ROOT path = Ok ino \<and>
    zip_open p s ino = (Ok (Some ino, OpenOptions_empty), s') \<and>
    zip_read p s' ino wr w n off = (Ok (min n (length data - off)), w') \<and> out w' = out w @ take n (drop off data)"
proof -
  have inv: "zip_inv it archive s" by (rule steps_inv[OF assms(4) new_inv(1)[OF assms(1-3)]])
  have cnt: "zip_counted k s" using steps_counted[OF assms(4) new_inv(2)[OF assms(1-3)]] assms(5) by simp
  have t0: "zf_inode_table s = zf_inode_table s0"
    using inv new_inv(1)[OF assms(1-3), of it] by (simp add: zip_inv_def)
  have t: "describes archive (za_len archive) (zf_inode_table s)"
    using inv fold_describes by (simp add: zip_inv_def from_zip_eq)
  have "from_zip archive = Ok (zf_inode_table s)" using inv by (simp add: zip_inv_def)
  moreover have "entry_at archive i file path" using assms(7,8) by (simp add: entry_at_def)
  ultimately obtain ino where ino:
    "resolve (zf_inode_table s) ROOT path = Some ino" "ino < length (table (zf_inode_table s))" "ROOT < ino"
    "id_data (table (zf_inode_table s) ! ino) = File i" "id_size (table (zf_inode_table s) ! ino) = ze_size file"
    using first_entry_in_table[OF _ assms(6) _ _ assms(9,11)] assms(10) by (metis prefix_order.order_refl)
  have load: "load_file s ino = Ok data"
    using ino assms(7,12,13) inv
    by (simp add: load_file_def find_inode_def InodeTable_get_def INVALID_def get_zip_index_def with_capacity_def zip_inv_def)
  have "\<exists>s' c. zip_open p s ino = (Ok (Some ino, OpenOptions_empty), s') \<and> file_handles s' ino = Some (c, data) \<and> 0 < c"
    by (rule open_counted[OF _ _ assms(5) load]) (use inv cnt in \<open>simp_all add: zip_inv_def zip_counted_def\<close>)
  then obtain s' c where s': "zip_open p s ino = (Ok (Some ino, OpenOptions_empty), s')"
    "file_handles s' ino = Some (c, data)" "0 < c" by blast
  have "zip_walk p nlink_w s ROOT path = Ok ino"
    by (rule walk_ok) (use t assms(14) ino(1) t0 in \<open>simp_all add: describes_def\<close>)
  with s' zip_read_collects[OF s'(2,3) assms(15-17)] show ?thesis by blast
qed

lemma sample_first_entry: "first_entry sample_zip 2 [''bar'']" "first_entry sample_zip 0 [''dir'']"
  by (auto simp: first_entry_def entry_at_def sample_zip_def sample_zip_file_def less_Suc_eq numeral_2_eq_2 split: if_splits)

theorem mounted_file_readable_witness:
  "\<exists>ino s' w'. zip_walk debug_profile 32 sample_mount_open ROOT [''bar''] = Ok ino \<and>
    zip_open debug_profile sample_mount_open ino = (Ok (Some ino, OpenOptions_empty), s') \<and>
    zip_read debug_profile s' ino append_writer [] 10 0 = (Ok (min 10 (length [4 :: u8] - 0)), w') \<and>
    w' = [] @ take 10 (drop 0 [4])"
proof (rule mounted_file_readable[where open_file = Ok and zip_new = "\<lambda>_. Ok sample_zip"
      and it = "\<lambda>_ es. es" and k = 1 and i = 2 and out = "\<lambda>w. w"])
  show "ZipFuse_new Ok (\<lambda>_. Ok sample_zip) ''a.zip'' = (Ok sample_mount :: (unit zipfuse_error, ZipFuse) res)"
    by (rule sample_mount)
  show "(zip_step debug_profile (\<lambda>_ es. es) ^^ 1) sample_mount sample_mount_open" by (rule sample_mount_step)
  show "za_by_index sample_zip 2 = Ok (sample_zip_file [''bar''] True [4])" by (simp add: sample_zip_def)
  show "first_entry sample_zip 2 [''bar'']" by (rule sample_first_entry)
  show "dirs_fit 32 (zf_inode_table sample_mount)" by (simp add: sample_mount_def sample_dirs_fit)
  show "collects append_writer (\<lambda>w. w)" by (rule collects_append)
qed (simp_all add: sample_zip_def sample_zip_file_def)

text \<open>A read that starts behind the end of the file panics instead of returning no data, whatever the size
  of the file that \<open>getattr\<close> reported.\<close>

theorem zip_read_past_end_panics:
  assumes "zf_open_files s h = Some ofb" "0 < ofb_open_count ofb" "length (ofb_buf ofb) < off"
  shows "zip_read p s h wr w n off = (Panic, w)"
proof (cases "uadd p 64 off n :: (io_error, nat) res")
  case (Ok e)
  with assms show ?thesis by (simp add: zip_read_def slice_def)
qed (use assms in \<open>auto simp: zip_read_def uadd_def wrapping_def split: if_splits\<close>)

theorem zip_read_past_end_panics_witness:
  "zip_read release_profile sample_mount_open 4 append_writer [] 10 2 = (Panic, [])"
  by (rule zip_read_past_end_panics[where ofb = "\<lparr>ofb_open_count = 1, ofb_buf = [4]\<rparr>"])
    (simp_all add: sample_mount_open_def)

text \<open>C39: The buffer of a file is dropped only if it was never opened twice. Once two opens overlap, no sequence of
  requests, however many of them releases (up to the width of the counter), frees the buffer or lowers its
  count.\<close>

theorem shared_buffer_leaks:
  assumes "zf_open_files s h = Some \<lparr>ofb_open_count = n, ofb_buf = b\<rparr>" "1 < n"
    and "(zip_step p it ^^ k) s s'" "n + k < 2 ^ 32"
  shows "\<exists>m \<ge> n. zf_open_files s' h = Some \<lparr>ofb_open_count = m, ofb_buf = b\<rparr>"
  using steps_shared[OF assms(3), of h n b] assms by auto

theorem shared_buffer_leaks_witness:
  "\<exists>s1 s2 s3. snd (zip_open debug_profile sample_mount_open 4) = s1 \<and>
    snd (zip_release s1 4) = s2 \<and> snd (zip_release s2 4) = s3 \<and>
    (\<exists>m \<ge> 2. zf_open_files s3 4 = Some \<lparr>ofb_open_count = m, ofb_buf = [4]\<rparr>)"
proof -
  let ?s1 = "snd (zip_open debug_profile sample_mount_open 4)"
  let ?s2 = "snd (zip_release ?s1 4)"
  have o1: "zf_open_files ?s1 4 = Some \<lparr>ofb_open_count = 2, ofb_buf = [4]\<rparr>"
    by (simp add: sample_mount_open_def zip_open_eq uadd_ok)
  have r: "fst (zip_release s 4) \<noteq> Panic" for s by (simp add: zip_release_eq split: option.split)
  have st: "zip_step debug_profile (\<lambda>_ es. es) s (snd (zip_release s 4))" for s
    by (rule step_release[where r = "fst (zip_release s 4)"]) (simp_all add: r)
  have "(zip_step debug_profile (\<lambda>_ es. es) ^^ 2) ?s1 (snd (zip_release ?s2 4))"
    unfolding numeral_2_eq_2 using st[of ?s1] st[of ?s2] by (intro relpowp_Suc_I) auto
  from shared_buffer_leaks[OF o1 _ this] show ?thesis by simp
qed

text \<open>A file that is opened once and released is closed again: the table of open files is as before.\<close>

theorem open_release_restores:
  assumes "zf_open_files s h = None" "zip_open p s h = (Ok r, s')"
  shows "zip_release s' h = (Ok (), s)"
proof -
  obtain b where "load_file s h = Ok b" using assms by (cases "load_file s h") (auto simp: zip_open_eq)
  then have "s' = put_file s h (Some \<lparr>ofb_open_count = 1, ofb_buf = b\<rparr>)" using assms by (simp add: zip_open_eq)
  moreover have "put_file (put_file s h x) h None = s" for x
    using assms(1) by (simp add: put_file_def fun_upd_idem)
  ultimately show ?thesis by (simp add: zip_release_eq)
qed

theorem open_release_restores_witness: "zip_release sample_mount_open 4 = (Ok (), sample_mount)"
  by (rule open_release_restores[OF _ sample_mount_opens]) (simp add: sample_mount_def)

text \<open>The counter of opens is 32 bits wide. At its maximum one more open panics in a debug build; in a release
  build it succeeds and wraps the counter to 0, after which every read, open and release of the file
  fails with \<open>EBADF\<close>.\<close>

lemma open_count_wraps:
  assumes "zf_open_files s h = Some \<lparr>ofb_open_count = 2 ^ 32 - 1, ofb_buf = b\<rparr>"
  shows "zip_open debug_profile s h = (Panic, s) \<and>
    (\<exists>s'. zip_open release_profile s h = (Ok (Some h, OpenOptions_empty), s') \<and>
       zip_read p s' h wr w n off = (Err (Os EBADF), w) \<and>
       zip_open p s' h = (Err (Os EBADF), s') \<and> zip_release s' h = (Err (Os EBADF), s'))"
  using assms by (simp add: zip_open_eq zip_release_eq zip_read_def uadd_def wrapping_def ebadf_def)

lemma open_count_wraps_witness:
  "\<exists>s'. zip_open release_profile (put_file sample_mount 4 (Some \<lparr>ofb_open_count = 2 ^ 32 - 1, ofb_buf = [4]\<rparr>)) 4 =
      (Ok (Some 4, OpenOptions_empty), s') \<and>
    zip_read release_profile s' 4 append_writer [] 10 0 = (Err (Os EBADF), [])"
  using open_count_wraps[of "put_file sample_mount 4 (Some \<lparr>ofb_open_count = 2 ^ 32 - 1, ofb_buf = [4]\<rparr>)" 4 "[4]"
      release_profile append_writer "[]" 10 0] by auto




text \<open>The file system is mounted read-only, and before the archive is opened: if the archive cannot be opened or
  its table cannot be built, \<open>run_fuse\<close> fails with that error and leaves the mount without a server.\<close>

theorem bad_archive_leaves_mount:
  assumes "open_dev_fuse lib s = (Ok fd, s1)"
    and "fuse_mount lib s1 mount_point ''zipfuse'' 7 [MountFD fd, RootMode 0x4049, AllowOther, UserId 0, GroupId 0,
      MaxRead 1048576] = (Ok (), s2)"
    and "ZipFuse_new open_file zip_new zip_file = Err e"
  shows "run_fuse lib open_file zip_new s zip_file mount_point = (Err e, s2)"
proof -
  have "MS_NOSUID OR MS_NODEV OR MS_RDONLY = 7" "S_IFDIR OR S_IXUSR OR S_IXGRP OR S_IXOTH = 0x4049"
    by (simp_all add: MS_NOSUID_def MS_NODEV_def MS_RDONLY_def S_IFDIR_def S_IXUSR_def S_IXGRP_def S_IXOTH_def)
  with assms show ?thesis by (simp add: run_fuse_def map_err_st_def ZIPFUSE_MAX_READ_def)
qed

text \<open>A FUSE library that records the mount points.\<close>

definition sample_fuse_lib :: "(string, unit, ZipFuse, string list) fuse_lib" where
  "sample_fuse_lib =
     \<lparr>open_dev_fuse = (\<lambda>s. (Ok 3, s)), fuse_mount = (\<lambda>s mp name flags opts. (Ok (), mp # s)),
      start_message_loop = (\<lambda>s fd r w fs. (Ok (), s))\<rparr>"

theorem bad_archive_leaves_mount_witness:
  "run_fuse sample_fuse_lib (\<lambda>_. Err (Os ENOENT) :: (io_error, unit) res) (\<lambda>_. Ok sample_zip) [] ''a.zip'' ''/mnt'' =
     (Err (ZipfuseIo (Os ENOENT)), [''/mnt''])"
  by (rule bad_archive_leaves_mount[where fd = 3 and ?s1.0 = "[]"])
    (simp_all add: sample_fuse_lib_def ZipFuse_new_def)

end
