(* ===== verification/Zipfuse_Dir.thy ===== *)
theory Zipfuse_Dir
  imports Zipfuse_Correct "HOL-Library.Multiset"
begin

text \<open>
  Listing a directory of the zip file system. \<open>readdir\<close> returns a page of entries; the kernel takes some of
  them and asks again from the offset of the last one it took. \<open>dir_listing\<close> is this dialogue. The theorem at
  the end says that it ends, and that it delivers every entry of the directory exactly once.
\<close>

unbundle bit_operations_syntax

section \<open>One page\<close>

lemma readdir_end_bounds:
  "readdir_end p dirent_size buf sz estimate end' = Ok e \<Longrightarrow>
   end' \<le> e \<and> (end' \<le> length buf \<longrightarrow> e \<le> length buf) \<and> (estimate < sz \<and> end' < length buf \<longrightarrow> end' < e)"
proof (induction p dirent_size buf sz estimate end' rule: readdir_end.induct)
  case (1 p dirent_size buf sz estimate end')
  show ?case
  proof (cases "estimate < sz \<and> end' < length buf")
    case True
    with "1.prems" obtain a b c where abc: "(uadd p 64 dirent_size (length (fst (buf ! end'))) :: (io_error, nat) res) = Ok a"
      "(uadd p 64 a 7 :: (io_error, nat) res) = Ok b"
      "(uadd p 64 estimate (b AND (2 ^ 64 - 1 - 7)) :: (io_error, nat) res) = Ok c"
      "readdir_end p dirent_size buf sz c (end' + 1) = Ok e"
      by (subst (asm) readdir_end.simps) (auto simp: Let_def try_r_Ok_iff simp del: diff_numeral_simps)
    from "1.IH"[OF True refl abc] True show ?thesis by auto
  next
    case False
    with "1.prems" show ?thesis by (subst (asm) readdir_end.simps) auto
  qed
qed

lemma and_le: "(a :: nat) AND b \<le> a"
proof -
  have "int (a AND b) \<le> int a" by (simp add: of_nat_and_eq)
  then show ?thesis by simp
qed

lemma readdir_end_total:
  assumes "\<And>x. x \<in> set buf \<Longrightarrow> dirent_size + length (fst x) + 7 < 2 ^ 32" "sz < 2 ^ 32"
  shows "estimate < 2 ^ 33 \<Longrightarrow> \<exists>e. readdir_end p dirent_size buf sz estimate end' = Ok e"
proof (induction "length buf - end'" arbitrary: estimate end')
  case 0
  then show ?case by (subst readdir_end.simps) simp
next
  case (Suc m)
  show ?case
  proof (cases "estimate < sz \<and> end' < length buf")
    case True
    let ?n = "dirent_size + length (fst (buf ! end')) + 7"
    have n: "?n < 2 ^ 32" using assms(1)[OF nth_mem] True by blast
    let ?k = "?n AND (2 ^ 64 - 1 - 7)"
    have k: "?k < 2 ^ 32" using and_le[of ?n "2 ^ 64 - 1 - 7"] n by (rule le_less_trans)
    have "(uadd p 64 dirent_size (length (fst (buf ! end'))) :: (io_error, nat) res) = Ok (?n - 7)"
      "(uadd p 64 (?n - 7) 7 :: (io_error, nat) res) = Ok ?n"
      "(uadd p 64 estimate ?k :: (io_error, nat) res) = Ok (estimate + ?k)"
      using n k Suc.prems by (simp_all add: uadd_ok)
    moreover have "\<exists>e. readdir_end p dirent_size buf sz (estimate + ?k) (end' + 1) = Ok e"
    proof (rule Suc.hyps(1))
      show "m = length buf - (end' + 1)" using Suc.hyps(2) by simp
      show "estimate + ?k < 2 ^ 33" using True assms(2) k by simp
    qed
    ultimately show ?thesis using True by (subst readdir_end.simps) (simp add: Let_def)
  qed (subst readdir_end.simps, auto)
qed

definition dir_open :: "ZipFuse \<Rightarrow> inode \<Rightarrow> (string \<times> DirectoryEntry) list \<Rightarrow> bool" where
  "dir_open s ino buf \<longleftrightarrow> (\<exists>odb. zf_open_dirs s ino = Some odb \<and> 0 < odb_open_count odb \<and> odb_buf odb = buf)"

lemma readdir_page:
  assumes "dir_open s ino buf" "zip_readdir p dirent_size s ino sz off = Ok iter"
  obtains m where "iter = \<lparr>dit_inner = take m (drop off buf), dit_offset = off, dit_cur = 0\<rparr>" "off + m \<le> length buf"
    "0 < sz \<Longrightarrow> off < length buf \<Longrightarrow> 0 < m"
proof -
  from assms obtain e page where e: "readdir_end p dirent_size buf sz 0 off = Ok e"
    "(slice buf off e :: (io_error, _) res) = Ok page" "iter = \<lparr>dit_inner = page, dit_offset = off, dit_cur = 0\<rparr>"
    by (auto simp: zip_readdir_def dir_open_def try_r_Ok_iff split: if_splits)
  from e(2) have "off \<le> e" "e \<le> length buf" "page = take (e - off) (drop off buf)"
    by (auto simp: slice_def split: if_splits)
  with that[of "e - off"] e readdir_end_bounds[OF e(1)] show ?thesis by auto
qed

lemma readdir_total:
  assumes "dir_open s ino buf" "off \<le> length buf" "sz < 2 ^ 32"
    and "\<And>x. x \<in> set buf \<Longrightarrow> dirent_size + length (fst x) + 7 < 2 ^ 32"
  shows "\<exists>iter. zip_readdir p dirent_size s ino sz off = Ok iter"
proof -
  obtain e where e: "readdir_end p dirent_size buf sz 0 off = Ok e"
    using readdir_end_total[OF assms(4,3), of buf 0 p off] by auto
  have "off \<le> e" "e \<le> length buf" using readdir_end_bounds[OF e] assms(2) by simp_all
  moreover obtain odb where "zf_open_dirs s ino = Some odb" "0 < odb_open_count odb" "odb_buf odb = buf"
    using assms(1) by (auto simp: dir_open_def)
  ultimately show ?thesis using e by (simp add: zip_readdir_def slice_def)
qed

section \<open>The iterator\<close>

text \<open>The entries of \<open>k\<close> calls of \<open>next\<close>, fewer if the iterator ends.\<close>

primrec next_entries :: "profile \<Rightarrow> DirIter \<Rightarrow> nat \<Rightarrow> (io_error, zip_dir_entry list) res" where
  "next_entries p iter 0 = Ok []"
| "next_entries p iter (Suc k) =
     (case DirIter_next p iter of
        (r, iter') \<Rightarrow> try_r r (\<lambda>x. case x of None \<Rightarrow> Ok []
          | Some e \<Rightarrow> try_r (next_entries p iter' k) (\<lambda>es. Ok (e # es))))"

definition dirent_of :: "nat \<Rightarrow> string \<times> DirectoryEntry \<Rightarrow> zip_dir_entry" where
  "dirent_of off x = \<lparr>zde_ino = de_inode (snd x), zde_offset = off,
     zde_type = (case de_kind (snd x) of KindDirectory \<Rightarrow> DT_DIR | KindFile \<Rightarrow> DT_REG), zde_name = fst x\<rparr>"

lemma next_entries_eq:
  assumes "off + length xs < 2 ^ 64" "cur \<le> length xs"
  shows "next_entries p \<lparr>dit_inner = xs, dit_offset = off, dit_cur = cur\<rparr> k =
    Ok (map (\<lambda>j. dirent_of (off + j + 1) (xs ! j)) [cur..<min (cur + k) (length xs)])"
  using assms(2)
proof (induction k arbitrary: cur)
  case (Suc k)
  show ?case
  proof (cases "cur < length xs")
    case True
    have u: "(uadd p 64 off (Suc cur) :: (io_error, nat) res) = Ok (off + cur + 1)"
      using assms(1) True by (simp add: uadd_ok)
    have "[cur..<min (cur + Suc k) (length xs)] = cur # [Suc cur..<min (Suc cur + k) (length xs)]"
      using True by (subst upt_conv_Cons) simp_all
    with Suc.IH[of "Suc cur"] True u show ?thesis
      by (simp add: DirIter_next_def Let_def dirent_of_def split: prod.split)
  next
    case False
    with Suc.prems show ?thesis by (simp add: DirIter_next_def)
  qed
qed simp

section \<open>The listing\<close>

inductive dir_listing ::
  "profile \<Rightarrow> nat \<Rightarrow> ZipFuse \<Rightarrow> inode \<Rightarrow> nat \<Rightarrow> nat \<Rightarrow> zip_dir_entry list \<Rightarrow> bool"
  for p dirent_size s ino sz where
  listing_end: "zip_readdir p dirent_size s ino sz off = Ok iter \<Longrightarrow> next_entries p iter 1 = Ok [] \<Longrightarrow>
    dir_listing p dirent_size s ino sz off []"
| listing_page: "zip_readdir p dirent_size s ino sz off = Ok iter \<Longrightarrow> next_entries p iter k = Ok es \<Longrightarrow> es \<noteq> [] \<Longrightarrow>
    dir_listing p dirent_size s ino sz (zde_offset (last es)) rest \<Longrightarrow>
    dir_listing p dirent_size s ino sz off (es @ rest)"

definition dirents_from :: "(string \<times> DirectoryEntry) list \<Rightarrow> nat \<Rightarrow> nat \<Rightarrow> zip_dir_entry list" where
  "dirents_from buf a b = map (\<lambda>j. dirent_of (j + 1) (buf ! j)) [a..<b]"

lemma page_entries:
  assumes "dir_open s ino buf" "length buf < 2 ^ 64" "zip_readdir p dirent_size s ino sz off = Ok iter"
  obtains m where "off + m \<le> length buf" "0 < sz \<Longrightarrow> off < length buf \<Longrightarrow> 0 < m"
    "\<And>k. next_entries p iter k = Ok (dirents_from buf off (off + min k m))"
proof -
  obtain m where m: "iter = \<lparr>dit_inner = take m (drop off buf), dit_offset = off, dit_cur = 0\<rparr>" "off + m \<le> length buf"
    "0 < sz \<Longrightarrow> off < length buf \<Longrightarrow> 0 < m" using readdir_page[OF assms(1,3)] by metis
  have "next_entries p iter k = Ok (dirents_from buf off (off + min k m))" for k
  proof -
    have len: "length (take m (drop off buf)) = m" using m(2) by simp
    have "map (\<lambda>j. dirent_of (off + j + 1) (take m (drop off buf) ! j)) [0..<min k m] =
      map (\<lambda>j. dirent_of (j + 1) (buf ! j)) (map (\<lambda>j. off + j) [0..<min k m])"
      using m(2) by simp
    also have "map (\<lambda>j. off + j) [0..<min k m] = [off..<off + min k m]"
      by (simp add: map_add_upt add.commute[of off])
    finally show ?thesis
      using next_entries_eq[of off "take m (drop off buf)" 0 p k] m(2) assms(2)
      by (simp only: m(1) len dirents_from_def add_0 le0)
  qed
  with that[of m] m show ?thesis by blast
qed

lemma listing_exact:
  assumes "dir_open s ino buf" "length buf < 2 ^ 64" "0 < sz"
  shows "dir_listing p dirent_size s ino sz off es \<Longrightarrow> off \<le> length buf \<and> es = dirents_from buf off (length buf)"
proof (induction rule: dir_listing.induct)
  case (listing_end off iter)
  from page_entries[OF assms(1,2) listing_end(1)] obtain m where m: "off + m \<le> length buf" "off < length buf \<Longrightarrow> 0 < m"
    "\<And>k. next_entries p iter k = Ok (dirents_from buf off (off + min k m))" using assms(3) by metis
  from m(3)[of 1] listing_end(2) have "m = 0" by (cases m) (simp_all add: dirents_from_def)
  with m show ?case by (cases "off < length buf") (simp_all add: dirents_from_def)
next
  case (listing_page off iter k es rest)
  from page_entries[OF assms(1,2) listing_page(1)] obtain m where m: "off + m \<le> length buf"
    "\<And>k. next_entries p iter k = Ok (dirents_from buf off (off + min k m))" by metis
  from m(2)[of k] listing_page(2) have es: "es = dirents_from buf off (off + min k m)" by simp
  with listing_page(3) have pos: "0 < min k m" by (auto simp: dirents_from_def)
  have "last es = dirent_of (off + min k m) (buf ! (off + min k m - 1))"
    using pos unfolding es dirents_from_def by (simp add: last_map)
  then have "zde_offset (last es) = off + min k m" by (simp add: dirent_of_def)
  with listing_page.IH have r: "off + min k m \<le> length buf" "rest = dirents_from buf (off + min k m) (length buf)" by simp_all
  have "[off..<length buf] = [off..<off + min k m] @ [off + min k m..<length buf]"
    using r(1) by (metis le_add1 le_add_diff_inverse upt_add_eq_append)
  then show ?case using m(1) r by (simp add: es dirents_from_def)
qed

lemma listing_exists:
  assumes "dir_open s ino buf" "length buf < 2 ^ 64" "0 < sz" "sz < 2 ^ 32"
    and "\<And>x. x \<in> set buf \<Longrightarrow> dirent_size + length (fst x) + 7 < 2 ^ 32"
  shows "off \<le> length buf \<Longrightarrow> \<exists>es. dir_listing p dirent_size s ino sz off es"
proof (induction "length buf - off" arbitrary: off rule: less_induct)
  case less
  obtain iter where iter: "zip_readdir p dirent_size s ino sz off = Ok iter"
    using readdir_total[OF assms(1) less.prems assms(4,5)] by blast
  from page_entries[OF assms(1,2) iter] obtain m where m: "off + m \<le> length buf" "off < length buf \<Longrightarrow> 0 < m"
    "\<And>k. next_entries p iter k = Ok (dirents_from buf off (off + min k m))" using assms(3) by metis
  show ?case
  proof (cases "off < length buf")
    case True
    with m(2) have pos: "0 < m" by simp
    let ?es = "dirents_from buf off (off + m)"
    have "zde_offset (last ?es) = off + m" using pos by (simp add: dirents_from_def last_map dirent_of_def)
    moreover have "\<exists>rest. dir_listing p dirent_size s ino sz (off + m) rest"
      by (rule less.hyps[of "off + m"]) (use pos True m(1) in linarith)+
    then obtain rest where "dir_listing p dirent_size s ino sz (off + m) rest" by blast
    moreover have "next_entries p iter m = Ok ?es" "?es \<noteq> []" using m(3)[of m] pos by (simp_all add: dirents_from_def)
    ultimately show ?thesis using listing_page[OF iter, of m ?es rest] by auto
  next
    case False
    with m(1) have "m = 0" "off = length buf" using less.prems by simp_all
    then have "next_entries p iter 1 = Ok []" using m(3)[of 1] by (simp add: dirents_from_def)
    from listing_end[OF iter this] show ?thesis by blast
  qed
qed

section \<open>Opening a directory\<close>

lemma load_dir_Ok:
  assumes "load_dir it s ino = Ok buf"
  obtains d es where "InodeTable_get (zf_inode_table s) ino = Some d" "get_directory d = Some es" "buf = it ino es"
proof -
  let ?f = "\<lambda>(name, dir_entry). try_r (c_string name) (\<lambda>name. Ok (name, dir_entry :: DirectoryEntry) :: (io_error, _) res)"
  from assms obtain d es where d: "InodeTable_get (zf_inode_table s) ino = Some d" "get_directory d = Some es"
    "try_map ?f (it ino es) = Ok buf"
    by (auto simp: load_dir_def find_inode_def try_r_Ok_iff)
  have "try_map ?f xs = Ok ys \<Longrightarrow> ys = xs" for xs ys
    by (induction xs arbitrary: ys) (auto simp: try_r_Ok_iff c_string_def split: if_splits)
  from this[OF d(3)] d that show ?thesis by blast
qed

lemma opendir_opens:
  assumes "dirs.backed it s" "dirs.counted k s" "k + 1 < 2 ^ 32" "zip_opendir p it s ino = (Ok r, s')"
  obtains buf where "load_dir it s ino = Ok buf" "dir_open s' ino buf"
proof (cases "zf_open_dirs s ino")
  case None
  with assms(4) obtain buf where "load_dir it s ino = Ok buf" by (cases "load_dir it s ino") (auto simp: zip_opendir_eq)
  with that[OF this] None assms(4) show ?thesis by (auto simp: zip_opendir_eq dir_open_def)
next
  case (Some x)
  then have "dir_handles s ino = Some (odb_open_count x, odb_buf x)" by (simp add: dir_handles_def)
  with assms(1,2) have "load_dir it s ino = Ok (odb_buf x)" "0 < odb_open_count x" "odb_open_count x \<le> k"
    unfolding dirs.backed_def dirs.counted_def by blast+
  with that[OF this(1)] Some assms(3,4) show ?thesis by (auto simp: zip_opendir_eq dir_open_def uadd_ok)
qed

text \<open>The order of a hash table: a permutation of its entries.\<close>

definition hash_order :: "dir_order \<Rightarrow> bool" where
  "hash_order it \<longleftrightarrow> (\<forall>ino es. mset (it ino es) = mset es)"

definition shown :: "string \<times> DirectoryEntry \<Rightarrow> string \<times> nat \<times> dirent_type" where
  "shown x = (fst x, de_inode (snd x), case de_kind (snd x) of KindDirectory \<Rightarrow> DT_DIR | KindFile \<Rightarrow> DT_REG)"

lemma dirents_shown:
  "map (\<lambda>e. (zde_name e, zde_ino e, zde_type e)) (dirents_from buf 0 (length buf)) = map shown buf"
proof -
  have "map (\<lambda>e. (zde_name e, zde_ino e, zde_type e)) (dirents_from buf 0 (length buf)) =
    map (\<lambda>j. shown (buf ! j)) [0..<length buf]"
    by (simp add: dirents_from_def dirent_of_def shown_def)
  also have "\<dots> = map shown (map (\<lambda>j. buf ! j) [0..<length buf])" by (simp only: map_map comp_def)
  finally show ?thesis by (simp only: map_nth)
qed

lemma dirents_mset:
  "mset buf = mset es \<Longrightarrow>
   mset (map (\<lambda>e. (zde_name e, zde_ino e, zde_type e)) (dirents_from buf 0 (length buf))) = mset (map shown es)"
  by (simp only: dirents_shown mset_map)

section \<open>Properties\<close>

text \<open>C22: Listing a directory ends and is complete. After any sequence of requests on a mounted archive, once a
  directory is opened, the dialogue in which the kernel repeats \<open>readdir\<close> from the offset of the last entry it
  took can always be finished, from every offset, and however many entries the kernel takes from a page, it
  has received every entry of the directory exactly once, with its inode and type.\<close>

theorem readdir_lists_directory:
  assumes "open_file zip_path = Ok f" "zip_new f = Ok archive"
    and "ZipFuse_new open_file zip_new zip_path = Ok s0" "(zip_step p it ^^ k) s0 s" "k + 1 < 2 ^ 32"
    and "zip_opendir p it s ino = (Ok r, s')" "hash_order it"
    and "InodeTable_get (zf_inode_table s) ino = Some d" "get_directory d = Some es" "length es < 2 ^ 64"
    and "\<forall>x \<in> set es. dirent_size + length (fst x) + 7 < 2 ^ 32" "0 < sz" "sz < 2 ^ 32"
  shows "(\<forall>off \<le> length es. \<exists>out. dir_listing p dirent_size s' ino sz off out) \<and>
    (\<forall>out. dir_listing p dirent_size s' ino sz 0 out \<longrightarrow>
      mset (map (\<lambda>e. (zde_name e, zde_ino e, zde_type e)) out) =
      mset (map shown es))"
proof -
  have inv: "zip_inv it archive s" by (rule steps_inv[OF assms(4) new_inv(1)[OF assms(1-3)]])
  have cnt: "zip_counted k s" using steps_counted[OF assms(4) new_inv(2)[OF assms(1-3)]] assms(5) by simp
  obtain buf where buf: "load_dir it s ino = Ok buf" "dir_open s' ino buf"
    using opendir_opens[OF _ _ assms(5,6)] inv cnt unfolding zip_inv_def zip_counted_def by metis
  have b: "buf = it ino es" using load_dir_Ok[OF buf(1)] assms(8,9) by (metis option.inject)
  have m: "mset buf = mset es" using assms(7) by (simp add: b hash_order_def)
  then have len: "length buf = length es" and st: "set buf = set es" by (metis size_mset, metis set_mset_mset)
  have short: "dirent_size + length (fst x) + 7 < 2 ^ 32" if "x \<in> set buf" for x using assms(11) that st by blast
  have l: "length buf < 2 ^ 64" using assms(10) len by simp
  have "\<exists>out. dir_listing p dirent_size s' ino sz off out" if "off \<le> length es" for off
    using listing_exists[OF buf(2) l assms(12,13) short] that len by simp
  moreover have "out = dirents_from buf 0 (length buf)" if "dir_listing p dirent_size s' ino sz 0 out" for out
    using listing_exact[OF buf(2) l assms(12) that] by simp
  ultimately show ?thesis using dirents_mset[OF m] by blast
qed

theorem readdir_lists_directory_witness:
  "\<exists>out. dir_listing debug_profile 24 (snd (zip_opendir debug_profile (\<lambda>_ es. rev es) sample_mount ROOT)) ROOT 4096 0 out \<and>
     mset (map (\<lambda>e. (zde_name e, zde_ino e, zde_type e)) out) = {#(''dir'', 2, DT_DIR), (''bar'', 4, DT_REG)#}"
proof -
  let ?es = "[(''dir'', \<lparr>de_inode = 2, de_kind = KindDirectory\<rparr>), (''bar'', \<lparr>de_inode = 4, de_kind = KindFile\<rparr>)]"
  let ?d = "\<lparr>id_size = 0, id_mode = 0, id_data = Directory ?es\<rparr>"
  have d: "InodeTable_get (zf_inode_table sample_mount) ROOT = Some ?d" "get_directory ?d = Some ?es"
    by (simp_all add: sample_mount_def sample_table_def InodeTable_get_def ROOT_def INVALID_def get_directory_def)
  have o1: "zip_opendir debug_profile (\<lambda>_ es. rev es) sample_mount ROOT =
    (Ok (Some ROOT, CACHE_DIR), snd (zip_opendir debug_profile (\<lambda>_ es. rev es) sample_mount ROOT))"
  proof -
    have "\<exists>b. load_dir (\<lambda>_ es. rev es) sample_mount ROOT = Ok b"
      using d by (simp add: load_dir_def find_inode_def c_string_def)
    moreover have "zf_open_dirs sample_mount ROOT = None" by (simp add: sample_mount_def)
    ultimately show ?thesis by (auto simp: zip_opendir_eq)
  qed
  have "(zip_step debug_profile (\<lambda>_ es. rev es) ^^ 0) sample_mount sample_mount" by simp
  note * = readdir_lists_directory[of Ok "''a.zip''" "''a.zip''" "\<lambda>_. Ok sample_zip" sample_zip,
      OF _ _ sample_mount this _ o1 _ d, of 24 4096]
  have "\<exists>out. dir_listing debug_profile 24 (snd (zip_opendir debug_profile (\<lambda>_ es. rev es) sample_mount ROOT)) ROOT 4096 0 out"
    using * by (simp add: hash_order_def)
  with * show ?thesis by (auto simp: hash_order_def shown_def)
qed

end
