(* ===== verification/Virt_Manager.thy ===== *)
theory Virt_Manager
  imports Rust_Str
begin

text \<open>
  \<open>virtmanager/src\<close>: the service that starts VMs and hands out references to them. The heap of \<open>VmInstance\<close>
  objects is a list (an instance is its index); a \<open>VirtualMachine\<close> binder object belongs to exactly one
  instance, and a strong reference to it is the instance's index. \<open>vm_world\<close> is the state of the service
  together with what its behaviour depends on: the references that clients hold, the monitor thread of each
  instance, and the calls made to the outside (processes started and killed, callbacks called). The
  results of calls to the system (reading the configuration, starting a process, the caller's identity) are
  fields of \<open>start_env\<close>. The lock around the state makes each method atomic. Log messages are left out.

  Limits: \<open>w_killed\<close> and \<open>w_called\<close> record that \<open>kill\<close> and \<open>onDied\<close> were called; the code only logs the error of a call
  that fails, so a failed one is recorded like one that succeeds. The callbacks of a VM are called in one step,
  whose lock the code also takes to register one. A reference that a client passes is one to a VM of this service; a
  foreign binder object under that interface does not occur.
\<close>

section \<open>\<open>config.rs\<close>\<close>

record DiskImage =
  disk_image :: string
  disk_writable :: bool

record VmConfig =
  vc_kernel :: "string option"
  vc_initrd :: "string option"
  vc_params :: "string option"
  vc_bootloader :: "string option"
  vc_disks :: "DiskImage list"

datatype vm_error = NoBootloaderOrKernel | BootloaderAndKernel | SpawnFailed io_error

definition VmConfig_validate :: "VmConfig \<Rightarrow> (vm_error, unit) res" where
  "VmConfig_validate self =
     (if vc_bootloader self = None \<and> vc_kernel self = None then Err NoBootloaderOrKernel
      else if vc_bootloader self \<noteq> None \<and> (vc_kernel self \<noteq> None \<or> vc_initrd self \<noteq> None) then Err BootloaderAndKernel
      else Ok ())"

section \<open>\<open>main.rs\<close>\<close>

definition FIRST_GUEST_CID :: nat where
  "FIRST_GUEST_CID = 10"

section \<open>\<open>crosvm.rs\<close>\<close>

definition CROSVM_PATH :: string where
  "CROSVM_PATH = ''/apex/com.android.virt/bin/crosvm''"

text \<open>A command: the program and its arguments, and whether its standard output is redirected to the log.\<close>

record command =
  cmd_program :: string
  cmd_args :: "string list"
  cmd_stdout_to_log :: bool

definition opt_arg :: "string \<Rightarrow> string option \<Rightarrow> string list" where
  "opt_arg name v = (case v of None \<Rightarrow> [] | Some x \<Rightarrow> [name, x])"

definition crosvm_command :: "VmConfig \<Rightarrow> nat \<Rightarrow> bool \<Rightarrow> command" where
  "crosvm_command config cid has_log =
     \<lparr>cmd_program = CROSVM_PATH,
      cmd_args =
        [''run'', ''--disable-sandbox'', ''--cid'', show_nat cid] @
        (if has_log then [] else [''--serial=type=sink'']) @
        opt_arg ''--bios'' (vc_bootloader config) @
        opt_arg ''--initrd'' (vc_initrd config) @
        opt_arg ''--params'' (vc_params config) @
        concat (map (\<lambda>disk. [if disk_writable disk then ''--rwdisk'' else ''--disk'', disk_image disk]) (vc_disks config)) @
        (case vc_kernel config of None \<Rightarrow> [] | Some k \<Rightarrow> [k]),
      cmd_stdout_to_log = has_log\<rparr>"

record 'cb VmInstance =
  vi_child :: nat
  vi_cid :: nat
  vi_requester_uid :: nat
  vi_requester_sid :: string
  vi_requester_debug_pid :: int
  vi_running :: bool
  vi_callbacks :: "'cb list"

definition VmInstance_new :: "nat \<Rightarrow> nat \<Rightarrow> nat \<Rightarrow> string \<Rightarrow> int \<Rightarrow> 'cb VmInstance" where
  "VmInstance_new child cid uid sid pid =
     \<lparr>vi_child = child, vi_cid = cid, vi_requester_uid = uid, vi_requester_sid = sid,
      vi_requester_debug_pid = pid, vi_running = True, vi_callbacks = []\<rparr>"

section \<open>The service and its surroundings\<close>

record manager_state =
  next_cid :: nat
  state_vms :: "nat list"
  debug_held_vms :: "nat list"

text \<open>The monitor thread of an instance waits for crosvm, marks the VM as dead, and then calls the callbacks.\<close>

datatype monitor_phase = Waiting | Marked | Finished

record 'cb vm_world =
  w_state :: manager_state
  w_instances :: "'cb VmInstance list"
  w_monitors :: "monitor_phase list"
  w_refs :: "nat \<Rightarrow> nat"
  w_commands :: "(nat \<times> command) list"
  w_killed :: "nat list"
  w_exited :: "nat set"
  w_called :: "(nat \<times> 'cb \<times> int) list"

definition State_default :: manager_state where
  "State_default = \<lparr>next_cid = FIRST_GUEST_CID, state_vms = [], debug_held_vms = []\<rparr>"

definition VirtManager_default :: "'cb vm_world" where
  "VirtManager_default =
     \<lparr>w_state = State_default, w_instances = [], w_monitors = [], w_refs = (\<lambda>_. 0), w_commands = [],
      w_killed = [], w_exited = {}, w_called = []\<rparr>"

text \<open>\<open>as i32\<close> of a \<open>u32\<close>.\<close>

definition as_i32 :: "nat \<Rightarrow> int" where
  "as_i32 n = (if n < 2 ^ 31 then int n else int n - 2 ^ 32)"

text \<open>The binder object of an instance exists as long as a client or the service has a reference to it;
  \<open>Weak::upgrade\<close> also succeeds while the monitor thread runs.\<close>

definition referenced :: "'cb vm_world \<Rightarrow> nat \<Rightarrow> bool" where
  "referenced w i \<longleftrightarrow> 0 < w_refs w i \<or> i \<in> set (debug_held_vms (w_state w))"

definition upgradable :: "'cb vm_world \<Rightarrow> nat \<Rightarrow> bool" where
  "upgradable w i \<longleftrightarrow> referenced w i \<or> w_monitors w ! i \<noteq> Finished"

definition update_instance :: "nat \<Rightarrow> ('cb VmInstance \<Rightarrow> 'cb VmInstance) \<Rightarrow> 'cb vm_world \<Rightarrow> 'cb vm_world" where
  "update_instance i f w = w\<lparr>w_instances := (w_instances w)[i := f (w_instances w ! i)]\<rparr>"

section \<open>Starting a VM\<close>

datatype StatusCode = UNKNOWN_ERROR | BAD_VALUE | PERMISSION_DENIED

record start_env =
  se_log_fd :: "(io_error, unit) res option"
  se_calling_uid :: nat
  se_calling_sid :: "string option option"
  se_calling_pid :: int
  se_config :: "(io_error, VmConfig) res"
  se_spawn :: "(io_error, nat) res"

text \<open>\<open>run_vm\<close>: the child is the one \<open>SharedChild::spawn\<close> returns.\<close>

definition run_vm ::
  "start_env \<Rightarrow> VmConfig \<Rightarrow> nat \<Rightarrow> bool \<Rightarrow> 'cb vm_world \<Rightarrow> (vm_error, nat) res \<times> 'cb vm_world" where
  "run_vm env config cid has_log w =
     and_then (VmConfig_validate config, w) (\<lambda>_ w.
     and_then (map_err SpawnFailed (se_spawn env), w) (\<lambda>child w.
     (Ok child, w\<lparr>w_commands := w_commands w @ [(child, crosvm_command config cid has_log)]\<rparr>)))"

definition VmInstance_start ::
  "start_env \<Rightarrow> VmConfig \<Rightarrow> nat \<Rightarrow> bool \<Rightarrow> nat \<Rightarrow> string \<Rightarrow> int \<Rightarrow> 'cb vm_world \<Rightarrow>
   (vm_error, nat) res \<times> 'cb vm_world" where
  "VmInstance_start env config cid has_log uid sid pid w =
     and_then (run_vm env config cid has_log w) (\<lambda>child w.
     (Ok (length (w_instances w)),
      w\<lparr>w_instances := w_instances w @ [VmInstance_new child cid uid sid pid],
        w_monitors := w_monitors w @ [Waiting]\<rparr>))"

definition start_vm ::
  "start_env \<Rightarrow> nat \<Rightarrow> bool \<Rightarrow> nat \<Rightarrow> string \<Rightarrow> int \<Rightarrow> 'cb vm_world \<Rightarrow> (StatusCode, nat) res \<times> 'cb vm_world" where
  "start_vm env cid has_log uid sid pid w =
     and_then (map_err (\<lambda>_. BAD_VALUE) (se_config env), w) (\<lambda>config w.
     map_err_st (\<lambda>_. UNKNOWN_ERROR) (VmInstance_start env config cid has_log uid sid pid w))"

definition allocate_cid :: "manager_state \<Rightarrow> (StatusCode, nat) res \<times> manager_state" where
  "allocate_cid self =
     (let cid = next_cid self in
      and_then (ok_or UNKNOWN_ERROR (if next_cid self + 1 < 2 ^ 32 then Some (next_cid self + 1) else None), self)
        (\<lambda>n self. (Ok cid, self\<lparr>next_cid := n\<rparr>)))"

definition add_vm :: "nat \<Rightarrow> 'cb vm_world \<Rightarrow> 'cb vm_world" where
  "add_vm vm w =
     w\<lparr>w_state := (w_state w)\<lparr>state_vms := filter (upgradable w) (state_vms (w_state w)) @ [vm]\<rparr>\<rparr>"

definition calling_sid :: "start_env \<Rightarrow> (StatusCode, string) res" where
  "calling_sid env =
     (case se_calling_sid env of
        Some sid \<Rightarrow> (case sid of Some s \<Rightarrow> Ok s | None \<Rightarrow> Err BAD_VALUE)
      | None \<Rightarrow> Err UNKNOWN_ERROR)"

definition startVm :: "start_env \<Rightarrow> 'cb vm_world \<Rightarrow> (StatusCode, nat) res \<times> 'cb vm_world" where
  "startVm env w =
     and_then (case se_log_fd env of None \<Rightarrow> Ok () | Some r \<Rightarrow> map_err (\<lambda>_. UNKNOWN_ERROR) r, w) (\<lambda>_ w.
     let requester_uid = se_calling_uid env in
     and_then (calling_sid env, w) (\<lambda>requester_sid w.
     let requester_debug_pid = se_calling_pid env in
     and_then (case allocate_cid (w_state w) of (r, st) \<Rightarrow> (r, w\<lparr>w_state := st\<rparr>)) (\<lambda>cid w.
     and_then (start_vm env cid (se_log_fd env \<noteq> None) requester_uid requester_sid requester_debug_pid w)
       (\<lambda>vm w.
       let w = add_vm vm w in
       (Ok vm, w\<lparr>w_refs := (w_refs w)(vm := w_refs w vm + 1)\<rparr>)))))"

section \<open>The debug methods\<close>

definition DEBUG_ALLOWED_UIDS :: "nat list" where
  "DEBUG_ALLOWED_UIDS = [0, 2000]"

definition debug_access_allowed :: "nat \<Rightarrow> bool" where
  "debug_access_allowed uid \<longleftrightarrow> uid \<in> set DEBUG_ALLOWED_UIDS"

definition State_vms :: "'cb vm_world \<Rightarrow> nat list" where
  "State_vms w = filter (upgradable w) (state_vms (w_state w))"

record VirtualMachineDebugInfo =
  info_cid :: int
  info_requesterUid :: int
  info_requesterSid :: string
  info_requesterPid :: int
  info_running :: bool

definition debug_info :: "'cb VmInstance \<Rightarrow> VirtualMachineDebugInfo" where
  "debug_info vm =
     \<lparr>info_cid = as_i32 (vi_cid vm), info_requesterUid = as_i32 (vi_requester_uid vm),
      info_requesterSid = vi_requester_sid vm, info_requesterPid = vi_requester_debug_pid vm,
      info_running = vi_running vm\<rparr>"

definition debugListVms :: "nat \<Rightarrow> 'cb vm_world \<Rightarrow> (StatusCode, VirtualMachineDebugInfo list) res" where
  "debugListVms uid w =
     (if \<not> debug_access_allowed uid then Err PERMISSION_DENIED
      else Ok (map (\<lambda>i. debug_info (w_instances w ! i)) (State_vms w)))"

definition debug_hold_vm :: "nat \<Rightarrow> manager_state \<Rightarrow> manager_state" where
  "debug_hold_vm vm self = self\<lparr>debug_held_vms := debug_held_vms self @ [vm]\<rparr>"

definition debugHoldVmRef :: "nat \<Rightarrow> nat \<Rightarrow> 'cb vm_world \<Rightarrow> (StatusCode, unit) res \<times> 'cb vm_world" where
  "debugHoldVmRef uid vmref w =
     (if \<not> debug_access_allowed uid then (Err PERMISSION_DENIED, w)
      else (Ok (), w\<lparr>w_state := debug_hold_vm vmref (w_state w)\<rparr>))"

fun position :: "('a \<Rightarrow> bool) \<Rightarrow> 'a list \<Rightarrow> nat option" where
  "position P [] = None"
| "position P (x # xs) = (if P x then Some 0 else map_option Suc (position P xs))"

text \<open>\<open>Vec::swap_remove\<close>: the last element takes the place of the removed one.\<close>

definition swap_remove :: "'a list \<Rightarrow> nat \<Rightarrow> 'a \<times> 'a list" where
  "swap_remove xs i = (xs ! i, butlast (xs[i := last xs]))"

definition getCid :: "'cb vm_world \<Rightarrow> nat \<Rightarrow> int" where
  "getCid w i = as_i32 (vi_cid (w_instances w ! i))"

definition debug_drop_vm :: "int \<Rightarrow> 'cb vm_world \<Rightarrow> nat option \<times> 'cb vm_world" where
  "debug_drop_vm cid w =
     (case position (\<lambda>vm. getCid w vm = cid) (debug_held_vms (w_state w)) of
        None \<Rightarrow> (None, w)
      | Some pos \<Rightarrow>
          (case swap_remove (debug_held_vms (w_state w)) pos of
             (vm, held) \<Rightarrow>
               (Some vm, w\<lparr>w_state := (w_state w)\<lparr>debug_held_vms := held\<rparr>,
                           w_refs := (w_refs w)(vm := w_refs w vm + 1)\<rparr>)))"

definition debugDropVmRef :: "nat \<Rightarrow> int \<Rightarrow> 'cb vm_world \<Rightarrow> (StatusCode, nat option) res \<times> 'cb vm_world" where
  "debugDropVmRef uid cid w =
     (if \<not> debug_access_allowed uid then (Err PERMISSION_DENIED, w)
      else (case debug_drop_vm cid w of (r, w) \<Rightarrow> (Ok r, w)))"

section \<open>A VM object\<close>

definition isRunning :: "'cb vm_world \<Rightarrow> nat \<Rightarrow> bool" where
  "isRunning w i = vi_running (w_instances w ! i)"

definition registerCallback :: "nat \<Rightarrow> 'cb \<Rightarrow> 'cb vm_world \<Rightarrow> 'cb vm_world" where
  "registerCallback i callback w = update_instance i (\<lambda>d. d\<lparr>vi_callbacks := vi_callbacks d @ [callback]\<rparr>) w"

definition VmInstance_kill :: "nat \<Rightarrow> 'cb vm_world \<Rightarrow> 'cb vm_world" where
  "VmInstance_kill i w = w\<lparr>w_killed := w_killed w @ [vi_child (w_instances w ! i)]\<rparr>"

text \<open>A client gives up a reference; with the last one the object is dropped (\<open>Drop for VirtualMachine\<close>).\<close>

definition release_ref :: "nat \<Rightarrow> 'cb vm_world \<Rightarrow> 'cb vm_world" where
  "release_ref i w =
     (let w = w\<lparr>w_refs := (w_refs w)(i := w_refs w i - 1)\<rparr> in
      if referenced w i then w else VmInstance_kill i w)"

text \<open>\<open>monitor\<close> after \<open>wait\<close> has returned, and \<open>callback_on_died\<close>.\<close>

definition monitor_mark :: "nat \<Rightarrow> 'cb vm_world \<Rightarrow> 'cb vm_world" where
  "monitor_mark i w =
     (update_instance i (\<lambda>d. d\<lparr>vi_running := False\<rparr>) w)\<lparr>w_monitors := (w_monitors w)[i := Marked]\<rparr>"

definition callback_on_died :: "nat \<Rightarrow> 'cb vm_world \<Rightarrow> 'cb vm_world" where
  "callback_on_died i w =
     w\<lparr>w_called := w_called w @ map (\<lambda>cb. (i, cb, as_i32 (vi_cid (w_instances w ! i)))) (vi_callbacks (w_instances w ! i)),
       w_monitors := (w_monitors w)[i := Finished]\<rparr>"

section \<open>Interleavings\<close>

text \<open>
  Requests of clients, drops of references, the end of a process, and the steps of the monitor threads, in
  any order. A client can pass and drop only references it has; a new process has a new process handle.
  \<open>wait_fails\<close> says whether waiting for a process may fail while the process runs.
\<close>

inductive vm_step :: "bool \<Rightarrow> 'cb vm_world \<Rightarrow> 'cb vm_world \<Rightarrow> bool" for wait_fails where
  step_start: "startVm env w = (r, w') \<Longrightarrow> \<forall>c. se_spawn env = Ok c \<longrightarrow> c \<notin> fst ` set (w_commands w) \<Longrightarrow>
    vm_step wait_fails w w'"
| step_hold: "0 < w_refs w i \<Longrightarrow> debugHoldVmRef uid i w = (r, w') \<Longrightarrow> vm_step wait_fails w w'"
| step_drop: "debugDropVmRef uid cid w = (r, w') \<Longrightarrow> vm_step wait_fails w w'"
| step_register: "0 < w_refs w i \<Longrightarrow> vm_step wait_fails w (registerCallback i cb w)"
| step_release: "0 < w_refs w i \<Longrightarrow> vm_step wait_fails w (release_ref i w)"
| step_exit: "vm_step wait_fails w (w\<lparr>w_exited := insert c (w_exited w)\<rparr>)"
| step_mark: "i < length (w_monitors w) \<Longrightarrow> w_monitors w ! i = Waiting \<Longrightarrow>
    wait_fails \<or> vi_child (w_instances w ! i) \<in> w_exited w \<Longrightarrow> vm_step wait_fails w (monitor_mark i w)"
| step_notify: "i < length (w_monitors w) \<Longrightarrow> w_monitors w ! i = Marked \<Longrightarrow>
    vm_step wait_fails w (callback_on_died i w)"

end
