(* ===== verification/Virt_Manager_Correct.thy ===== *)
theory Virt_Manager_Correct
  imports Virt_Manager "HOL-Library.Sublist"
begin

text \<open>
  Properties of the service (theory \<open>Virt_Manager\<close>) in every interleaving of requests, dropped references,
  ending processes and monitor threads (\<open>vm_step\<close>). The invariant has three parts: the CIDs are unique, a VM is
  killed exactly when nobody refers to it, and the monitor thread of a VM calls the callbacks once.
\<close>

section \<open>Starting a VM\<close>

definition started :: "nat \<Rightarrow> nat \<Rightarrow> string \<Rightarrow> int \<Rightarrow> command \<Rightarrow> 'cb vm_world \<Rightarrow> 'cb vm_world" where
  "started child uid sid pid cmd w =
     (let cid = next_cid (w_state w);
          w1 = w\<lparr>w_state := (w_state w)\<lparr>next_cid := cid + 1\<rparr>,
                 w_commands := w_commands w @ [(child, cmd)],
                 w_instances := w_instances w @ [VmInstance_new child cid uid sid pid],
                 w_monitors := w_monitors w @ [Waiting]\<rparr>;
          vm = length (w_instances w);
          w2 = add_vm vm w1 in
      w2\<lparr>w_refs := (w_refs w)(vm := w_refs w vm + 1)\<rparr>)"

lemma started_fields [simp]:
  "next_cid (w_state (started child uid sid pid cmd w)) = next_cid (w_state w) + 1"
  "debug_held_vms (w_state (started child uid sid pid cmd w)) = debug_held_vms (w_state w)"
  "w_instances (started child uid sid pid cmd w) =
     w_instances w @ [VmInstance_new child (next_cid (w_state w)) uid sid pid]"
  "w_monitors (started child uid sid pid cmd w) = w_monitors w @ [Waiting]"
  "w_refs (started child uid sid pid cmd w) =
     (w_refs w)(length (w_instances w) := w_refs w (length (w_instances w)) + 1)"
  "w_commands (started child uid sid pid cmd w) = w_commands w @ [(child, cmd)]"
  "w_killed (started child uid sid pid cmd w) = w_killed w"
  "w_exited (started child uid sid pid cmd w) = w_exited w"
  "w_called (started child uid sid pid cmd w) = w_called w"
  by (simp_all add: started_def add_vm_def Let_def)

text \<open>\<open>startVm\<close> does nothing, or uses up a CID and fails, or starts a VM.\<close>

lemma startVm_cases:
  assumes "startVm env w = (r, w')"
  obtains (same) "w' = w" "\<And>i. r \<noteq> Ok i"
    | (lost) "w' = w\<lparr>w_state := (w_state w)\<lparr>next_cid := next_cid (w_state w) + 1\<rparr>\<rparr>" "next_cid (w_state w) + 1 < 2 ^ 32"
        "\<And>i. r \<noteq> Ok i"
    | (started) child config sid where "r = Ok (length (w_instances w))" "next_cid (w_state w) + 1 < 2 ^ 32"
        "se_config env = Ok config" "VmConfig_validate config = Ok ()" "se_spawn env = Ok child" "calling_sid env = Ok sid"
        "w' = started child (se_calling_uid env) sid (se_calling_pid env)
           (crosvm_command config (next_cid (w_state w)) (se_log_fd env \<noteq> None)) w"
proof -
  let ?log = "case se_log_fd env of None \<Rightarrow> Ok () | Some r \<Rightarrow> map_err (\<lambda>_. UNKNOWN_ERROR) r"
  consider (a) "\<And>x. ?log \<noteq> Ok x" | (b) "?log = Ok ()" "\<And>x. calling_sid env \<noteq> Ok x"
    | (c) sid where "?log = Ok ()" "calling_sid env = Ok sid" "\<not> next_cid (w_state w) + 1 < 2 ^ 32"
    | (d) sid where "?log = Ok ()" "calling_sid env = Ok sid" "next_cid (w_state w) + 1 < 2 ^ 32"
    by (cases ?log; cases "calling_sid env") auto
  then show thesis
  proof cases
    case a
    then show thesis using assms same by (cases ?log) (auto simp: startVm_def)
  next
    case b
    then show thesis using assms same by (cases "calling_sid env") (auto simp: startVm_def)
  next
    case c
    then show thesis using assms same by (auto simp: startVm_def allocate_cid_def)
  next
    case d
    let ?w = "w\<lparr>w_state := (w_state w)\<lparr>next_cid := next_cid (w_state w) + 1\<rparr>\<rparr>"
    let ?start = "start_vm env (next_cid (w_state w)) (se_log_fd env \<noteq> None) (se_calling_uid env) sid (se_calling_pid env) ?w"
    from assms d have run: "and_then ?start (\<lambda>vm w. let w = add_vm vm w in
        (Ok vm, w\<lparr>w_refs := (w_refs w)(vm := w_refs w vm + 1)\<rparr>)) = (r, w')"
      by (simp add: startVm_def allocate_cid_def Let_def)
    show thesis
    proof (cases "se_config env")
      case (Ok config)
      show thesis
      proof (cases "VmConfig_validate config = Ok ()")
        case True
        show thesis
        proof (cases "se_spawn env")
          case spawn: (Ok child)
          with run Ok True d show thesis
            by (intro started[OF _ d(3) Ok True spawn d(2)])
              (auto simp: start_vm_def VmInstance_start_def run_vm_def map_err_st_def Let_def started_def add_vm_def)
        qed (use run Ok True lost d(3) in \<open>auto simp: start_vm_def VmInstance_start_def run_vm_def map_err_st_def\<close>)
      next
        case False
        then show thesis using run Ok lost d(3)
          by (cases "VmConfig_validate config")
            (auto simp: start_vm_def VmInstance_start_def run_vm_def map_err_st_def)
      qed
    qed (use run lost d(3) in \<open>auto simp: start_vm_def\<close>)
  qed
qed

section \<open>The other operations\<close>

lemma position_Some: "position P xs = Some i \<Longrightarrow> i < length xs \<and> P (xs ! i)"
  by (induction xs arbitrary: i) (auto split: if_splits)

lemma position_None: "position P xs = None \<longleftrightarrow> (\<forall>x \<in> set xs. \<not> P x)"
  by (induction xs) auto

lemma set_swap_remove: "i < length xs \<Longrightarrow> set xs = insert (xs ! i) (set (snd (swap_remove xs i)))"
proof -
  assume i: "i < length xs"
  then obtain ys y where xs: "xs = ys @ [y]" by (cases xs rule: rev_cases) auto
  show ?thesis
  proof (cases "i < length ys")
    case True
    have "set ys = insert (ys ! i) (set (take i ys) \<union> set (drop (Suc i) ys))"
      using id_take_nth_drop[OF True] by (metis Un_insert_right list.simps(15) set_append)
    moreover have "set (ys[i := y]) = insert y (set (take i ys) \<union> set (drop (Suc i) ys))"
      using True by (simp add: upd_conv_take_nth_drop)
    ultimately show ?thesis using True by (auto simp: xs swap_remove_def nth_append list_update_append)
  next
    case False
    with i have "i = length ys" by (simp add: xs)
    then show ?thesis by (simp add: xs swap_remove_def list_update_append)
  qed
qed

definition dropped_ref :: "nat \<Rightarrow> 'cb vm_world \<Rightarrow> 'cb vm_world" where
  "dropped_ref pos w =
     (let held = debug_held_vms (w_state w); vm = held ! pos in
      w\<lparr>w_state := (w_state w)\<lparr>debug_held_vms := snd (swap_remove held pos)\<rparr>, w_refs := (w_refs w)(vm := w_refs w vm + 1)\<rparr>)"

lemma debugDrop_cases:
  assumes "debugDropVmRef uid cid w = (r, w')"
  obtains (same) "w' = w"
    | (dropped) pos where "pos < length (debug_held_vms (w_state w))"
        "getCid w (debug_held_vms (w_state w) ! pos) = cid" "r = Ok (Some (debug_held_vms (w_state w) ! pos))"
        "w' = dropped_ref pos w"
proof (cases "position (\<lambda>vm. getCid w vm = cid) (debug_held_vms (w_state w))")
  case None
  with assms same show thesis by (auto simp: debugDropVmRef_def debug_drop_vm_def split: if_splits)
next
  case (Some pos)
  note pos = position_Some[OF Some]
  show thesis
  proof (cases "debug_access_allowed uid")
    case True
    with assms Some have "r = Ok (Some (debug_held_vms (w_state w) ! pos))" "w' = dropped_ref pos w"
      by (auto simp: debugDropVmRef_def debug_drop_vm_def dropped_ref_def swap_remove_def Let_def)
    with pos show thesis by (intro dropped[of pos]) simp_all
  next
    case False
    with assms same show thesis by (simp add: debugDropVmRef_def)
  qed
qed

lemma dropped_ref_fields [simp]:
  "next_cid (w_state (dropped_ref pos w)) = next_cid (w_state w)"
  "w_instances (dropped_ref pos w) = w_instances w" "w_monitors (dropped_ref pos w) = w_monitors w"
  "w_commands (dropped_ref pos w) = w_commands w" "w_killed (dropped_ref pos w) = w_killed w"
  "w_exited (dropped_ref pos w) = w_exited w" "w_called (dropped_ref pos w) = w_called w"
  by (simp_all add: dropped_ref_def Let_def)

lemma dropped_ref_referenced:
  assumes "pos < length (debug_held_vms (w_state w))"
  shows "referenced (dropped_ref pos w) i = referenced w i"
  unfolding referenced_def dropped_ref_def Let_def set_swap_remove[OF assms] by simp

lemma update_instance_fields [simp]:
  "w_state (update_instance i f w) = w_state w" "w_monitors (update_instance i f w) = w_monitors w"
  "w_refs (update_instance i f w) = w_refs w" "w_commands (update_instance i f w) = w_commands w"
  "w_killed (update_instance i f w) = w_killed w" "w_exited (update_instance i f w) = w_exited w"
  "w_called (update_instance i f w) = w_called w" "length (w_instances (update_instance i f w)) = length (w_instances w)"
  by (simp_all add: update_instance_def)

lemma nth_update_instance:
  "j < length (w_instances w) \<Longrightarrow>
   w_instances (update_instance i f w) ! j = (if j = i then f (w_instances w ! j) else w_instances w ! j)"
  by (simp add: update_instance_def)

lemma map_update_instance:
  "(\<And>d. g (f d) = g d) \<Longrightarrow> map g (w_instances (update_instance i f w)) = map g (w_instances w)"
  by (rule nth_equalityI) (auto simp: nth_update_instance)

lemma release_ref_fields [simp]:
  "w_state (release_ref i w) = w_state w" "w_instances (release_ref i w) = w_instances w"
  "w_monitors (release_ref i w) = w_monitors w" "w_commands (release_ref i w) = w_commands w"
  "w_exited (release_ref i w) = w_exited w" "w_called (release_ref i w) = w_called w"
  "w_refs (release_ref i w) = (w_refs w)(i := w_refs w i - 1)"
  by (simp_all add: release_ref_def VmInstance_kill_def Let_def)

section \<open>CIDs\<close>

definition inv_cids :: "'cb vm_world \<Rightarrow> bool" where
  "inv_cids w \<longleftrightarrow>
     FIRST_GUEST_CID \<le> next_cid (w_state w) \<and> next_cid (w_state w) < 2 ^ 32 \<and>
     distinct (map vi_cid (w_instances w)) \<and>
     (\<forall>c \<in> set (map vi_cid (w_instances w)). FIRST_GUEST_CID \<le> c \<and> c < next_cid (w_state w))"

lemma inv_cids_cong:
  "next_cid (w_state w') = next_cid (w_state w) \<Longrightarrow> map vi_cid (w_instances w') = map vi_cid (w_instances w) \<Longrightarrow>
   inv_cids w' = inv_cids w"
  by (simp only: inv_cids_def)

lemma step_cids:
  assumes "vm_step wait_fails w w'" "inv_cids w"
  shows "inv_cids w'"
  using assms(1)
proof cases
  case (step_start env r)
  from step_start(1) show ?thesis
  proof (cases rule: startVm_cases)
    case same
    with assms(2) show ?thesis by simp
  next
    case lost
    with assms(2) show ?thesis by (auto simp: inv_cids_def less_Suc_eq)
  next
    case (started child config sid)
    with assms(2) show ?thesis by (auto simp: inv_cids_def VmInstance_new_def less_Suc_eq)
  qed
next
  case (step_hold i uid r)
  then show ?thesis using assms(2) by (auto simp: debugHoldVmRef_def debug_hold_vm_def inv_cids_def split: if_splits)
next
  case (step_drop uid cid r)
  from step_drop(1) show ?thesis
    by (cases rule: debugDrop_cases) (use assms(2) in \<open>simp_all add: inv_cids_def\<close>)
next
  case (step_register i cb)
  then show ?thesis using assms(2) inv_cids_cong[of w' w] by (simp add: registerCallback_def map_update_instance)
next
  case (step_release i)
  then show ?thesis using assms(2) by (simp add: inv_cids_def)
next
  case (step_exit c)
  then show ?thesis using assms(2) by (simp add: inv_cids_def)
next
  case (step_mark i)
  then show ?thesis using assms(2) inv_cids_cong[of w' w] by (simp add: monitor_mark_def map_update_instance)
next
  case (step_notify i)
  then show ?thesis using assms(2) by (simp add: callback_on_died_def inv_cids_def)
qed

section \<open>References\<close>

text \<open>The instances whose binder object is gone.\<close>

definition dropped_vms :: "'cb vm_world \<Rightarrow> nat set" where
  "dropped_vms w = {i. i < length (w_instances w) \<and> \<not> referenced w i}"

definition inv_refs :: "'cb vm_world \<Rightarrow> bool" where
  "inv_refs w \<longleftrightarrow>
     length (w_monitors w) = length (w_instances w) \<and>
     distinct (map vi_child (w_instances w)) \<and> set (map vi_child (w_instances w)) \<subseteq> fst ` set (w_commands w) \<and>
     (\<forall>i. length (w_instances w) \<le> i \<longrightarrow> \<not> referenced w i) \<and>
     distinct (w_killed w) \<and> set (w_killed w) = (\<lambda>i. map vi_child (w_instances w) ! i) ` dropped_vms w"

lemma inv_refs_cong:
  assumes "length (w_monitors w') = length (w_monitors w)" "map vi_child (w_instances w') = map vi_child (w_instances w)"
    and "w_commands w' = w_commands w" "w_killed w' = w_killed w" "\<And>i. referenced w' i = referenced w i"
  shows "inv_refs w' = inv_refs w"
proof -
  have "length (w_instances w') = length (w_instances w)" using arg_cong[OF assms(2), of length] by simp
  with assms show ?thesis by (simp only: inv_refs_def dropped_vms_def)
qed

lemma started_refs:
  assumes "inv_refs w" "child \<notin> fst ` set (w_commands w)"
  shows "inv_refs (started child uid sid pid cmd w)"
proof -
  let ?w = "started child uid sid pid cmd w" and ?n = "length (w_instances w)"
  have r: "referenced ?w i = (i = ?n \<or> referenced w i)" for i by (simp add: referenced_def)
  have n: "\<not> referenced w ?n" using assms(1) by (simp add: inv_refs_def)
  have d: "dropped_vms ?w = dropped_vms w" by (auto simp: dropped_vms_def r less_Suc_eq)
  have "(\<lambda>i. map vi_child (w_instances ?w) ! i) ` dropped_vms w = (\<lambda>i. map vi_child (w_instances w) ! i) ` dropped_vms w"
    by (rule image_cong) (simp_all add: dropped_vms_def nth_append)
  then show ?thesis
    using assms by (auto simp: inv_refs_def d r VmInstance_new_def)
qed

lemma release_refs:
  assumes "inv_refs w" "0 < w_refs w i"
  shows "inv_refs (release_ref i w)"
proof -
  have ref: "referenced w i" using assms(2) by (simp add: referenced_def)
  then have i: "i < length (w_instances w)" using assms(1) by (meson inv_refs_def not_le)
  have other: "referenced (release_ref i w) j = referenced w j" if "j \<noteq> i" for j
    using that by (simp add: referenced_def)
  show ?thesis
  proof (cases "referenced (release_ref i w) i")
    case True
    then have "w_killed (release_ref i w) = w_killed w"
      by (simp add: release_ref_def Let_def VmInstance_kill_def referenced_def split: if_splits)
    moreover have "referenced (release_ref i w) j = referenced w j" for j using other ref True by (cases "j = i") auto
    ultimately show ?thesis using assms(1) inv_refs_cong[of "release_ref i w" w] by simp
  next
    case False
    then have k: "w_killed (release_ref i w) = w_killed w @ [vi_child (w_instances w ! i)]"
      by (simp add: release_ref_def Let_def VmInstance_kill_def referenced_def split: if_splits)
    have d: "dropped_vms (release_ref i w) = insert i (dropped_vms w)"
    proof (rule set_eqI)
      show "j \<in> dropped_vms (release_ref i w) \<longleftrightarrow> j \<in> insert i (dropped_vms w)" for j
        using other[of j] False i by (cases "j = i") (simp_all add: dropped_vms_def)
    qed
    have "vi_child (w_instances w ! i) \<notin> set (w_killed w)"
    proof
      assume "vi_child (w_instances w ! i) \<in> set (w_killed w)"
      then obtain j where j: "j \<in> dropped_vms w" "map vi_child (w_instances w) ! i = map vi_child (w_instances w) ! j"
        using assms(1) i by (auto simp: inv_refs_def)
      have "distinct (map vi_child (w_instances w))" using assms(1) by (simp add: inv_refs_def)
      from nth_eq_iff_index_eq[OF this, of i j] have "i = j" using j i by (simp add: dropped_vms_def)
      with j(1) ref show False by (simp add: dropped_vms_def)
    qed
    moreover have "\<not> referenced (release_ref i w) j" if "length (w_instances w) \<le> j" for j
      using assms(1) other[of j] that i by (simp add: inv_refs_def)
    ultimately show ?thesis using assms(1) i by (simp add: inv_refs_def d k)
  qed
qed

lemma step_refs:
  assumes "vm_step wait_fails w w'" "inv_refs w"
  shows "inv_refs w'"
  using assms(1)
proof cases
  case (step_start env r)
  from step_start(1) show ?thesis
  proof (cases rule: startVm_cases)
    case same
    with assms(2) show ?thesis by simp
  next
    case lost
    with assms(2) inv_refs_cong[of w' w] show ?thesis by (simp add: referenced_def)
  next
    case (started child config sid)
    with assms(2) step_start(2) started_refs[of w child] show ?thesis by simp
  qed
next
  case (step_hold i uid r)
  then have "w' = w \<or> w' = w\<lparr>w_state := debug_hold_vm i (w_state w)\<rparr>" by (auto simp: debugHoldVmRef_def split: if_splits)
  moreover have "referenced (w\<lparr>w_state := debug_hold_vm i (w_state w)\<rparr>) j = referenced w j" for j
    using step_hold(1) by (auto simp: referenced_def debug_hold_vm_def)
  ultimately show ?thesis using assms(2) inv_refs_cong[of w' w] by auto
next
  case (step_drop uid cid r)
  from step_drop(1) show ?thesis
  proof (cases rule: debugDrop_cases)
    case (dropped pos)
    with assms(2) inv_refs_cong[of w' w] dropped_ref_referenced[OF dropped(1)] show ?thesis by simp
  qed (use assms(2) in simp)
next
  case (step_register i cb)
  then show ?thesis using assms(2) inv_refs_cong[of w' w]
    by (simp add: registerCallback_def map_update_instance referenced_def)
next
  case (step_release i)
  then show ?thesis using release_refs[OF assms(2)] by simp
next
  case (step_exit c)
  then show ?thesis using assms(2) inv_refs_cong[of w' w] by (simp add: referenced_def)
next
  case (step_mark i)
  then show ?thesis using assms(2) inv_refs_cong[of w' w]
    by (simp add: monitor_mark_def map_update_instance referenced_def)
next
  case (step_notify i)
  then show ?thesis using assms(2) inv_refs_cong[of w' w] by (simp add: callback_on_died_def referenced_def)
qed

section \<open>The monitor threads\<close>

text \<open>The callbacks called for an instance, in order.\<close>

definition calls :: "'cb vm_world \<Rightarrow> nat \<Rightarrow> 'cb list" where
  "calls w i = map (\<lambda>x. fst (snd x)) (filter (\<lambda>x. fst x = i) (w_called w))"

definition monitored :: "bool \<Rightarrow> 'cb vm_world \<Rightarrow> nat \<Rightarrow> bool" where
  "monitored wait_fails w i \<longleftrightarrow>
     (vi_running (w_instances w ! i) \<longleftrightarrow> w_monitors w ! i = Waiting) \<and>
     (w_monitors w ! i \<noteq> Waiting \<longrightarrow> wait_fails \<or> vi_child (w_instances w ! i) \<in> w_exited w) \<and>
     (w_monitors w ! i = Finished \<longrightarrow> prefix (calls w i) (vi_callbacks (w_instances w ! i))) \<and>
     (w_monitors w ! i \<noteq> Finished \<longrightarrow> calls w i = [])"

definition inv_monitor :: "bool \<Rightarrow> 'cb vm_world \<Rightarrow> bool" where
  "inv_monitor wait_fails w \<longleftrightarrow>
     length (w_monitors w) = length (w_instances w) \<and>
     (\<forall>i < length (w_instances w). monitored wait_fails w i) \<and> (\<forall>i. length (w_instances w) \<le> i \<longrightarrow> calls w i = [])"

lemma monitored_cong:
  assumes "w_instances w' ! i = w_instances w ! i" "w_monitors w' ! i = w_monitors w ! i" "w_called w' = w_called w"
    and "w_exited w \<subseteq> w_exited w'" "monitored wait_fails w i"
  shows "monitored wait_fails w' i"
  using assms by (auto simp: monitored_def calls_def)

lemma inv_monitor_cong:
  assumes "inv_monitor wait_fails w" "w_instances w' = w_instances w" "w_monitors w' = w_monitors w"
    and "w_called w' = w_called w" "w_exited w \<subseteq> w_exited w'"
  shows "inv_monitor wait_fails w'"
proof -
  have "monitored wait_fails w' i" if "i < length (w_instances w)" for i
    by (rule monitored_cong[of w' i w]) (use assms that in \<open>simp_all add: inv_monitor_def\<close>)
  then show ?thesis using assms by (simp add: inv_monitor_def calls_def)
qed

lemma inv_monitor_upd:
  assumes "inv_monitor wait_fails w" "i < length (w_instances w)" "length (w_instances w') = length (w_instances w)"
    and "length (w_monitors w') = length (w_monitors w)" "w_exited w' = w_exited w"
    and "\<And>j. j \<noteq> i \<Longrightarrow> j < length (w_instances w) \<Longrightarrow> w_instances w' ! j = w_instances w ! j \<and> w_monitors w' ! j = w_monitors w ! j"
    and "\<And>j. j \<noteq> i \<Longrightarrow> calls w' j = calls w j" "monitored wait_fails w' i"
  shows "inv_monitor wait_fails w'"
proof -
  have "monitored wait_fails w' j" if j: "j < length (w_instances w)" for j
  proof (cases "j = i")
    case False
    then have "monitored wait_fails w j" using assms(1) j by (simp add: inv_monitor_def)
    then show ?thesis using assms(5) assms(6)[OF False j] assms(7)[OF False] by (simp add: monitored_def)
  qed (simp add: assms(8))
  then show ?thesis using assms(1-4,7) by (simp add: inv_monitor_def)
qed

lemma step_monitor:
  assumes "vm_step wait_fails w w'" "inv_monitor wait_fails w" "inv_refs w"
  shows "inv_monitor wait_fails w'"
  using assms(1)
proof cases
  case (step_start env r)
  from step_start(1) show ?thesis
  proof (cases rule: startVm_cases)
    case (started child config sid)
    have "monitored wait_fails w' i" if i: "i < length (w_instances w')" for i
    proof (cases "i < length (w_instances w)")
      case True
      have "monitored wait_fails w i" using assms(2) True by (simp add: inv_monitor_def)
      then show ?thesis
        by (rule monitored_cong[rotated 4]) (use True assms(2) in \<open>simp_all add: started(7) nth_append inv_monitor_def\<close>)
    next
      case False
      then have "i = length (w_instances w)" using i by (simp add: started(7))
      then show ?thesis using assms(2)
        by (simp add: started(7) inv_monitor_def monitored_def calls_def VmInstance_new_def nth_append)
    qed
    then show ?thesis using assms(2) by (simp add: inv_monitor_def started(7) calls_def)
  qed (rule inv_monitor_cong[OF assms(2)], simp_all)+
next
  case (step_hold i uid r)
  then show ?thesis using inv_monitor_cong[OF assms(2), of w'] by (auto simp: debugHoldVmRef_def split: if_splits)
next
  case (step_drop uid cid r)
  from step_drop(1) show ?thesis
    by (cases rule: debugDrop_cases) (use inv_monitor_cong[OF assms(2), of w'] in simp_all)
next
  case (step_register i cb)
  have i: "i < length (w_instances w)"
    using step_register(2) assms(3) by (meson inv_refs_def not_le referenced_def)
  have "monitored wait_fails w i" using assms(2) i by (simp add: inv_monitor_def)
  then have "monitored wait_fails w' i"
    using i by (auto simp: monitored_def calls_def step_register(1) registerCallback_def nth_update_instance
        intro: prefix_order.trans)
  then show ?thesis
    by (intro inv_monitor_upd[OF assms(2) i])
      (simp_all add: step_register(1) registerCallback_def nth_update_instance calls_def)
next
  case (step_release i)
  then show ?thesis using inv_monitor_cong[OF assms(2), of w'] by simp
next
  case (step_exit c)
  then show ?thesis using inv_monitor_cong[OF assms(2), of w'] by auto
next
  case (step_mark i)
  have i: "i < length (w_instances w)" using step_mark(2) assms(2) by (simp add: inv_monitor_def)
  have "monitored wait_fails w i" using assms(2) i by (simp add: inv_monitor_def)
  then have "monitored wait_fails w' i"
    using i step_mark by (auto simp: monitored_def calls_def monitor_mark_def nth_update_instance)
  then show ?thesis
    by (intro inv_monitor_upd[OF assms(2) i])
      (simp_all add: step_mark(1) monitor_mark_def nth_update_instance calls_def)
next
  case (step_notify i)
  have i: "i < length (w_instances w)" using step_notify(2) assms(2) by (simp add: inv_monitor_def)
  have "monitored wait_fails w i" using assms(2) i by (simp add: inv_monitor_def)
  then have "monitored wait_fails w' i"
    using i step_notify by (simp add: monitored_def calls_def callback_on_died_def filter_map comp_def)
  then show ?thesis
    by (intro inv_monitor_upd[OF assms(2) i])
      (simp_all add: step_notify(1) callback_on_died_def calls_def filter_map comp_def)
qed

section \<open>Reachable worlds\<close>

definition vm_reach :: "bool \<Rightarrow> 'cb vm_world \<Rightarrow> 'cb vm_world \<Rightarrow> bool" where
  "vm_reach wait_fails = (vm_step wait_fails)\<^sup>*\<^sup>*"

definition vm_inv :: "bool \<Rightarrow> 'cb vm_world \<Rightarrow> bool" where
  "vm_inv wait_fails w \<longleftrightarrow> inv_cids w \<and> inv_refs w \<and> inv_monitor wait_fails w"

lemma default_inv: "vm_inv wait_fails VirtManager_default"
  by (simp add: vm_inv_def inv_cids_def inv_refs_def inv_monitor_def VirtManager_default_def State_default_def
      referenced_def dropped_vms_def calls_def FIRST_GUEST_CID_def)

lemma reach_inv: "vm_reach wait_fails w w' \<Longrightarrow> vm_inv wait_fails w \<Longrightarrow> vm_inv wait_fails w'"
  unfolding vm_reach_def
proof (induction rule: rtranclp_induct)
  case (step y z)
  then show ?case using step_cids step_refs step_monitor unfolding vm_inv_def by blast
qed

lemma reachable_inv: "vm_reach wait_fails VirtManager_default w \<Longrightarrow> vm_inv wait_fails w"
  by (rule reach_inv[OF _ default_inv])

lemma as_i32_inj: "a < 2 ^ 32 \<Longrightarrow> b < 2 ^ 32 \<Longrightarrow> as_i32 a = as_i32 b \<Longrightarrow> a = b"
  by (auto simp: as_i32_def split: if_splits)

lemma step_grows: "vm_step wait_fails w w' \<Longrightarrow> length (w_instances w) \<le> length (w_instances w')"
proof (induction rule: vm_step.induct)
  case (step_start env w r w')
  from step_start(1) show ?case by (cases rule: startVm_cases) simp_all
next
  case (step_drop uid cid w r w')
  from step_drop(1) show ?case by (cases rule: debugDrop_cases) simp_all
qed (auto simp: debugHoldVmRef_def registerCallback_def monitor_mark_def callback_on_died_def split: if_splits)

lemma reach_grows: "vm_reach wait_fails w w' \<Longrightarrow> length (w_instances w) \<le> length (w_instances w')"
  unfolding vm_reach_def by (induction rule: rtranclp_induct) (auto dest: step_grows)

text \<open>What a finished monitor has called does not change.\<close>

lemma finished_calls_stay:
  assumes "vm_step wait_fails w w'" "inv_refs w" "i < length (w_instances w)" "w_monitors w ! i = Finished"
  shows "i < length (w_instances w') \<and> w_monitors w' ! i = Finished \<and> calls w' i = calls w i"
  using assms(1)
proof cases
  case (step_start env r)
  from step_start(1) show ?thesis
    by (cases rule: startVm_cases) (use assms(2-4) in \<open>simp_all add: calls_def inv_refs_def nth_append\<close>)
next
  case (step_hold j uid r)
  then show ?thesis using assms(3,4) by (auto simp: debugHoldVmRef_def calls_def split: if_splits)
next
  case (step_drop uid cid r)
  from step_drop(1) show ?thesis
    by (cases rule: debugDrop_cases) (use assms(3,4) in \<open>simp_all add: calls_def\<close>)
next
  case (step_notify j)
  then have "j \<noteq> i" using assms(4) by auto
  then show ?thesis using step_notify assms(3,4) by (simp add: callback_on_died_def calls_def filter_map comp_def)
next
  case (step_mark j)
  then have "j \<noteq> i" using assms(4) by auto
  then show ?thesis using step_mark assms(3,4) by (simp add: monitor_mark_def calls_def)
qed (use assms(3,4) in \<open>simp_all add: registerCallback_def calls_def\<close>)

lemma finished_calls_final:
  "vm_reach wait_fails w w' \<Longrightarrow> inv_refs w \<Longrightarrow> i < length (w_instances w) \<Longrightarrow> w_monitors w ! i = Finished \<Longrightarrow>
   calls w' i = calls w i"
proof -
  have "inv_refs w' \<and> i < length (w_instances w') \<and> w_monitors w' ! i = Finished \<and> calls w' i = calls w i"
    if "(vm_step wait_fails)\<^sup>*\<^sup>* w w'" "inv_refs w" "i < length (w_instances w)" "w_monitors w ! i = Finished"
    using that(1)
  proof (induction rule: rtranclp_induct)
    case (step y z)
    with finished_calls_stay[OF step(2)] step_refs[OF step(2)] show ?case by auto
  qed (use that in simp)
  then show "vm_reach wait_fails w w' \<Longrightarrow> inv_refs w \<Longrightarrow> i < length (w_instances w) \<Longrightarrow> w_monitors w ! i = Finished \<Longrightarrow>
    calls w' i = calls w i" by (simp add: vm_reach_def)
qed

text \<open>A callback that is registered before the monitor has finished is called by it.\<close>

definition will_call :: "'cb vm_world \<Rightarrow> nat \<Rightarrow> 'cb \<Rightarrow> bool" where
  "will_call w i cb \<longleftrightarrow>
     i < length (w_instances w) \<and>
     (if w_monitors w ! i = Finished then cb \<in> set (calls w i) else cb \<in> set (vi_callbacks (w_instances w ! i)))"

lemma will_call_cong:
  assumes "will_call w i cb" "w_called w' = w_called w" "length (w_instances w) \<le> length (w_instances w')"
    and "i < length (w_instances w) \<Longrightarrow> (w_monitors w' ! i = Finished) = (w_monitors w ! i = Finished)"
    and "i < length (w_instances w) \<Longrightarrow>
      set (vi_callbacks (w_instances w ! i)) \<subseteq> set (vi_callbacks (w_instances w' ! i))"
  shows "will_call w' i cb"
proof -
  have "i < length (w_instances w)" using assms(1) by (simp add: will_call_def)
  moreover have "calls w' i = calls w i" by (simp only: calls_def assms(2))
  ultimately show ?thesis using assms(1,3) assms(4,5)[OF \<open>i < length (w_instances w)\<close>]
    by (auto simp: will_call_def)
qed

lemma step_will_call:
  assumes "vm_step wait_fails w w'" "inv_refs w" "will_call w i cb"
  shows "will_call w' i cb"
proof -
  have len: "length (w_monitors w) = length (w_instances w)" using assms(2) by (simp add: inv_refs_def)
  note cong = will_call_cong[OF assms(3), of w']
  from assms(1) show ?thesis
  proof cases
    case (step_start env r)
    from step_start(1) show ?thesis
      by (cases rule: startVm_cases) (rule cong; simp add: nth_append len)+
  next
    case (step_hold j uid r)
    then have "w' = w \<or> w' = w\<lparr>w_state := debug_hold_vm j (w_state w)\<rparr>" by (auto simp: debugHoldVmRef_def split: if_splits)
    then show ?thesis by (intro cong) auto
  next
    case (step_drop uid cid r)
    from step_drop(1) show ?thesis by (cases rule: debugDrop_cases) (rule cong; simp)+
  next
    case (step_register j cb')
    then show ?thesis by (intro cong) (auto simp: registerCallback_def nth_update_instance)
  next
    case (step_mark j)
    then show ?thesis by (intro cong) (auto simp: monitor_mark_def nth_update_instance nth_list_update len)
  next
    case (step_notify j)
    show ?thesis
    proof (cases "j = i")
      case True
      with step_notify assms(3) len show ?thesis by (auto simp: will_call_def callback_on_died_def calls_def)
    next
      case False
      then have "calls w' i = calls w i" using step_notify(1) by (simp add: calls_def callback_on_died_def)
      with False step_notify(1) assms(3) show ?thesis by (simp add: will_call_def callback_on_died_def)
    qed
  qed (rule cong; simp)+
qed

lemma reach_will_call:
  assumes "vm_reach wait_fails w w'" "inv_refs w" "will_call w i cb"
  shows "will_call w' i cb"
proof -
  have "inv_refs w' \<and> will_call w' i cb"
    using assms(1) unfolding vm_reach_def
  proof (induction rule: rtranclp_induct)
    case (step y z)
    from step.IH step_refs[OF step(2)] step_will_call[OF step(2)] show ?case by simp
  qed (use assms in simp)
  then show ?thesis ..
qed

text \<open>What the invariant says of one VM, or of two.\<close>

lemma cid_bounds:
  assumes "inv_cids w" "k < length (w_instances w)"
  shows "FIRST_GUEST_CID \<le> vi_cid (w_instances w ! k)" "vi_cid (w_instances w ! k) < 2 ^ 32 - 1"
proof -
  have "vi_cid (w_instances w ! k) \<in> set (map vi_cid (w_instances w))" using assms(2) by auto
  with assms(1) have c: "FIRST_GUEST_CID \<le> vi_cid (w_instances w ! k)" "vi_cid (w_instances w ! k) < next_cid (w_state w)"
    "next_cid (w_state w) < 2 ^ 32" unfolding inv_cids_def by blast+
  show "FIRST_GUEST_CID \<le> vi_cid (w_instances w ! k)" by (rule c(1))
  show "vi_cid (w_instances w ! k) < 2 ^ 32 - 1" using c(2,3) by simp
qed

lemma getCid_inj:
  assumes "inv_cids w" "i < length (w_instances w)" "j < length (w_instances w)" "getCid w i = getCid w j"
  shows "i = j"
proof -
  have "vi_cid (w_instances w ! i) = vi_cid (w_instances w ! j)"
    using cid_bounds(2)[OF assms(1,2)] cid_bounds(2)[OF assms(1,3)] assms(4)
    by (intro as_i32_inj) (simp_all add: getCid_def)
  moreover have "distinct (map vi_cid (w_instances w))" using assms(1) by (simp add: inv_cids_def)
  ultimately show ?thesis using nth_eq_iff_index_eq[of "map vi_cid (w_instances w)" i j] assms(2,3) by simp
qed

lemma killed_iff:
  assumes "inv_refs w" "i < length (w_instances w)"
  shows "vi_child (w_instances w ! i) \<in> set (w_killed w) \<longleftrightarrow> \<not> referenced w i"
proof -
  have k: "set (w_killed w) = (\<lambda>i. map vi_child (w_instances w) ! i) ` dropped_vms w"
    "distinct (map vi_child (w_instances w))" using assms(1) by (simp_all only: inv_refs_def)
  have "vi_child (w_instances w ! i) \<in> set (w_killed w) \<longleftrightarrow> i \<in> dropped_vms w"
  proof
    assume "vi_child (w_instances w ! i) \<in> set (w_killed w)"
    then obtain j where j: "j \<in> dropped_vms w" "map vi_child (w_instances w) ! i = map vi_child (w_instances w) ! j"
      unfolding k(1) using assms(2) by auto
    with nth_eq_iff_index_eq[OF k(2), of i j] assms(2) show "i \<in> dropped_vms w" by (simp add: dropped_vms_def)
  next
    assume "i \<in> dropped_vms w"
    then show "vi_child (w_instances w ! i) \<in> set (w_killed w)" unfolding k(1) using assms(2) by force
  qed
  with assms(2) show ?thesis by (simp add: dropped_vms_def)
qed

section \<open>A sample service\<close>

definition sample_vm_config :: VmConfig where
  "sample_vm_config = \<lparr>vc_kernel = Some ''/k'', vc_initrd = None, vc_params = None, vc_bootloader = None,
     vc_disks = [\<lparr>disk_image = ''/d'', disk_writable = True\<rparr>]\<rparr>"

definition sample_start_env :: "nat \<Rightarrow> start_env" where
  "sample_start_env child = \<lparr>se_log_fd = None, se_calling_uid = 2000, se_calling_sid = Some (Some ''shell''),
     se_calling_pid = 7, se_config = Ok sample_vm_config, se_spawn = Ok child\<rparr>"

definition sample_service_world :: "string vm_world" where
  "sample_service_world = started 5 2000 ''shell'' 7 (crosvm_command sample_vm_config 10 False) VirtManager_default"

lemma sample_startVm: "startVm (sample_start_env 5) VirtManager_default = (Ok 0, sample_service_world)"
  by (simp add: startVm_def sample_start_env_def calling_sid_def allocate_cid_def start_vm_def VmInstance_start_def
      run_vm_def VmConfig_validate_def sample_vm_config_def map_err_st_def sample_service_world_def started_def
      VirtManager_default_def State_default_def FIRST_GUEST_CID_def add_vm_def Let_def)

lemma sample_service_reach: "vm_reach False VirtManager_default sample_service_world"
  unfolding vm_reach_def
  by (rule r_into_rtranclp, rule step_start[OF sample_startVm]) (simp add: VirtManager_default_def)

lemma sample_service_fields [simp]:
  "w_instances sample_service_world = [VmInstance_new 5 10 2000 ''shell'' 7]"
  "w_monitors sample_service_world = [Waiting]" "w_refs sample_service_world 0 = 1"
  "w_killed sample_service_world = []" "w_exited sample_service_world = {}" "w_called sample_service_world = []"
  "debug_held_vms (w_state sample_service_world) = []"
  by (simp_all add: sample_service_world_def VirtManager_default_def State_default_def FIRST_GUEST_CID_def)

section \<open>Properties\<close>

text \<open>C28: The CIDs identify the VMs. In every interleaving, every VM that was ever started has a CID of at least 10
  that fits 32 bits, and no two of them have the same CID, also after the conversion to a signed integer that
  clients see.\<close>

theorem vm_cids_unique:
  assumes "vm_reach wait_fails VirtManager_default w" "i < length (w_instances w)" "j < length (w_instances w)"
  shows "FIRST_GUEST_CID \<le> vi_cid (w_instances w ! i) \<and> vi_cid (w_instances w ! i) < 2 ^ 32 - 1 \<and>
    (getCid w i = getCid w j \<longrightarrow> i = j)"
proof -
  have "inv_cids w" using reachable_inv[OF assms(1)] by (simp add: vm_inv_def)
  with cid_bounds[OF this assms(2)] getCid_inj[OF this assms(2,3)] show ?thesis by blast
qed

theorem vm_cids_unique_witness:
  "FIRST_GUEST_CID \<le> vi_cid (w_instances sample_service_world ! 0) \<and>
   vi_cid (w_instances sample_service_world ! 0) < 2 ^ 32 - 1"
  using vm_cids_unique[OF sample_service_reach, of 0 0] by simp

text \<open>C27: A VM lives as long as somebody has a reference to it. In every interleaving \<open>kill\<close> has been called for
  the process of a VM if and only if neither a client nor the service holds a reference to the VM, and for no process
  twice.\<close>

theorem vm_killed_iff_unreferenced:
  assumes "vm_reach wait_fails VirtManager_default w" "i < length (w_instances w)"
  shows "(vi_child (w_instances w ! i) \<in> set (w_killed w) \<longleftrightarrow>
      w_refs w i = 0 \<and> i \<notin> set (debug_held_vms (w_state w))) \<and> distinct (w_killed w)"
proof -
  have inv: "inv_refs w" using reachable_inv[OF assms(1)] by (simp add: vm_inv_def)
  then have "distinct (w_killed w)" by (simp add: inv_refs_def)
  with killed_iff[OF inv assms(2)] show ?thesis by (simp add: referenced_def)
qed

theorem vm_killed_iff_unreferenced_witness:
  "vi_child (w_instances (release_ref 0 sample_service_world) ! 0) \<in> set (w_killed (release_ref 0 sample_service_world))"
proof -
  have "vm_reach False VirtManager_default (release_ref 0 sample_service_world)"
    using sample_service_reach step_release[of sample_service_world 0 False] unfolding vm_reach_def by auto
  from vm_killed_iff_unreferenced[OF this, of 0] show ?thesis by simp
qed

text \<open>C29: \<open>startVm\<close> on every branch: it starts no process and at most uses up a CID, or it starts exactly one crosvm
  with the next CID for a configuration with either a kernel or a bootloader alone, returns the only
  reference to the VM, and lists the VM as running with the identity of the caller.\<close>

theorem startVm_all_branches:
  assumes "startVm env w = (r, w')" "inv_refs w"
  shows "(\<forall>vm. r \<noteq> Ok vm) \<and> (w' = w \<or> w' = w\<lparr>w_state := (w_state w)\<lparr>next_cid := next_cid (w_state w) + 1\<rparr>\<rparr>) \<or>
    (\<exists>vm config child sid. r = Ok vm \<and> se_config env = Ok config \<and> se_spawn env = Ok child \<and>
       se_calling_sid env = Some (Some sid) \<and>
       (vc_kernel config \<noteq> None \<longleftrightarrow> vc_bootloader config = None) \<and>
       (vc_bootloader config \<noteq> None \<longrightarrow> vc_initrd config = None) \<and>
       w_commands w' = w_commands w @ [(child, crosvm_command config (next_cid (w_state w)) (se_log_fd env \<noteq> None))] \<and>
       w_refs w' vm = 1 \<and> w_killed w' = w_killed w \<and> vm \<in> set (State_vms w') \<and>
       debug_info (w_instances w' ! vm) =
         \<lparr>info_cid = as_i32 (next_cid (w_state w)), info_requesterUid = as_i32 (se_calling_uid env),
          info_requesterSid = sid, info_requesterPid = se_calling_pid env, info_running = True\<rparr>)"
  using assms(1)
proof (cases rule: startVm_cases)
  case (started child config sid)
  have "w_refs w (length (w_instances w)) = 0" using assms(2) by (simp add: inv_refs_def referenced_def)
  moreover have "se_calling_sid env = Some (Some sid)"
    using started(6) by (simp add: calling_sid_def split: option.splits)
  moreover have "length (w_instances w) \<in> set (State_vms w')"
    by (simp add: State_vms_def started(7) upgradable_def referenced_def) (simp add: started_def add_vm_def Let_def)
  moreover have "vc_kernel config \<noteq> None \<longleftrightarrow> vc_bootloader config = None"
    "vc_bootloader config \<noteq> None \<longrightarrow> vc_initrd config = None"
    using started(4) by (auto simp: VmConfig_validate_def split: if_splits)
  ultimately show ?thesis
    using started by (intro disjI2 exI[of _ "length (w_instances w)"] exI[of _ config] exI[of _ child] exI[of _ sid])
      (simp add: debug_info_def VmInstance_new_def)
qed (auto)

theorem startVm_all_branches_witness:
  "\<exists>vm. startVm (sample_start_env 5) VirtManager_default = (Ok vm, sample_service_world) \<and> w_refs sample_service_world vm = 1 \<and>
     vm \<in> set (State_vms sample_service_world)"
proof -
  have "inv_refs (VirtManager_default :: string vm_world)"
    by (rule default_inv[of False, unfolded vm_inv_def, THEN conjunct2, THEN conjunct1])
  from startVm_all_branches[OF sample_startVm this] sample_startVm show ?thesis by auto
qed

end
