(* ===== verification/Vm_Tool.thy ===== *)
theory Vm_Tool
  imports Virt_Manager_Correct
begin

text \<open>
  \<open>vm/src\<close>: the command line tool that starts, stops and lists VMs through the service of theory
  \<open>Virt_Manager\<close>. The tool and the service run concurrently: \<open>sched\<close> is what the rest of the system does
  between two calls of the tool. A callback object of the tool is the flag it raises, and a flag is known by
  its name; whether it has been raised is read off the calls the service has made. Printing and the parsing
  of the command line (StructOpt) are left out.
\<close>

datatype vm_tool_error =
    BadConfigPath | OpenFailed io_error | DupFailed io_error | StartFailed StatusCode | HoldFailed StatusCode
  | LinkFailed io_error | StopFailed StatusCode | NotABackgroundVm | ListFailed StatusCode

section \<open>\<open>sync.rs\<close>\<close>

record AtomicFlag =
  flag_state :: bool

definition AtomicFlag_default :: AtomicFlag where
  "AtomicFlag_default = \<lparr>flag_state = False\<rparr>"

text \<open>\<open>wait_while\<close> returns only if the flag is set.\<close>

definition AtomicFlag_wait :: "AtomicFlag \<Rightarrow> (vm_tool_error, unit) res" where
  "AtomicFlag_wait self = (if flag_state self then Ok () else Hang)"

definition AtomicFlag_raise :: "AtomicFlag \<Rightarrow> AtomicFlag" where
  "AtomicFlag_raise self = self\<lparr>flag_state := True\<rparr>"

section \<open>\<open>run.rs\<close>\<close>

definition onDied :: "AtomicFlag \<Rightarrow> int \<Rightarrow> AtomicFlag" where
  "onDied dead cid = AtomicFlag_raise dead"

definition duplicate_stdout :: "int \<Rightarrow> io_error \<Rightarrow> (io_error, int) res" where
  "duplicate_stdout dup_fd last_os_error = (if dup_fd < 0 then Err last_os_error else Ok dup_fd)"

text \<open>What the tool sees of the system: the path as a string, opening the configuration, \<open>dup\<close>, linking to the
  death of the service, and the fields of \<open>start_env\<close> (the service duplicates the log descriptor with the
  result \<open>re_log_fd\<close>).\<close>

record run_env =
  re_path :: "string option"
  re_open :: "(io_error, unit) res"
  re_dup :: int
  re_errno :: io_error
  re_log_fd :: "(io_error, unit) res"
  re_link :: "(io_error, unit) res"
  re_start :: start_env

text \<open>\<open>wait_for_vm\<close> up to \<open>dead.wait()\<close>; on an error the reference to the VM is dropped.\<close>

definition wait_for_vm ::
  "('cb vm_world \<Rightarrow> 'cb vm_world) \<Rightarrow> run_env \<Rightarrow> 'cb \<Rightarrow> nat \<Rightarrow> 'cb vm_world \<Rightarrow> (vm_tool_error, unit) res \<times> 'cb vm_world" where
  "wait_for_vm sched env dead vm w =
     (let w = sched (registerCallback vm dead w) in
      case map_err LinkFailed (re_link env) of
        Ok _ \<Rightarrow> (Ok (), w)
      | r \<Rightarrow> (r, release_ref vm w))"

text \<open>The state of the waiting tool: the flag after all calls of the callback that the service has made, raised
  too if the service has died.\<close>

definition dead_flag :: "'cb vm_world \<Rightarrow> nat \<Rightarrow> 'cb \<Rightarrow> bool \<Rightarrow> AtomicFlag" where
  "dead_flag w vm dead service_died =
     fold (\<lambda>x flag. if fst x = vm \<and> fst (snd x) = dead then onDied flag (snd (snd x)) else flag) (w_called w)
       (if service_died then AtomicFlag_raise AtomicFlag_default else AtomicFlag_default)"

datatype run_outcome = Daemonized nat | WaitingFor nat

definition command_run ::
  "('cb vm_world \<Rightarrow> 'cb vm_world) \<Rightarrow> run_env \<Rightarrow> 'cb \<Rightarrow> bool \<Rightarrow> 'cb vm_world \<Rightarrow>
   (vm_tool_error, run_outcome) res \<times> 'cb vm_world" where
  "command_run sched env dead daemonize w =
     and_then (ok_or BadConfigPath (re_path env), w) (\<lambda>config_filename w.
     and_then (map_err OpenFailed (re_open env), w) (\<lambda>config_file w.
     and_then (map_err DupFailed (duplicate_stdout (re_dup env) (re_errno env)), w) (\<lambda>stdout_file w.
     let stdout = (if daemonize then None else Some (re_log_fd env)) in
     and_then (map_err_st StartFailed (startVm ((re_start env)\<lparr>se_log_fd := stdout\<rparr>) w)) (\<lambda>vm w.
     let w = sched w in
     if daemonize then
       (case debugHoldVmRef (se_calling_uid (re_start env)) vm w of
          (r, w) \<Rightarrow> (try_r (map_err HoldFailed r) (\<lambda>_. Ok (Daemonized vm)), release_ref vm (sched w)))
     else
       and_then (wait_for_vm sched env dead vm w) (\<lambda>_ w. (Ok (WaitingFor vm), w))))))"

section \<open>\<open>main.rs\<close>\<close>

text \<open>The returned reference is dropped at once.\<close>

definition command_stop :: "nat \<Rightarrow> nat \<Rightarrow> 'cb vm_world \<Rightarrow> (vm_tool_error, unit) res \<times> 'cb vm_world" where
  "command_stop uid cid w =
     and_then (map_err_st StopFailed (debugDropVmRef uid (as_i32 cid) w)) (\<lambda>vm w.
     and_then (ok_or NotABackgroundVm vm, w) (\<lambda>vm w.
     (Ok (), release_ref vm w)))"

definition command_list :: "nat \<Rightarrow> 'cb vm_world \<Rightarrow> (vm_tool_error, VirtualMachineDebugInfo list) res" where
  "command_list uid w = map_err ListFailed (debugListVms uid w)"

section \<open>The callback\<close>

lemma fold_raise:
  "flag_state (fold (\<lambda>x flag. if fst x = vm \<and> fst (snd x) = dead then onDied flag (snd (snd x)) else flag) xs flag) \<longleftrightarrow>
   flag_state flag \<or> (\<exists>x \<in> set xs. fst x = vm \<and> fst (snd x) = dead)"
  by (induction xs arbitrary: flag) (auto simp: onDied_def AtomicFlag_raise_def)

lemma dead_flag_iff: "flag_state (dead_flag w vm dead died) \<longleftrightarrow> died \<or> dead \<in> set (calls w vm)"
  by (auto simp: dead_flag_def fold_raise calls_def AtomicFlag_raise_def AtomicFlag_default_def)

section \<open>A sample run\<close>

definition sample_run_env :: run_env where
  "sample_run_env = \<lparr>re_path = Some ''/c.json'', re_open = Ok (), re_dup = 4, re_errno = Os EIO, re_log_fd = Ok (),
     re_link = Ok (), re_start = sample_start_env 5\<rparr>"

text \<open>A scheduler that lets a first VM die at once.\<close>

definition dies_early :: "string vm_world \<Rightarrow> string vm_world" where
  "dies_early w =
     (if w_monitors w = [Waiting]
      then callback_on_died 0 (monitor_mark 0 (w\<lparr>w_exited := insert (vi_child (w_instances w ! 0)) (w_exited w)\<rparr>))
      else w)"

lemma dies_early_reach: "vm_reach False w (dies_early w)"
proof (cases "w_monitors w = [Waiting]")
  case True
  let ?e = "w\<lparr>w_exited := insert (vi_child (w_instances w ! 0)) (w_exited w)\<rparr>"
  have "vm_step False w ?e" by (rule step_exit)
  moreover have "vm_step False ?e (monitor_mark 0 ?e)" by (rule step_mark) (simp_all add: True)
  moreover have "vm_step False (monitor_mark 0 ?e) (callback_on_died 0 (monitor_mark 0 ?e))"
    by (rule step_notify) (simp_all add: True monitor_mark_def)
  ultimately show ?thesis unfolding vm_reach_def dies_early_def using True
    by (auto intro: converse_rtranclp_into_rtranclp)
qed (simp add: dies_early_def vm_reach_def)

section \<open>Properties\<close>

lemma register_refs: "inv_refs w \<Longrightarrow> inv_refs (registerCallback i cb w)"
  using inv_refs_cong[of "registerCallback i cb w" w] by (simp add: registerCallback_def map_update_instance referenced_def)

text \<open>C30: The death of a VM is reported. If a client registers a callback before the monitor thread of the VM has
  finished, then in every interleaving in which the thread finishes, the callback has been called; at
  that point the VM is not running, and its process has exited unless waiting for it failed.\<close>

theorem death_notified:
  assumes "vm_reach wait_fails VirtManager_default w" "0 < w_refs w i" "w_monitors w ! i \<noteq> Finished"
    and "vm_reach wait_fails (registerCallback i dead w) w'" "w_monitors w' ! i = Finished"
  shows "AtomicFlag_wait (dead_flag w' i dead False) = Ok () \<and> \<not> isRunning w' i \<and>
    (wait_fails \<or> vi_child (w_instances w' ! i) \<in> w_exited w')"
proof -
  have inv: "vm_inv wait_fails w" by (rule reachable_inv[OF assms(1)])
  have "vm_reach wait_fails w (registerCallback i dead w)"
    unfolding vm_reach_def by (rule r_into_rtranclp, rule step_register[OF assms(2)])
  with inv have inv1: "vm_inv wait_fails (registerCallback i dead w)" by (rule reach_inv[rotated])
  then have inv2: "vm_inv wait_fails w'" by (rule reach_inv[OF assms(4)])
  have i: "i < length (w_instances w)" using inv assms(2) by (meson inv_refs_def not_le referenced_def vm_inv_def)
  then have "will_call (registerCallback i dead w) i dead"
    using assms(3) by (simp add: will_call_def registerCallback_def nth_update_instance)
  then have "will_call w' i dead" using reach_will_call[OF assms(4)] inv1 by (simp add: vm_inv_def)
  then have c: "i < length (w_instances w')" "dead \<in> set (calls w' i)" using assms(5) by (simp_all add: will_call_def)
  then have "monitored wait_fails w' i" using inv2 by (simp add: vm_inv_def inv_monitor_def)
  with assms(5) c show ?thesis by (simp add: monitored_def isRunning_def AtomicFlag_wait_def dead_flag_iff)
qed

theorem death_notified_witness:
  "AtomicFlag_wait (dead_flag (dies_early (registerCallback 0 ''me'' sample_service_world)) 0 ''me'' False) =
     Ok ()"
proof -
  have "w_monitors (dies_early (registerCallback 0 ''me'' sample_service_world)) ! 0 = Finished"
    by (simp add: dies_early_def registerCallback_def callback_on_died_def monitor_mark_def)
  from death_notified[OF sample_service_reach _ _ dies_early_reach this] show ?thesis by simp
qed

text \<open>C40: A VM that dies too early makes \<open>vm run\<close> wait forever. If the monitor thread of the VM has finished before
  the tool registers its callback, the tool goes on to wait, and in no continuation is its flag raised, unless
  the service itself dies.\<close>

theorem vm_run_hangs:
  assumes "vm_reach wait_fails VirtManager_default w0"
    and "startVm ((re_start env)\<lparr>se_log_fd := Some (re_log_fd env)\<rparr>) w0 = (Ok vm, w1)"
    and "\<forall>c. se_spawn (re_start env) = Ok c \<longrightarrow> c \<notin> fst ` set (w_commands w0)"
    and "re_path env \<noteq> None" "re_open env = Ok ()" "0 \<le> re_dup env" "re_link env = Ok ()"
    and "\<forall>w. vm_reach wait_fails w (sched w)"
    and "w_monitors (sched w1) ! vm = Finished" "dead \<notin> set (calls (sched w1) vm)"
  shows "\<exists>w. command_run sched env dead False w0 = (Ok (WaitingFor vm), w) \<and>
    (\<forall>w'. vm_reach wait_fails w w' \<longrightarrow> AtomicFlag_wait (dead_flag w' vm dead False) = Hang)"
proof -
  have "vm_step wait_fails w0 w1" using step_start[OF assms(2)] assms(3) by simp
  then have "vm_reach wait_fails w0 (sched w1)"
    using assms(8)[rule_format, of w1] unfolding vm_reach_def by (rule converse_rtranclp_into_rtranclp)
  from reach_inv[OF this reachable_inv[OF assms(1)]] have inv: "inv_refs (sched w1)" by (simp add: vm_inv_def)
  let ?r = "registerCallback vm dead (sched w1)"
  have "vm < length (w_instances w1)" using assms(2) by (cases rule: startVm_cases) auto
  moreover have "length (w_instances w1) \<le> length (w_instances (sched w1))" by (rule reach_grows[OF assms(8)[rule_format]])
  ultimately have vm: "vm < length (w_instances ?r)" by (simp add: registerCallback_def)
  have fin: "w_monitors ?r ! vm = Finished" "calls ?r vm = calls (sched w1) vm"
    using assms(9) by (simp_all add: registerCallback_def calls_def)
  have hang: "AtomicFlag_wait (dead_flag w' vm dead False) = Hang"
    if "vm_reach wait_fails (sched ?r) w'" for w'
  proof -
    have "vm_reach wait_fails ?r w'"
      using assms(8)[rule_format, of ?r] that unfolding vm_reach_def by (rule rtranclp_trans)
    from finished_calls_final[OF this register_refs[OF inv] vm fin(1)] fin(2) assms(10)
    show ?thesis by (simp add: AtomicFlag_wait_def dead_flag_iff)
  qed
  have "command_run sched env dead False w0 = (Ok (WaitingFor vm), sched ?r)"
    using assms(2,4-7) by (auto simp: command_run_def duplicate_stdout_def map_err_st_def wait_for_vm_def Let_def)
  with hang show ?thesis by blast
qed

theorem vm_run_hangs_witness:
  "\<exists>w. command_run dies_early sample_run_env ''me'' False VirtManager_default = (Ok (WaitingFor 0), w) \<and>
     AtomicFlag_wait (dead_flag w 0 ''me'' False) = Hang"
proof -
  let ?env = "(re_start sample_run_env)\<lparr>se_log_fd := Some (re_log_fd sample_run_env)\<rparr>"
  let ?w1 = "started 5 2000 ''shell'' 7 (crosvm_command sample_vm_config 10 True) VirtManager_default"
  have st: "startVm ?env VirtManager_default = (Ok 0, ?w1)"
    by (simp add: startVm_def sample_run_env_def sample_start_env_def calling_sid_def allocate_cid_def start_vm_def
        VmInstance_start_def run_vm_def VmConfig_validate_def sample_vm_config_def map_err_st_def started_def
        VirtManager_default_def State_default_def FIRST_GUEST_CID_def add_vm_def Let_def)
  have "vm_reach False VirtManager_default (VirtManager_default :: string vm_world)" by (simp add: vm_reach_def)
  moreover have "w_monitors (dies_early ?w1) ! 0 = Finished" "''me'' \<notin> set (calls (dies_early ?w1) 0)"
    by (simp_all add: dies_early_def VirtManager_default_def callback_on_died_def monitor_mark_def update_instance_def
        calls_def VmInstance_new_def)
  ultimately obtain w where "command_run dies_early sample_run_env ''me'' False VirtManager_default = (Ok (WaitingFor 0), w)"
    "\<forall>w'. vm_reach False w w' \<longrightarrow> AtomicFlag_wait (dead_flag w' 0 ''me'' False) = Hang"
    using vm_run_hangs[OF _ st, of False dies_early "''me''"] dies_early_reach
    by (auto simp: sample_run_env_def VirtManager_default_def)
  then show ?thesis by (auto simp: vm_reach_def)
qed

lemma daemonized_world:
  assumes "vm_reach wait_fails VirtManager_default w0"
    and "\<forall>c. se_spawn (re_start env) = Ok c \<longrightarrow> c \<notin> fst ` set (w_commands w0)"
    and "command_run (\<lambda>w. w) env dead True w0 = (Ok (Daemonized vm), w1)"
  shows "vm_reach wait_fails VirtManager_default w1 \<and> w_refs w1 vm = 0 \<and> vm < length (w_instances w1) \<and>
    (\<exists>hs. debug_held_vms (w_state w1) = hs @ [vm] \<and> vm \<notin> set hs)"
proof -
  obtain r ws where run: "startVm ((re_start env)\<lparr>se_log_fd := None\<rparr>) w0 = (r, ws)" by fastforce
  let ?h = "ws\<lparr>w_state := debug_hold_vm vm (w_state ws)\<rparr>"
  have ws: "r = Ok vm" "debug_access_allowed (se_calling_uid (re_start env))" "w1 = release_ref vm ?h"
    using assms(3) run by (auto simp: command_run_def debugHoldVmRef_def map_err_st_def and_then_Ok_iff try_r_Ok_iff Let_def
        split: if_splits)
  from run ws(1) obtain child config sid where st: "vm = length (w_instances w0)"
    "ws = started child (se_calling_uid (re_start env)) sid (se_calling_pid (re_start env))
       (crosvm_command config (next_cid (w_state w0)) False) w0"
    by (cases rule: startVm_cases) auto
  from reachable_inv[OF assms(1)] have vm0: "w_refs w0 vm = 0" "vm \<notin> set (debug_held_vms (w_state w0))"
    using st(1) by (auto simp: vm_inv_def inv_refs_def referenced_def)
  have s1: "vm_step wait_fails w0 ws" using step_start[OF run] assms(2) by simp
  have s2: "vm_step wait_fails ws ?h"
    by (rule step_hold[of ws vm "se_calling_uid (re_start env)"]) (simp_all add: debugHoldVmRef_def ws(2) st)
  have s3: "vm_step wait_fails ?h w1" unfolding ws(3) by (rule step_release) (simp add: st)
  have "vm_reach wait_fails VirtManager_default w1"
    using assms(1) s1 s2 s3 unfolding vm_reach_def by (metis rtranclp.rtrancl_into_rtrancl)
  with vm0 show ?thesis by (simp add: ws(3) debug_hold_vm_def st)
qed

lemma stop_kills:
  assumes "inv_refs w" "inv_cids w" "debug_held_vms (w_state w) = hs @ [vm]" "vm \<notin> set hs" "w_refs w vm = 0"
    and "debug_access_allowed uid"
  shows "\<exists>w'. command_stop uid (vi_cid (w_instances w ! vm)) w = (Ok (), w') \<and> vi_child (w_instances w ! vm) \<in> set (w_killed w')"
proof -
  let ?held = "debug_held_vms (w_state w)" and ?cid = "vi_cid (w_instances w ! vm)"
  have lt: "v < length (w_instances w)" if "v \<in> set ?held" for v
    using assms(1) that by (meson inv_refs_def not_le referenced_def)
  have "position (\<lambda>v. getCid w v = as_i32 ?cid) ?held \<noteq> None"
    using assms(3) by (auto simp: position_None getCid_def)
  then obtain pos where pos: "position (\<lambda>v. getCid w v = as_i32 ?cid) ?held = Some pos" by blast
  from position_Some[OF pos] have p: "pos < length ?held" "getCid w (?held ! pos) = getCid w vm" by (simp_all add: getCid_def)
  have "?held ! pos = vm"
    by (rule getCid_inj[OF assms(2) lt[OF nth_mem[OF p(1)]] _ p(2)]) (rule lt, simp add: assms(3))
  moreover have "pos < length hs \<Longrightarrow> ?held ! pos \<in> set hs" by (simp add: assms(3) nth_append)
  ultimately have "\<not> pos < length hs" using assms(4) by auto
  then have "pos = length hs" using p(1) assms(3) by simp
  then have sw: "swap_remove ?held pos = (vm, hs)" by (simp add: swap_remove_def assms(3) list_update_append)
  let ?d = "w\<lparr>w_state := (w_state w)\<lparr>debug_held_vms := hs\<rparr>, w_refs := (w_refs w)(vm := 1)\<rparr>"
  have "debugDropVmRef uid (as_i32 ?cid) w = (Ok (Some vm), ?d)"
    using assms(5,6) pos sw by (simp add: debugDropVmRef_def debug_drop_vm_def)
  then have "command_stop uid ?cid w = (Ok (), release_ref vm ?d)" by (simp add: command_stop_def map_err_st_def)
  moreover have "vi_child (w_instances w ! vm) \<in> set (w_killed (release_ref vm ?d))"
    using assms(4) by (simp add: release_ref_def Let_def referenced_def VmInstance_kill_def)
  ultimately show ?thesis by blast
qed

text \<open>C31: A VM started in the background runs until it is stopped. After \<open>vm run --daemonize\<close> the process of the VM
  has not been killed; \<open>vm stop\<close> with the CID of the VM, by a user who may use the debug methods, then succeeds
  and kills it, if nothing else happens in between.\<close>

theorem daemonize_stop:
  assumes "vm_reach wait_fails VirtManager_default w0"
    and "\<forall>c. se_spawn (re_start env) = Ok c \<longrightarrow> c \<notin> fst ` set (w_commands w0)"
    and "command_run (\<lambda>w. w) env dead True w0 = (Ok (Daemonized vm), w1)" "debug_access_allowed uid"
  shows "vi_child (w_instances w1 ! vm) \<notin> set (w_killed w1) \<and>
    (\<exists>w2. command_stop uid (vi_cid (w_instances w1 ! vm)) w1 = (Ok (), w2) \<and>
       vi_child (w_instances w1 ! vm) \<in> set (w_killed w2))"
proof -
  obtain hs where w1: "vm_reach wait_fails VirtManager_default w1" "w_refs w1 vm = 0" "vm < length (w_instances w1)"
    "debug_held_vms (w_state w1) = hs @ [vm]" "vm \<notin> set hs" using daemonized_world[OF assms(1-3)] by blast
  from reachable_inv[OF w1(1)] have inv: "inv_refs w1" "inv_cids w1" by (simp_all add: vm_inv_def)
  have "vi_child (w_instances w1 ! vm) \<notin> set (w_killed w1)"
    using killed_iff[OF inv(1) w1(3)] w1(4) by (simp add: referenced_def)
  with stop_kills[OF inv w1(4,5,2) assms(4)] show ?thesis by blast
qed

theorem daemonize_stop_witness:
  "\<exists>w1 w2. command_run (\<lambda>w. w) sample_run_env ''me'' True VirtManager_default = (Ok (Daemonized 0), w1) \<and>
     vi_child (w_instances w1 ! 0) \<notin> set (w_killed w1) \<and>
     command_stop 2000 (vi_cid (w_instances w1 ! 0)) w1 = (Ok (), w2) \<and> vi_child (w_instances w1 ! 0) \<in> set (w_killed w2)"
proof -
  have "sample_start_env 5\<lparr>se_log_fd := None\<rparr> = sample_start_env 5" by (simp add: sample_start_env_def)
  then obtain w1 where run: "command_run (\<lambda>w. w) sample_run_env ''me'' True VirtManager_default = (Ok (Daemonized 0), w1)"
    using sample_startVm
    by (auto simp: command_run_def sample_run_env_def duplicate_stdout_def map_err_st_def debugHoldVmRef_def
        debug_access_allowed_def DEBUG_ALLOWED_UIDS_def Let_def sample_start_env_def)
  have "vm_reach False VirtManager_default (VirtManager_default :: string vm_world)" by (simp add: vm_reach_def)
  from daemonize_stop[OF this _ run, of 2000] run show ?thesis
    by (auto simp: VirtManager_default_def debug_access_allowed_def DEBUG_ALLOWED_UIDS_def)
qed

end
