(* ===== verification/Payload.thy ===== *)
theory Payload
  imports Rust_Str
begin

text \<open>
  \<open>microdroid/signature\<close>: the library that reads and writes the signature of a payload disk (\<open>signature.cc\<close>) and
  the tool that builds the disk (\<open>mk_payload.cc\<close>). The JSON library, the protobuf code generated from
  \<open>microdroid_signature.proto\<close>, the APEX information and the composite disk library are not part of the
  repository: a JSON value is known through \<open>json_api\<close>, a message is a record with its serialization as a
  parameter, and the call that creates the disk is recorded. The system calls are the fields of \<open>payload_os\<close>; the
  files the tool writes are a map, and the sizes of the files it reads do not change while it runs. C++ exceptions
  and aborts are \<open>Panic\<close>, error results are \<open>Err\<close>.
\<close>

section \<open>\<open>signature.cc\<close>\<close>

text \<open>The messages of \<open>microdroid_signature.proto\<close>. A string field that is not set is empty.\<close>

record ApexSignature =
  as_name :: string
  as_size :: nat
  as_publicKey :: string
  as_rootDigest :: string

record ApkSignature =
  ak_name :: string
  ak_payload_partition_name :: string
  ak_idsig_partition_name :: string

record MicrodroidSignature =
  ms_version :: nat
  ms_apexes :: "ApexSignature list"
  ms_apk :: "ApkSignature option"

datatype payload_error =
    ReadFailed io_error | InvalidSignatureSize nat | SizeMismatch nat nat | CantParseSignature | SerializeFailed
  | ShouldBeString | BadConfig | CantLstat io_error | NoApexInfoList | NoSystemApex string
  | OpenFillerFailed io_error | FtruncateFailed io_error | LseekFailed | WriteFailed io_error | WroteNothing

text \<open>\<open>htobe32\<close> of a 32-bit integer as it lies in memory, and \<open>be32toh\<close> of the first four bytes.\<close>

definition to_be32 :: "nat \<Rightarrow> bytes" where
  "to_be32 v = rev (to_le_bytes 4 v)"

fun of_be_bytes :: "nat \<Rightarrow> bytes \<Rightarrow> nat" where
  "of_be_bytes acc [] = acc"
| "of_be_bytes acc (b # bs) = of_be_bytes (acc * 256 + unat b) bs"

definition of_be32 :: "bytes \<Rightarrow> nat" where
  "of_be32 bs = of_be_bytes 0 (take 4 bs)"

definition ReadMicrodroidSignature ::
  "(bytes \<Rightarrow> MicrodroidSignature option) \<Rightarrow> (io_error, bytes) res \<Rightarrow> (payload_error, MicrodroidSignature) res" where
  "ReadMicrodroidSignature parse read_file =
     try_r (map_err ReadFailed read_file) (\<lambda>content.
     if length content < 4 then Err (InvalidSignatureSize (length content))
     else
       let sz = of_be32 content in
       if length content < 4 + sz then Err (SizeMismatch sz (length content - 4))
       else
         let content = take sz (drop 4 content) in
         ok_or CantParseSignature (parse content))"

definition WriteMicrodroidSignature ::
  "(MicrodroidSignature \<Rightarrow> bytes option) \<Rightarrow> MicrodroidSignature \<Rightarrow> (payload_error, bytes) res" where
  "WriteMicrodroidSignature serialize signature =
     try_r (ok_or SerializeFailed (serialize signature)) (\<lambda>content.
     Ok (to_be32 (length content mod 2 ^ 32) @ content))"

section \<open>\<open>mk_payload.cc\<close>: names\<close>

definition ToAbsolute :: "string \<Rightarrow> string \<Rightarrow> string" where
  "ToAbsolute path dirname =
     (let is_absolute = (path \<noteq> [] \<and> hd path = CHR ''/'') in
      if is_absolute then path else dirname @ ''/'' @ path)"

text \<open>\<open>find_last_of\<close>\<close>

definition find_last_of :: "char \<Rightarrow> string \<Rightarrow> nat option" where
  "find_last_of c s =
     (if c \<in> set s then Some (length s - 1 - length (takeWhile (\<lambda>x. x \<noteq> c) (rev s))) else None)"

definition AppendFileName :: "string \<Rightarrow> string \<Rightarrow> string" where
  "AppendFileName filename app =
     (case find_last_of CHR ''.'' filename of
        None \<Rightarrow> filename @ app
      | Some pos \<Rightarrow> take pos filename @ app @ drop pos filename)"

section \<open>\<open>mk_payload.cc\<close>: the configuration\<close>

record ApexConfig =
  ac_name :: string
  ac_path :: string
  ac_public_key :: "string option"
  ac_root_digest :: "string option"

record ApkConfig =
  apk_name :: string
  apk_path :: string

record payload_config =
  pc_dirname :: string
  pc_system_apexes :: "string list"
  pc_apexes :: "ApexConfig list"
  pc_apk :: "ApkConfig option"

record 'j json_api =
  isString :: "'j \<Rightarrow> bool"
  asString :: "'j \<Rightarrow> string"
  isNull :: "'j \<Rightarrow> bool"
  member :: "'j \<Rightarrow> string \<Rightarrow> (payload_error, 'j) res"
  elements :: "'j \<Rightarrow> 'j list"

definition ParseJson_string :: "'j json_api \<Rightarrow> 'j \<Rightarrow> (payload_error, string) res" where
  "ParseJson_string js value = (if \<not> isString js value then Err ShouldBeString else Ok (asString js value))"

definition ParseJson_optional ::
  "'j json_api \<Rightarrow> ('j \<Rightarrow> (payload_error, 'a) res) \<Rightarrow> 'j \<Rightarrow> (payload_error, 'a option) res" where
  "ParseJson_optional js parse value =
     (if isNull js value then Ok None else try_r (parse value) (\<lambda>s. Ok (Some s)))"

definition ParseJson_apex :: "'j json_api \<Rightarrow> 'j \<Rightarrow> (payload_error, ApexConfig) res" where
  "ParseJson_apex js value =
     try_r (member js value ''name'') (\<lambda>v. try_r (ParseJson_string js v) (\<lambda>name.
     try_r (member js value ''path'') (\<lambda>v. try_r (ParseJson_string js v) (\<lambda>path.
     try_r (member js value ''publicKey'') (\<lambda>v. try_r (ParseJson_optional js (ParseJson_string js) v) (\<lambda>public_key.
     try_r (member js value ''rootDigest'') (\<lambda>v. try_r (ParseJson_optional js (ParseJson_string js) v) (\<lambda>root_digest.
     Ok \<lparr>ac_name = name, ac_path = path, ac_public_key = public_key, ac_root_digest = root_digest\<rparr>))))))))"

definition ParseJson_apk :: "'j json_api \<Rightarrow> 'j \<Rightarrow> (payload_error, ApkConfig) res" where
  "ParseJson_apk js value =
     try_r (member js value ''name'') (\<lambda>v. try_r (ParseJson_string js v) (\<lambda>name.
     try_r (member js value ''path'') (\<lambda>v. try_r (ParseJson_string js v) (\<lambda>path.
     Ok \<lparr>apk_name = name, apk_path = path\<rparr>))))"

definition ParseJson_vector ::
  "'j json_api \<Rightarrow> ('j \<Rightarrow> (payload_error, 'a) res) \<Rightarrow> 'j \<Rightarrow> (payload_error, 'a list) res" where
  "ParseJson_vector js parse values = try_map parse (elements js values)"

definition ParseJson_config :: "'j json_api \<Rightarrow> string \<Rightarrow> 'j \<Rightarrow> (payload_error, payload_config) res" where
  "ParseJson_config js dirname value =
     try_r (member js value ''system_apexes'') (\<lambda>v. try_r (ParseJson_vector js (ParseJson_string js) v) (\<lambda>system_apexes.
     try_r (member js value ''apexes'') (\<lambda>v. try_r (ParseJson_vector js (ParseJson_apex js) v) (\<lambda>apexes.
     try_r (member js value ''apk'') (\<lambda>v. try_r (ParseJson_optional js (ParseJson_apk js) v) (\<lambda>apk.
     Ok \<lparr>pc_dirname = dirname, pc_system_apexes = system_apexes, pc_apexes = apexes, pc_apk = apk\<rparr>))))))"

text \<open>The result of \<open>parseFromStream\<close> and of \<open>Dirname\<close> are arguments.\<close>

definition LoadConfig :: "'j json_api \<Rightarrow> 'j option \<Rightarrow> string \<Rightarrow> (payload_error, payload_config) res" where
  "LoadConfig js root dirname =
     try_r (ok_or BadConfig root) (\<lambda>root. ParseJson_config js dirname root)"

record ApexInfo =
  ai_moduleName :: string
  ai_modulePath :: string
  ai_isActive :: bool

fun get_apex_path :: "ApexInfo list \<Rightarrow> string \<Rightarrow> string option" where
  "get_apex_path [] apex_name = None"
| "get_apex_path (apex_info # infos) apex_name =
     (if ai_isActive apex_info \<and> ai_moduleName apex_info = apex_name then Some (ai_modulePath apex_info)
      else get_apex_path infos apex_name)"

definition LoadSystemApexes :: "ApexInfo list option \<Rightarrow> payload_config \<Rightarrow> (payload_error, payload_config) res" where
  "LoadSystemApexes apex_info_list config =
     try_r (ok_or NoApexInfoList apex_info_list) (\<lambda>infos.
     try_fold (\<lambda>config apex_name.
       try_r (ok_or (NoSystemApex apex_name) (get_apex_path infos apex_name)) (\<lambda>apex_path.
       Ok (config\<lparr>pc_apexes := pc_apexes config @
         [\<lparr>ac_name = apex_name, ac_path = apex_path, ac_public_key = None, ac_root_digest = None\<rparr>]\<rparr>)))
       config (pc_system_apexes config))"

section \<open>\<open>mk_payload.cc\<close>: the payload\<close>

text \<open>\<open>po_write\<close> is the number of bytes of the size that \<open>write\<close> takes; \<open>po_align\<close> is the composite disk
  library's \<open>AlignToPartitionSize\<close>; \<open>po_stream_ok\<close> says whether an output stream can be opened and written.\<close>

record payload_os =
  po_lstat :: "string \<Rightarrow> (io_error, nat) res"
  po_open :: "string \<Rightarrow> (io_error, unit) res"
  po_ftruncate :: "string \<Rightarrow> nat \<Rightarrow> (io_error, unit) res"
  po_write :: "string \<Rightarrow> (io_error, nat) res"
  po_align :: "nat \<Rightarrow> nat"
  po_stream_ok :: "string \<Rightarrow> bool"

type_synonym file_map = "string \<rightharpoonup> bytes"

definition GetFileSize :: "payload_os \<Rightarrow> string \<Rightarrow> (payload_error, nat) res" where
  "GetFileSize os path = try_r (map_err CantLstat (po_lstat os path)) (\<lambda>st_size. Ok (st_size mod 2 ^ 32))"

definition apex_signature :: "payload_os \<Rightarrow> string \<Rightarrow> ApexConfig \<Rightarrow> (payload_error, ApexSignature) res" where
  "apex_signature os dirname apex_config =
     try_r (GetFileSize os (ToAbsolute (ac_path apex_config) dirname)) (\<lambda>file_size.
     Ok \<lparr>as_name = ac_name apex_config, as_size = file_size,
         as_publicKey = (case ac_public_key apex_config of None \<Rightarrow> [] | Some k \<Rightarrow> k),
         as_rootDigest = (case ac_root_digest apex_config of None \<Rightarrow> [] | Some d \<Rightarrow> d)\<rparr>)"

definition MakeSignature ::
  "payload_os \<Rightarrow> (MicrodroidSignature \<Rightarrow> bytes option) \<Rightarrow> payload_config \<Rightarrow> string \<Rightarrow> file_map \<Rightarrow>
   (payload_error, unit) res \<times> file_map" where
  "MakeSignature os serialize config filename files =
     and_then (try_map (apex_signature os (pc_dirname config)) (pc_apexes config), files) (\<lambda>apexes files.
     let signature = \<lparr>ms_version = 1, ms_apexes = apexes,
           ms_apk = map_option (\<lambda>apk. \<lparr>ak_name = apk_name apk, ak_payload_partition_name = ''microdroid-apk'',
             ak_idsig_partition_name = []\<rparr>) (pc_apk config)\<rparr> in
     let files = (if po_stream_ok os filename then files(filename \<mapsto> []) else files) in
     and_then (WriteMicrodroidSignature serialize signature, files) (\<lambda>content files.
     (Ok (), if po_stream_ok os filename then files(filename \<mapsto> content) else files)))"

text \<open>\<open>disk_size - *file_size\<close> in 64 bits.\<close>

definition filler_size :: "payload_os \<Rightarrow> nat \<Rightarrow> nat" where
  "filler_size os file_size =
     (let disk_size = po_align os (file_size + 4) in (disk_size + 2 ^ 64 - file_size) mod 2 ^ 64)"

definition GenerateFiller ::
  "payload_os \<Rightarrow> string \<Rightarrow> string \<Rightarrow> file_map \<Rightarrow> (payload_error, unit) res \<times> file_map" where
  "GenerateFiller os file_path filler_path files =
     and_then (GetFileSize os file_path, files) (\<lambda>file_size files.
     and_then (map_err OpenFillerFailed (po_open os filler_path), files) (\<lambda>_ files.
     let files = files(filler_path \<mapsto> []);
         sz = to_be32 file_size;
         n = filler_size os file_size in
     and_then (map_err FtruncateFailed (po_ftruncate os filler_path n), files) (\<lambda>_ files.
     let files = files(filler_path \<mapsto> zeros n) in
     if n < 4 then (Err LseekFailed, files)
     else
       and_then (map_err WriteFailed (po_write os filler_path), files) (\<lambda>k files.
       if k = 0 then (Err WroteNothing, files)
       else (Ok (), files(filler_path \<mapsto> zeros (n - 4) @ take k sz @ zeros (4 - k)))))))"

text \<open>The one partition type that is used.\<close>

datatype ImagePartitionType = kLinuxFilesystem

record MultipleImagePartition =
  mp_label :: string
  mp_image_file_paths :: "string list"
  mp_type :: ImagePartitionType
  mp_read_only :: bool

text \<open>The partitions so far, the filler count and the files.\<close>

definition add_partition ::
  "payload_os \<Rightarrow> string \<Rightarrow> MultipleImagePartition list \<times> nat \<times> file_map \<Rightarrow> string \<Rightarrow> string \<Rightarrow>
   (payload_error, unit) res \<times> MultipleImagePartition list \<times> nat \<times> file_map" where
  "add_partition os output_file s partition_name file_path =
     (case s of (partitions, filler_count, files) \<Rightarrow>
      let filler_path = output_file @ ''.'' @ show_nat filler_count in
      case GenerateFiller os file_path filler_path files of
        (r, files) \<Rightarrow>
          and_then (r, (partitions, filler_count + 1, files)) (\<lambda>_ (partitions, filler_count, files).
          (Ok (), partitions @ [\<lparr>mp_label = partition_name, mp_image_file_paths = [file_path, filler_path],
             mp_type = kLinuxFilesystem, mp_read_only = True\<rparr>],
           filler_count, files)))"

text \<open>The arguments of \<open>CreateCompositeDisk\<close> are the result.\<close>

record composite_disk =
  cd_partitions :: "MultipleImagePartition list"
  cd_header :: string
  cd_footer :: string
  cd_output :: string

definition MakePayload ::
  "payload_os \<Rightarrow> payload_config \<Rightarrow> string \<Rightarrow> string \<Rightarrow> file_map \<Rightarrow> (payload_error, composite_disk) res \<times> file_map" where
  "MakePayload os config signature_file output_file files =
     (let s = ([\<lparr>mp_label = ''signature'', mp_image_file_paths = [signature_file],
            mp_type = kLinuxFilesystem, mp_read_only = True\<rparr>], 0, files);
          apex_names = map (\<lambda>(i, apex_config). (''microdroid-apex-'' @ show_nat i, ac_path apex_config))
            (zip [0..<length (pc_apexes config)] (pc_apexes config));
          apk_names = (case pc_apk config of None \<Rightarrow> [] | Some apk \<Rightarrow> [(''microdroid-apk'', apk_path apk)]) in
      case try_map_st (\<lambda>(name, path) s. add_partition os output_file s name (ToAbsolute path (pc_dirname config)))
             (apex_names @ apk_names) s of
        (r, partitions, filler_count, files) \<Rightarrow>
          (try_r r (\<lambda>_. Ok \<lparr>cd_partitions = partitions, cd_header = AppendFileName output_file ''-header'',
              cd_footer = AppendFileName output_file ''-footer'', cd_output = output_file\<rparr>), files))"

text \<open>\<open>main\<close> without the messages; its exit code is 0 exactly for \<open>Ok\<close>.\<close>

definition mk_payload ::
  "'j json_api \<Rightarrow> payload_os \<Rightarrow> (MicrodroidSignature \<Rightarrow> bytes option) \<Rightarrow> 'j option \<Rightarrow> string \<Rightarrow> ApexInfo list option \<Rightarrow>
   string \<Rightarrow> file_map \<Rightarrow> (payload_error, composite_disk) res \<times> file_map" where
  "mk_payload js os serialize root dirname apex_info_list output_file files =
     and_then (LoadConfig js root dirname, files) (\<lambda>config files.
     and_then (LoadSystemApexes apex_info_list config, files) (\<lambda>config files.
     let signature_file = AppendFileName output_file ''-signature'' in
     and_then (MakeSignature os serialize config signature_file files) (\<lambda>_ files.
     MakePayload os config signature_file output_file files)))"

end
