(* ===== verification/Payload_Correct.thy ===== *)
theory Payload_Correct
  imports Payload
begin

text \<open>
  Properties of the payload tools (theory \<open>Payload\<close>): the length-prefixed signature can be read back from its
  partition, the size of a payload can be read back from the end of its partition, and the signature that
  \<open>mk_payload\<close> writes describes the partitions it creates.
\<close>

section \<open>Big-endian sizes\<close>

lemma length_to_be32 [simp]: "length (to_be32 v) = 4"
  by (simp add: to_be32_def)

lemma of_be32_to_be32: "v < 2 ^ 32 \<Longrightarrow> of_be32 (to_be32 v @ bs) = v"
proof -
  assume v: "v < 2 ^ 32"
  have b: "to_le_bytes 4 v =
    [word_of_nat v, word_of_nat (v div 256), word_of_nat (v div 256 div 256), word_of_nat (v div 256 div 256 div 256)]"
  proof -
    have four: "(4 :: nat) = Suc (Suc (Suc (Suc 0)))" by simp
    have nil: "to_le_bytes 0 x = []" for x by (simp add: to_le_bytes_def)
    show ?thesis unfolding four to_le_bytes_Suc nil ..
  qed
  have u: "unat (word_of_nat x :: u8) = x mod 256" for x by (simp add: unat_of_nat)
  have "v div 256 div 256 div 256 < 256" using v by (simp add: div_less_iff_less_mult flip: div_mult2_eq)
  then have "v div 256 div 256 div 256 mod 256 = v div 256 div 256 div 256" by (rule mod_less)
  then have "of_be32 (to_be32 v @ bs) =
    ((v div 256 div 256 div 256 * 256 + v div 256 div 256 mod 256) * 256 + v div 256 mod 256) * 256 + v mod 256"
    by (simp add: of_be32_def to_be32_def b u)
  then show ?thesis by (simp only: div_mult_mod_eq)
qed

section \<open>File names\<close>

lemma show_nat_inj: "show_nat a = show_nat b \<Longrightarrow> a = b"
  by (metis option.inject parse_digits_show_nat)

definition filler_name :: "string \<Rightarrow> nat \<Rightarrow> string" where
  "filler_name output_file i = output_file @ ''.'' @ show_nat i"

lemma filler_name_inj [simp]: "filler_name f a = filler_name f b \<longleftrightarrow> a = b"
  by (auto simp: filler_name_def dest: show_nat_inj)



section \<open>Fillers\<close>

definition filler_bytes :: "payload_os \<Rightarrow> nat \<Rightarrow> bytes" where
  "filler_bytes os sz = zeros (filler_size os sz - 4) @ to_be32 sz"

lemma GenerateFiller_Ok:
  assumes "GenerateFiller os file_path filler_path files = (Ok u, files')" "po_write os filler_path = Ok 4"
  obtains sz where "GetFileSize os file_path = Ok sz" "files' = files(filler_path \<mapsto> filler_bytes os sz)"
    "4 \<le> filler_size os sz"
proof -
  from assms(1) obtain sz where sz: "GetFileSize os file_path = Ok sz"
    unfolding GenerateFiller_def and_then_Ok_iff by blast
  with assms have "4 \<le> filler_size os sz \<and> files' = files(filler_path \<mapsto> filler_bytes os sz)"
    unfolding filler_bytes_def by (auto simp: GenerateFiller_def and_then_Ok_iff Let_def split: if_splits)
  with sz that show thesis by blast
qed

lemma filler_bytes_size: "sz < 2 ^ 32 \<Longrightarrow> of_be32 (drop (length (filler_bytes os sz) - 4) (filler_bytes os sz)) = sz"
  using of_be32_to_be32[of sz "[]"] by (simp add: filler_bytes_def)


section \<open>Partitions\<close>












section \<open>What the signature should say\<close>









section \<open>A sample payload\<close>






definition sample_payload_os :: payload_os where
  "sample_payload_os =
     \<lparr>po_lstat = (\<lambda>_. Ok 5), po_open = (\<lambda>_. Ok ()), po_ftruncate = (\<lambda>_ _. Ok ()), po_write = (\<lambda>_. Ok 4),
      po_align = (\<lambda>n. (n + 15) div 16 * 16), po_stream_ok = (\<lambda>_. True)\<rparr>"

definition sample_signature :: MicrodroidSignature where
  "sample_signature = \<lparr>ms_version = 1,
     ms_apexes = [\<lparr>as_name = ''a'', as_size = 5, as_publicKey = ''k'', as_rootDigest = []\<rparr>,
       \<lparr>as_name = ''s'', as_size = 5, as_publicKey = [], as_rootDigest = []\<rparr>],
     ms_apk = Some \<lparr>ak_name = ''p'', ak_payload_partition_name = ''microdroid-apk'', ak_idsig_partition_name = []\<rparr>\<rparr>"

definition sample_serialize :: "MicrodroidSignature \<Rightarrow> bytes option" where
  "sample_serialize s = (if s = sample_signature then Some [1] else None)"

definition sample_parse :: "bytes \<Rightarrow> MicrodroidSignature option" where
  "sample_parse b = (if b = [1] then Some sample_signature else None)"


lemma sample_filler: "\<exists>files'. GenerateFiller sample_payload_os ''/a'' ''/f'' Map.empty = (Ok (), files')"
  by (simp add: GenerateFiller_def GetFileSize_def sample_payload_os_def filler_size_def)



section \<open>Properties\<close>

text \<open>C35: The signature partition can be read back: reading what \<open>WriteMicrodroidSignature\<close> has written, followed by
  any padding, gives the signature, provided the protobuf code can parse what it serialized and the message
  is shorter than 4 GiB.\<close>

theorem signature_roundtrip:
  assumes "serialize sig = Some b" "parse b = Some sig" "length b < 2 ^ 32"
  shows "\<exists>c. WriteMicrodroidSignature serialize sig = Ok c \<and> ReadMicrodroidSignature parse (Ok (c @ padding)) = Ok sig"
  using assms of_be32_to_be32[OF assms(3), of "b @ padding"]
  by (simp add: WriteMicrodroidSignature_def ReadMicrodroidSignature_def Let_def)

theorem signature_roundtrip_witness:
  "\<exists>c. WriteMicrodroidSignature sample_serialize sample_signature = Ok c \<and>
     ReadMicrodroidSignature sample_parse (Ok (c @ [0, 0])) = Ok sample_signature"
  by (rule signature_roundtrip[where b = "[1]"]) (simp_all add: sample_serialize_def sample_parse_def)

text \<open>C34: The size of a payload can be read back from its partition. For a file shorter than 4 GiB the partition made of
  the file and its filler has the aligned size, and its last four bytes are the size of the file in big
  endian, as the format requires.\<close>

theorem payload_size_recoverable:
  assumes "GenerateFiller os path filler files = (Ok u, files')" "po_write os filler = Ok 4"
    and "po_lstat os path = Ok (length content)" "length content < 2 ^ 32"
    and "length content + 4 \<le> po_align os (length content + 4)" "po_align os (length content + 4) < 2 ^ 63"
  shows "\<exists>fb. files' filler = Some fb \<and> length (content @ fb) = po_align os (length content + 4) \<and>
    of_be32 (drop (length (content @ fb) - 4) (content @ fb)) = length content"
proof -
  let ?n = "length content"
  have sz: "GetFileSize os path = Ok ?n" using assms(3,4) by (simp add: GetFileSize_def)
  with GenerateFiller_Ok[OF assms(1,2)] have f: "files' = files(filler \<mapsto> filler_bytes os ?n)" by auto
  have "filler_size os ?n = po_align os (?n + 4) - ?n"
  proof -
    have "po_align os (?n + 4) + 2 ^ 64 - ?n = 2 ^ 64 + (po_align os (?n + 4) - ?n)" using assms(5) by simp
    moreover have "po_align os (?n + 4) - ?n < 2 ^ 64" using assms(6) by simp
    ultimately show ?thesis by (simp only: filler_size_def Let_def mod_add_self1 mod_less)
  qed
  then have len: "?n + length (filler_bytes os ?n) = po_align os (?n + 4)" "4 \<le> length (filler_bytes os ?n)"
    using assms(5) by (simp_all add: filler_bytes_def)
  have "drop (length (content @ filler_bytes os ?n) - 4) (content @ filler_bytes os ?n) =
    drop (length (filler_bytes os ?n) - 4) (filler_bytes os ?n)" using len(2) by simp
  then have "of_be32 (drop (length (content @ filler_bytes os ?n) - 4) (content @ filler_bytes os ?n)) = ?n"
    by (simp only: filler_bytes_size[OF assms(4)])
  moreover have "files' filler = Some (filler_bytes os ?n)" "length (content @ filler_bytes os ?n) = po_align os (?n + 4)"
    using f len(1) by simp_all
  ultimately show ?thesis by blast
qed

theorem payload_size_recoverable_witness:
  "\<exists>files' fb. GenerateFiller sample_payload_os ''/a'' ''/f'' Map.empty = (Ok (), files') \<and> files' ''/f'' = Some fb \<and>
     length ([1, 2, 3, 4, 5] @ fb) = 16 \<and>
     of_be32 (drop (length ([1, 2, 3, 4, 5] @ fb) - 4) ([1, 2, 3, 4, 5] @ fb)) = 5"
proof -
  obtain files' where run: "GenerateFiller sample_payload_os ''/a'' ''/f'' Map.empty = (Ok (), files')"
    using sample_filler by blast
  have five: "length [1, 2, 3, 4, 5 :: u8] = 5" by simp
  have "\<exists>fb. files' ''/f'' = Some fb \<and> length ([1, 2, 3, 4, 5] @ fb) = po_align sample_payload_os (5 + 4) \<and>
      of_be32 (drop (length ([1, 2, 3, 4, 5] @ fb) - 4) ([1, 2, 3, 4, 5] @ fb)) = 5"
    by (rule payload_size_recoverable[OF run, of "[1, 2, 3, 4, 5]", unfolded five]) (simp_all add: sample_payload_os_def)
  moreover have "po_align sample_payload_os (5 + 4) = 16" by (simp add: sample_payload_os_def)
  ultimately show ?thesis using run by (metis (no_types, lifting))
qed

text \<open>A payload of 4 GiB or more is recorded with a wrong size: its size is cut to 32 bits.\<close>

theorem oversized_payload_truncated:
  assumes "GenerateFiller os path filler files = (Ok u, files')" "po_write os filler = Ok 4"
    and "po_lstat os path = Ok n" "2 ^ 32 \<le> n"
  shows "\<exists>fb. files' filler = Some fb \<and> of_be32 (drop (length fb - 4) fb) = n mod 2 ^ 32 \<and> n mod 2 ^ 32 \<noteq> n"
proof -
  have "GetFileSize os path = Ok (n mod 2 ^ 32)" using assms(3) by (simp add: GetFileSize_def)
  with GenerateFiller_Ok[OF assms(1,2)] have f: "files' = files(filler \<mapsto> filler_bytes os (n mod 2 ^ 32))" by auto
  have lt: "n mod 2 ^ 32 < 2 ^ 32" by simp
  then have "n mod 2 ^ 32 \<noteq> n" using assms(4) by linarith
  with f filler_bytes_size[OF lt, of os] show ?thesis by simp
qed

theorem oversized_payload_truncated_witness:
  "\<exists>files' fb. GenerateFiller (sample_payload_os\<lparr>po_lstat := \<lambda>_. Ok (2 ^ 32 + 5)\<rparr>) ''/a'' ''/f'' Map.empty =
       (Ok (), files') \<and> files' ''/f'' = Some fb \<and> of_be32 (drop (length fb - 4) fb) = (2 ^ 32 + 5) mod 2 ^ 32"
proof -
  let ?os = "sample_payload_os\<lparr>po_lstat := \<lambda>_. Ok (2 ^ 32 + 5)\<rparr>"
  have "\<exists>files'. GenerateFiller ?os ''/a'' ''/f'' Map.empty = (Ok (), files')"
    by (simp add: GenerateFiller_def GetFileSize_def sample_payload_os_def filler_size_def)
  then obtain files' where run: "GenerateFiller ?os ''/a'' ''/f'' Map.empty = (Ok (), files')" by blast
  have "po_write ?os ''/f'' = Ok 4" "po_lstat ?os ''/a'' = Ok (2 ^ 32 + 5)" by (simp_all add: sample_payload_os_def)
  from oversized_payload_truncated[OF run this] run show ?thesis by auto
qed



end
