(* ===== verification/Services.thy ===== *)
theory Services
  imports Compos_Correct Vm_Tool
begin

text \<open>
  How the programs find each other. The servers \<open>fd_server\<close>, \<open>compsvc\<close> and \<open>virtmanager\<close> register a binder object
  in their \<open>main\<close>; authfs, \<open>pvm_exec\<close> and the \<open>vm\<close> tool look the objects up by name. The binder library and the
  service manager behind it are the fields of \<open>binder_lib\<close> over an abstract state; \<open>service_manager_spec\<close> is what
  they document, a registry of names. A binder object is the server's data and its interface. Serving requests
  is \<open>join_thread_pool\<close>, whose first component says whether it returns at all; a healthy server is one that does
  not (\<open>Hang\<close>). Setting up the log is left out.
\<close>

section \<open>The binder library\<close>

datatype interface = IVirtFdService | ICompService | IVirtManager

datatype 'f service_object =
    VirtFdServiceObject "'f fd_service"
  | CompServiceObject CompService
  | VirtManagerObject (requesting_sid: bool)

primrec interface_of :: "'f service_object \<Rightarrow> interface" where
  "interface_of (VirtFdServiceObject _) = IVirtFdService"
| "interface_of (CompServiceObject _) = ICompService"
| "interface_of (VirtManagerObject _) = IVirtManager"

record ('e, 'f, 'm) binder_lib =
  add_service :: "string \<Rightarrow> 'f service_object \<Rightarrow> 'm \<Rightarrow> ('e, unit) res \<times> 'm"
  get_interface :: "interface \<Rightarrow> string \<Rightarrow> 'm \<Rightarrow> ('e, 'f service_object) res"
  start_thread_pool :: "'m \<Rightarrow> 'm"
  join_thread_pool :: "'m \<Rightarrow> bool \<times> 'm"

definition service_manager_spec ::
  "('e, 'f, 'm) binder_lib \<Rightarrow> ('m \<Rightarrow> string \<Rightarrow> 'f service_object option) \<Rightarrow> bool" where
  "service_manager_spec lib reg \<longleftrightarrow>
     (\<forall>n b m. (\<exists>m'. add_service lib n b m = (Ok (), m') \<and> reg m' = (reg m)(n \<mapsto> b)) \<or>
        (\<exists>e m'. add_service lib n b m = (Err e, m') \<and> reg m' = reg m)) \<and>
     (\<forall>i n m. \<exists>e. get_interface lib i n m =
        (case reg m n of Some b \<Rightarrow> if interface_of b = i then Ok b else Err e | None \<Rightarrow> Err e)) \<and>
     (\<forall>m. reg (start_thread_pool lib m) = reg m) \<and>
     (\<forall>m. reg (snd (join_thread_pool lib m)) = reg m)"

section \<open>The servers\<close>

definition serve :: "('e, 'f, 'm) binder_lib \<Rightarrow> 'm \<Rightarrow> ('x, unit) res \<times> 'm" where
  "serve lib m = (case join_thread_pool lib m of (returns, m) \<Rightarrow> (if returns then Ok () else Hang, m))"

datatype ('e, 'p) server_error = ParseFailed 'p | RegisterFailed 'e | UnexpectedJoin

text \<open>\<open>fd_server/src/main.rs\<close>\<close>

definition fd_server_SERVICE_NAME :: string where
  "fd_server_SERVICE_NAME = ''authfs_fd_server''"

definition FdService_new_binder :: "(int \<rightharpoonup> 'f fd_config) \<Rightarrow> 'f service_object" where
  "FdService_new_binder pool = VirtFdServiceObject \<lparr>fd_pool = pool\<rparr>"

definition fd_server_main ::
  "('e, 'f, 'm) binder_lib \<Rightarrow> ('p, int \<rightharpoonup> 'f fd_config) res \<Rightarrow> 'm \<Rightarrow> (('e, 'p) server_error, unit) res \<times> 'm" where
  "fd_server_main lib parsed m =
     and_then (map_err ParseFailed parsed, m) (\<lambda>pool m.
     let m = start_thread_pool lib m in
     and_then (map_err_st RegisterFailed
                (add_service lib fd_server_SERVICE_NAME (FdService_new_binder pool) m)) (\<lambda>_ m.
     and_then (serve lib m) (\<lambda>_ m.
     (Err UnexpectedJoin, m))))"

text \<open>\<open>compsvc.rs\<close>\<close>

definition compsvc_SERVICE_NAME :: string where
  "compsvc_SERVICE_NAME = ''compsvc''"

definition CompService_new_binder :: "CompService \<Rightarrow> 'f service_object" where
  "CompService_new_binder service = CompServiceObject service"

definition compsvc_main ::
  "('e, 'f, 'm) binder_lib \<Rightarrow> ('p, CompService) res \<Rightarrow> 'm \<Rightarrow> (('e, 'p) server_error, unit) res \<times> 'm" where
  "compsvc_main lib parsed m =
     and_then (map_err ParseFailed parsed, m) (\<lambda>service m.
     let m = start_thread_pool lib m in
     and_then (map_err_st RegisterFailed
                (add_service lib compsvc_SERVICE_NAME (CompService_new_binder service) m)) (\<lambda>_ m.
     and_then (serve lib m) (\<lambda>_ m.
     (Err UnexpectedJoin, m))))"

text \<open>\<open>virtmanager/src/main.rs\<close>; \<open>unwrap\<close> of a failed registration is a panic. The state of a new \<open>VirtManager\<close>
  is \<open>VirtManager_default\<close>.\<close>

definition BINDER_SERVICE_IDENTIFIER :: string where
  "BINDER_SERVICE_IDENTIFIER = ''android.system.virtmanager''"

definition virtmanager_main ::
  "('e, 'f, 'm) binder_lib \<Rightarrow> 'm \<Rightarrow> ('e, unit) res \<times> 'm" where
  "virtmanager_main lib m =
     and_then (expect_st (add_service lib BINDER_SERVICE_IDENTIFIER (VirtManagerObject True) m)) (\<lambda>_ m.
     serve lib m)"

section \<open>The clients\<close>

text \<open>\<open>authfs/src/file.rs\<close>, \<open>pvm_exec.rs\<close>: \<open>expect\<close> panics if the service cannot be reached.\<close>

definition get_local_binder :: "('e, 'f, 'm) binder_lib \<Rightarrow> 'm \<Rightarrow> ('e, 'f service_object) res" where
  "get_local_binder lib m =
     (case get_interface lib IVirtFdService ''authfs_fd_server'' m of Ok b \<Rightarrow> Ok b | Hang \<Rightarrow> Hang | _ \<Rightarrow> Panic)"

definition pvm_exec_SERVICE_NAME :: string where
  "pvm_exec_SERVICE_NAME = ''compsvc''"

definition get_local_service :: "('e, 'f, 'm) binder_lib \<Rightarrow> 'm \<Rightarrow> ('e, 'f service_object) res" where
  "get_local_service lib m =
     (case get_interface lib ICompService pvm_exec_SERVICE_NAME m of Ok b \<Rightarrow> Ok b | Hang \<Rightarrow> Hang | _ \<Rightarrow> Panic)"

text \<open>\<open>vm/src/main.rs\<close>: the commands, and the dispatch after the service has been found. What a command sees of
  the system may depend on the configuration path.\<close>

definition VIRT_MANAGER_BINDER_SERVICE_IDENTIFIER :: string where
  "VIRT_MANAGER_BINDER_SERVICE_IDENTIFIER = ''android.system.virtmanager''"

datatype Opt = Opt_Run string bool | Opt_Stop nat | Opt_List

datatype vm_outcome = RunDone run_outcome | StopDone | ListDone "VirtualMachineDebugInfo list"

datatype 'e vm_main_error = ServiceNotFound 'e | CommandFailed vm_tool_error

definition vm_dispatch ::
  "('cb vm_world \<Rightarrow> 'cb vm_world) \<Rightarrow> (string \<Rightarrow> run_env) \<Rightarrow> 'cb \<Rightarrow> nat \<Rightarrow> Opt \<Rightarrow> 'cb vm_world \<Rightarrow>
   (vm_tool_error, vm_outcome) res \<times> 'cb vm_world" where
  "vm_dispatch sched env dead uid opt w =
     (case opt of
        Opt_Run config daemonize \<Rightarrow>
          and_then (command_run sched (env config) dead daemonize w) (\<lambda>r w. (Ok (RunDone r), w))
      | Opt_Stop cid \<Rightarrow> and_then (command_stop uid cid w) (\<lambda>_ w. (Ok StopDone, w))
      | Opt_List \<Rightarrow> and_then (command_list uid w, w) (\<lambda>l w. (Ok (ListDone l), w)))"

definition vm_main ::
  "('e, 'f, 'm) binder_lib \<Rightarrow> 'm \<Rightarrow> ('cb vm_world \<Rightarrow> 'cb vm_world) \<Rightarrow> (string \<Rightarrow> run_env) \<Rightarrow> 'cb \<Rightarrow> nat \<Rightarrow> Opt \<Rightarrow>
   'cb vm_world \<Rightarrow> ('e vm_main_error, vm_outcome) res \<times> 'cb vm_world" where
  "vm_main lib m sched env dead uid opt w =
     (let m = start_thread_pool lib m in
      and_then (map_err ServiceNotFound
                 (get_interface lib IVirtManager VIRT_MANAGER_BINDER_SERVICE_IDENTIFIER m), w)
        (\<lambda>virt_manager w. map_err_st CommandFailed (vm_dispatch sched env dead uid opt w)))"

section \<open>Starting the servers in any order\<close>

datatype 'f server = FdServer "int \<rightharpoonup> 'f fd_config" | CompSvc CompService | VirtManagerServer

text \<open>Whether the server is serving, and the registry after its start.\<close>

primrec start_server :: "('e, 'f, 'm) binder_lib \<Rightarrow> 'f server \<Rightarrow> 'm \<Rightarrow> bool \<times> 'm" where
  "start_server lib (FdServer pool) m =
     apfst (\<lambda>r. r = Hang) (fd_server_main lib (Ok pool :: (unit, int \<rightharpoonup> 'f fd_config) res) m)"
| "start_server lib (CompSvc service) m =
     apfst (\<lambda>r. r = Hang) (compsvc_main lib (Ok service :: (unit, CompService) res) m)"
| "start_server lib VirtManagerServer m = apfst (\<lambda>r. r = Hang) (virtmanager_main lib m)"

primrec start_servers :: "('e, 'f, 'm) binder_lib \<Rightarrow> 'f server list \<Rightarrow> 'm \<Rightarrow> bool \<times> 'm" where
  "start_servers lib [] m = (True, m)"
| "start_servers lib (x # xs) m =
     (case start_server lib x m of (serving, m) \<Rightarrow> apfst (\<lambda>b. serving \<and> b) (start_servers lib xs m))"

primrec server_name :: "'f server \<Rightarrow> string" where
  "server_name (FdServer _) = fd_server_SERVICE_NAME"
| "server_name (CompSvc _) = compsvc_SERVICE_NAME"
| "server_name VirtManagerServer = BINDER_SERVICE_IDENTIFIER"

primrec server_object :: "'f server \<Rightarrow> 'f service_object" where
  "server_object (FdServer pool) = FdService_new_binder pool"
| "server_object (CompSvc service) = CompService_new_binder service"
| "server_object VirtManagerServer = VirtManagerObject True"

lemmas service_names = fd_server_SERVICE_NAME_def compsvc_SERVICE_NAME_def BINDER_SERVICE_IDENTIFIER_def
  pvm_exec_SERVICE_NAME_def VIRT_MANAGER_BINDER_SERVICE_IDENTIFIER_def

lemma add_serviceE:
  assumes "service_manager_spec lib reg"
  obtains m' where "add_service lib n b m = (Ok (), m')" "reg m' = (reg m)(n \<mapsto> b)"
  | e m' where "add_service lib n b m = (Err e, m')" "reg m' = reg m"
  using assms unfolding service_manager_spec_def by blast

lemma reg_thread_pool:
  assumes "service_manager_spec lib reg"
  shows "reg (start_thread_pool lib m) = reg m" "reg (snd (join_thread_pool lib m)) = reg m"
  using assms unfolding service_manager_spec_def by blast+

lemma serve_eq: "serve lib m = (if fst (join_thread_pool lib m) then Ok () else Hang, snd (join_thread_pool lib m))"
  by (simp add: serve_def split: prod.split)

text \<open>A server that is serving has registered its object under its name.\<close>

lemma start_server_registers:
  assumes spec: "service_manager_spec lib reg" and run: "start_server lib x m = (True, m')"
  shows "reg m' = (reg m)(server_name x \<mapsto> server_object x)"
proof -
  let ?m = "start_thread_pool lib m"
  show ?thesis
  proof (cases x)
    case (FdServer pool)
    with run show ?thesis
      by (cases rule: add_serviceE[OF spec, of fd_server_SERVICE_NAME "FdService_new_binder pool" ?m])
        (auto simp: fd_server_main_def Let_def map_err_st_def serve_eq reg_thread_pool[OF spec] split: if_splits)
  next
    case (CompSvc service)
    with run show ?thesis
      by (cases rule: add_serviceE[OF spec, of compsvc_SERVICE_NAME "CompService_new_binder service" ?m])
        (auto simp: compsvc_main_def Let_def map_err_st_def serve_eq reg_thread_pool[OF spec] split: if_splits)
  next
    case VirtManagerServer
    with run show ?thesis
      by (cases rule: add_serviceE[OF spec, of BINDER_SERVICE_IDENTIFIER "VirtManagerObject True" m])
        (auto simp: virtmanager_main_def expect_st_def serve_eq reg_thread_pool[OF spec] split: if_splits)
  qed
qed

lemma start_servers_registers:
  assumes "service_manager_spec lib reg" "start_servers lib xs m = (True, m')" "distinct (map server_name xs)"
  shows "reg m' = (\<lambda>n. case find (\<lambda>x. server_name x = n) xs of Some x \<Rightarrow> Some (server_object x) | None \<Rightarrow> reg m n)"
  using assms(2,3)
proof (induction xs arbitrary: m)
  case (Cons x xs)
  from Cons.prems(1) obtain m1 where m1: "start_server lib x m = (True, m1)" "start_servers lib xs m1 = (True, m')"
    by (cases "start_server lib x m"; cases "start_servers lib xs (snd (start_server lib x m))") auto
  have "find (\<lambda>y. server_name y = server_name x) xs = None"
    using Cons.prems(2) by (force simp: find_None_iff image_iff)
  with Cons.IH[OF m1(2)] Cons.prems(2) start_server_registers[OF assms(1) m1(1)] show ?case
    by (auto simp: fun_eq_iff split: option.split)
qed simp

lemma find_server:
  assumes "x \<in> set xs" "distinct (map server_name xs)"
  shows "find (\<lambda>y. server_name y = server_name x) xs = Some x"
  using assms by (induction xs) (auto simp: image_iff)

lemma get_interface_registered:
  assumes "service_manager_spec lib reg" "reg m n = Some b" "interface_of b = i"
  shows "get_interface lib i n m = Ok b"
proof -
  from assms(1) obtain e where "get_interface lib i n m =
      (case reg m n of Some b \<Rightarrow> if interface_of b = i then Ok b else Err e | None \<Rightarrow> Err e)"
    unfolding service_manager_spec_def by blast
  with assms(2,3) show ?thesis by simp
qed

lemma get_interface_missing:
  assumes "service_manager_spec lib reg" "reg m n = None"
  shows "\<exists>e. get_interface lib i n m = Err e"
proof -
  from assms(1) obtain e where "get_interface lib i n m =
      (case reg m n of Some b \<Rightarrow> if interface_of b = i then Ok b else Err e | None \<Rightarrow> Err e)"
    unfolding service_manager_spec_def by blast
  with assms(2) show ?thesis by simp
qed

text \<open>C32: Whatever the order in which the servers are started, once they are serving each client reaches its own
  server: authfs the file descriptors \<open>fd_server\<close> was given, \<open>pvm_exec\<close> the \<open>compsvc\<close> with its task, and the \<open>vm\<close> tool a
  \<open>virtmanager\<close> that is told the identity of its callers, so that the tool goes on to its command.\<close>

theorem clients_reach_servers:
  assumes "service_manager_spec lib reg" "start_servers lib servers m = (True, m')"
    and "distinct (map server_name servers)"
    and "set servers = {FdServer pool, CompSvc service, VirtManagerServer}"
  shows "get_local_binder lib m' = Ok (FdService_new_binder pool) \<and>
    get_local_service lib m' = Ok (CompService_new_binder service) \<and>
    get_interface lib IVirtManager VIRT_MANAGER_BINDER_SERVICE_IDENTIFIER m' = Ok (VirtManagerObject True) \<and>
    vm_main lib m' sched env dead uid opt w = map_err_st CommandFailed (vm_dispatch sched env dead uid opt w)"
proof -
  have reg: "reg m' (server_name x) = Some (server_object x)" if "x \<in> set servers" for x
    using start_servers_registers[OF assms(1-3)] find_server[OF that assms(3)] by simp
  have vm: "reg m' VIRT_MANAGER_BINDER_SERVICE_IDENTIFIER = Some (VirtManagerObject True)"
    using reg[of VirtManagerServer] assms(4) by (simp add: service_names)
  have "get_interface lib IVirtFdService ''authfs_fd_server'' m' = Ok (FdService_new_binder pool)"
    using reg[of "FdServer pool"] assms(4)
    by (intro get_interface_registered[OF assms(1)]) (simp_all add: service_names FdService_new_binder_def)
  moreover have "get_interface lib ICompService pvm_exec_SERVICE_NAME m' = Ok (CompService_new_binder service)"
    using reg[of "CompSvc service"] assms(4)
    by (intro get_interface_registered[OF assms(1)]) (simp_all add: service_names CompService_new_binder_def)
  moreover have "get_interface lib IVirtManager VIRT_MANAGER_BINDER_SERVICE_IDENTIFIER k = Ok (VirtManagerObject True)"
    if "reg k = reg m'" for k
    using vm that by (intro get_interface_registered[OF assms(1)]) simp_all
  ultimately show ?thesis
    by (simp add: get_local_binder_def get_local_service_def vm_main_def reg_thread_pool[OF assms(1)])
qed

text \<open>The service manager as a map, in a system where registration succeeds and servers do not stop.\<close>

definition sample_lib :: "(nat, bytes, string \<rightharpoonup> bytes service_object) binder_lib" where
  "sample_lib =
     \<lparr>add_service = (\<lambda>n b m. (Ok (), m(n \<mapsto> b))),
      get_interface = (\<lambda>i n m. case m n of Some b \<Rightarrow> if interface_of b = i then Ok b else Err 1 | None \<Rightarrow> Err 1),
      start_thread_pool = (\<lambda>m. m), join_thread_pool = (\<lambda>m. (False, m))\<rparr>"

lemma sample_lib_spec: "service_manager_spec sample_lib (\<lambda>m. m)"
  by (auto simp: service_manager_spec_def sample_lib_def)

theorem clients_reach_servers_witness:
  "\<exists>m'. start_servers sample_lib [VirtManagerServer, FdServer (\<lambda>_. None), CompSvc sample_comp_service] Map.empty = (True, m') \<and>
    get_local_binder sample_lib m' = Ok (FdService_new_binder (\<lambda>_. None)) \<and>
    get_local_service sample_lib m' = Ok (CompService_new_binder sample_comp_service) \<and>
    get_interface sample_lib IVirtManager VIRT_MANAGER_BINDER_SERVICE_IDENTIFIER m' = Ok (VirtManagerObject True) \<and>
    vm_main sample_lib m' id (\<lambda>_. sample_run_env) ''cb'' 0 Opt_List VirtManager_default = (Ok (ListDone []), VirtManager_default)"
proof -
  let ?xs = "[VirtManagerServer, FdServer (\<lambda>_. None), CompSvc sample_comp_service]"
  obtain m' where run: "start_servers sample_lib ?xs Map.empty = (True, m')"
    by (simp add: sample_lib_def fd_server_main_def compsvc_main_def virtmanager_main_def serve_def map_err_st_def
        expect_st_def)
  have names: "distinct (map server_name ?xs)" by (simp add: service_names)
  have dispatch: "vm_dispatch id (\<lambda>_. sample_run_env) ''cb'' 0 Opt_List VirtManager_default = (Ok (ListDone []), VirtManager_default)"
    by (simp add: vm_dispatch_def command_list_def debugListVms_def debug_access_allowed_def
        DEBUG_ALLOWED_UIDS_def State_vms_def VirtManager_default_def State_default_def)
  have "set ?xs = {FdServer (\<lambda>_. None), CompSvc sample_comp_service, VirtManagerServer}" by auto
  from clients_reach_servers[OF sample_lib_spec run names this, of id "\<lambda>_. sample_run_env" "''cb''" 0
      Opt_List VirtManager_default] run
  show ?thesis unfolding dispatch map_err_st_def fst_conv snd_conv map_err.simps by blast
qed

text \<open>Before a server is registered, authfs and \<open>pvm_exec\<close> panic; the \<open>vm\<close> tool returns an error and does nothing.\<close>

lemma clients_without_servers:
  assumes "service_manager_spec lib reg" "reg m = Map.empty"
  shows "get_local_binder lib m = Panic" "get_local_service lib m = Panic"
    "\<exists>e. vm_main lib m sched env dead uid opt w = (Err (ServiceNotFound e), w)"
proof -
  have none: "\<exists>e. get_interface lib i n k = Err e" if "reg k = reg m" for i n k
    using that assms(2) by (intro get_interface_missing[OF assms(1)]) simp
  show "get_local_binder lib m = Panic"
    using none[OF refl, of IVirtFdService "''authfs_fd_server''"] by (auto simp: get_local_binder_def)
  show "get_local_service lib m = Panic"
    using none[OF refl, of ICompService pvm_exec_SERVICE_NAME] by (auto simp: get_local_service_def)
  show "\<exists>e. vm_main lib m sched env dead uid opt w = (Err (ServiceNotFound e), w)"
    using none[OF reg_thread_pool(1)[OF assms(1)], of IVirtManager VIRT_MANAGER_BINDER_SERVICE_IDENTIFIER]
    by (auto simp: vm_main_def Let_def)
qed

end
