(* ===== verification/Guest_Init.thy ===== *)
theory Guest_Init
  imports Rust_Str "HOL-Library.Multiset" "HOL-Library.List_Lexorder" "HOL-Library.Char_ord"
begin

text \<open>
  The programs inside the test VM: \<open>tests/init/main.cc\<close>, its init process, which loads the kernel modules and
  then executes the program named on its command line, and \<open>tests/vsock_guest.cc\<close>, which sends a message to the
  host. \<open>uname\<close>, the directory \<open>/lib/modules\<close>, libmodprobe, \<open>clearenv\<close>, \<open>execv\<close>, the sockets and \<open>ParseUint\<close> of libbase
  are the fields of \<open>guest_os\<close> and \<open>vsock_api\<close> over abstract states; \<open>sscanf\<close>, \<open>std::sort\<close> and the strings are
  modelled. C leaves open what \<open>sscanf\<close> stores for a number that does not fit an \<open>int\<close>: \<open>store_int\<close>. Retrying after
  a signal and log messages are left out.
\<close>

section \<open>\<open>sscanf\<close> with the format \<open>%d.%d\<close>\<close>

definition c_isspace :: "char \<Rightarrow> bool" where
  "c_isspace c \<longleftrightarrow> of_char c \<in> {9, 10, 11, 12, 13, 32 :: nat}"

definition c_isdigit :: "char \<Rightarrow> bool" where
  "c_isdigit c \<longleftrightarrow> digit_val c \<noteq> None"

definition scan_digits :: "string \<Rightarrow> (nat \<times> string) option" where
  "scan_digits s =
     (if takeWhile c_isdigit s = [] then None
      else map_option (\<lambda>n. (n, dropWhile c_isdigit s)) (parse_digits 0 (takeWhile c_isdigit s)))"

definition scan_int :: "string \<Rightarrow> (int \<times> string) option" where
  "scan_int s =
     (case dropWhile c_isspace s of
        [] \<Rightarrow> None
      | c # t \<Rightarrow>
          if c = CHR ''-'' then map_option (apfst (\<lambda>n. - int n)) (scan_digits t)
          else map_option (apfst int) (scan_digits (if c = CHR ''+'' then t else c # t)))"

text \<open>The two numbers, if both were converted.\<close>

definition sscanf_version :: "(int \<Rightarrow> int) \<Rightarrow> string \<Rightarrow> (int \<times> int) option" where
  "sscanf_version store s =
     (case scan_int s of
        Some (a, CHR ''.'' # t) \<Rightarrow> map_option (\<lambda>(b, _). (store a, store b)) (scan_int t)
      | _ \<Rightarrow> None)"

section \<open>\<open>LoadKernelModules\<close>\<close>

record dirent =
  d_type :: nat
  d_name :: string

definition DT_DIR :: nat where
  "DT_DIR = 4"

record ('m, 's) guest_os =
  uname_release :: "'s \<Rightarrow> string option"
  store_int :: "int \<Rightarrow> int"
  opendir_entries :: "string \<Rightarrow> 's \<Rightarrow> dirent list option"
  modprobe_new :: "string list \<Rightarrow> 's \<Rightarrow> 'm \<times> 's"
  LoadListedModules :: "'m \<Rightarrow> 's \<Rightarrow> bool \<times> 'm \<times> 's"
  GetModuleCount :: "'m \<Rightarrow> int"
  clearenv :: "'s \<Rightarrow> int \<times> 's"
  execv :: "string \<Rightarrow> string list \<Rightarrow> 's \<Rightarrow> bool"

definition MODULE_BASE_DIR :: string where
  "MODULE_BASE_DIR = ''/lib/modules''"

definition matching_dirs :: "(int \<Rightarrow> int) \<Rightarrow> int \<times> int \<Rightarrow> dirent list \<Rightarrow> string list" where
  "matching_dirs store version entries =
     map d_name (filter (\<lambda>e. d_type e = DT_DIR \<and> sscanf_version store (d_name e) = Some version) entries)"

text \<open>A \<open>Modprobe\<close> for one directory: the result of loading, the number of modules, the new state.\<close>

definition load_from :: "('m, 's) guest_os \<Rightarrow> string \<Rightarrow> 's \<Rightarrow> bool \<times> int \<times> 's" where
  "load_from os dir_path s =
     (case modprobe_new os [dir_path] s of (m, s) \<Rightarrow>
      case LoadListedModules os m s of (retval, m, s) \<Rightarrow> (retval, GetModuleCount os m, s))"

text \<open>The loop over the directories: the result of the first one with a module.\<close>

primrec load_first :: "('m, 's) guest_os \<Rightarrow> string list \<Rightarrow> 's \<Rightarrow> bool option \<times> 's" where
  "load_first os [] s = (None, s)"
| "load_first os (module_dir # dirs) s =
     (case load_from os (MODULE_BASE_DIR @ ''/'' @ module_dir) s of (retval, modules_loaded, s) \<Rightarrow>
        if modules_loaded > 0 then (Some retval, s) else load_first os dirs s)"

definition LoadKernelModules :: "('m, 's) guest_os \<Rightarrow> 's \<Rightarrow> bool \<times> 's" where
  "LoadKernelModules os s =
     (case uname_release os s of
        None \<Rightarrow> (False, s)
      | Some release \<Rightarrow>
     (case sscanf_version (store_int os) release of
        None \<Rightarrow> (False, s)
      | Some version \<Rightarrow>
     (case opendir_entries os MODULE_BASE_DIR s of
        None \<Rightarrow> (False, s)
      | Some entries \<Rightarrow>
          let module_dirs = sort (matching_dirs (store_int os) version entries) in
          (case load_first os module_dirs s of
             (Some retval, s) \<Rightarrow> (retval, s)
           | (None, s) \<Rightarrow>
               (case load_from os MODULE_BASE_DIR s of (retval, modules_loaded, s) \<Rightarrow>
                  if modules_loaded > 0 then (retval, s) else (True, s))))))"

section \<open>\<open>main\<close> of init\<close>

text \<open>A process exits with a code or becomes another program. Without an argument the program prints a null
  pointer, which C++ leaves undefined.\<close>

datatype process_end = Exit nat | Exec string "string list" | Undefined

definition EXIT_SUCCESS :: nat where
  "EXIT_SUCCESS = 0"

definition EXIT_FAILURE :: nat where
  "EXIT_FAILURE = 1"

definition init_main :: "('m, 's) guest_os \<Rightarrow> string list \<Rightarrow> 's \<Rightarrow> process_end \<times> 's" where
  "init_main os argv s =
     (case clearenv os s of (r, s) \<Rightarrow>
      if r \<noteq> int EXIT_SUCCESS then (Exit EXIT_FAILURE, s)
      else case LoadKernelModules os s of (loaded, s) \<Rightarrow>
        if \<not> loaded then (Exit EXIT_FAILURE, s)
        else case argv of
          _ # prog # args \<Rightarrow>
            if execv os prog (prog # args) s then (Exec prog (prog # args), s) else (Exit EXIT_FAILURE, s)
        | _ \<Rightarrow> (Undefined, s))"

section \<open>\<open>vsock_guest.cc\<close>\<close>

record ('fd, 'n) vsock_api =
  ParseUint :: "string \<Rightarrow> nat option"
  vsock_socket :: "'n \<Rightarrow> 'fd option \<times> 'n"
  vsock_connect :: "'fd \<Rightarrow> nat \<Rightarrow> nat \<Rightarrow> 'n \<Rightarrow> bool \<times> 'n"
  WriteStringToFd :: "string \<Rightarrow> 'fd \<Rightarrow> 'n \<Rightarrow> bool \<times> 'n"
  close_fd :: "'fd \<Rightarrow> 'n \<Rightarrow> 'n"

text \<open>The destructor of \<open>unique_fd\<close> closes the socket on every way out.\<close>

definition vsock_guest_main :: "('fd, 'n) vsock_api \<Rightarrow> string list \<Rightarrow> 'n \<Rightarrow> nat \<times> 'n" where
  "vsock_guest_main api argv n =
     (case argv of
        [_, a1, a2, msg] \<Rightarrow>
          (case (ParseUint api a1, ParseUint api a2) of
             (Some cid, Some port) \<Rightarrow>
               (case vsock_socket api n of
                  (None, n) \<Rightarrow> (EXIT_FAILURE, n)
                | (Some fd, n) \<Rightarrow>
                    (case vsock_connect api fd cid port n of (connected, n) \<Rightarrow>
                       if \<not> connected then (EXIT_FAILURE, close_fd api fd n)
                       else (case WriteStringToFd api msg fd n of (written, n) \<Rightarrow>
                         (if written then EXIT_SUCCESS else EXIT_FAILURE, close_fd api fd n))))
           | _ \<Rightarrow> (EXIT_FAILURE, n))
      | _ \<Rightarrow> (EXIT_FAILURE, n))"

text \<open>\<open>vsock_test.cc\<close>: where the test on the host listens and what it expects to read.\<close>

definition kGuestPort :: nat where
  "kGuestPort = 45678"

definition kTestMessage :: string where
  "kTestMessage = ''HelloWorld''"

text \<open>The host's address, in \<open>linux/vm_sockets.h\<close>.\<close>

definition VMADDR_CID_HOST :: nat where
  "VMADDR_CID_HOST = 2"

section \<open>Version numbers\<close>

lemma c_isspace_not_digit: "c_isspace c \<Longrightarrow> \<not> c_isdigit c"
  by (auto simp: c_isspace_def c_isdigit_def digit_val_def Let_def)

text \<open>A rest that does not continue the number before it.\<close>

definition ends_number :: "string \<Rightarrow> bool" where
  "ends_number t \<longleftrightarrow> (case t of [] \<Rightarrow> True | c # _ \<Rightarrow> \<not> c_isdigit c)"

text \<open>What \<open>%d\<close> accepts, independently of how it is scanned: white space, an optional sign and at least one digit, and
  the number they stand for.\<close>

definition dec_value :: "string \<Rightarrow> nat" where
  "dec_value ds = foldl (\<lambda>n c. 10 * n + (of_char c - 48)) 0 ds"

definition reads_int :: "string \<Rightarrow> int \<Rightarrow> bool" where
  "reads_int s v \<longleftrightarrow>
     (\<exists>ws sign ds. s = ws @ sign @ ds \<and> list_all c_isspace ws \<and> ds \<noteq> [] \<and> list_all c_isdigit ds \<and>
        (sign \<in> {[], ''+''} \<and> v = int (dec_value ds) \<or> sign = ''-'' \<and> v = - int (dec_value ds)))"

text \<open>A string that starts with a version: two such numbers with a dot between them and a label behind, which is not a
  digit. \<open>store\<close> is the conversion to \<open>int\<close>.\<close>

definition names_version :: "(int \<Rightarrow> int) \<Rightarrow> string \<Rightarrow> int \<times> int \<Rightarrow> bool" where
  "names_version store s v \<longleftrightarrow>
     (\<exists>a b x y label. s = a @ ''.'' @ b @ label \<and> reads_int a x \<and> reads_int b y \<and> ends_number label \<and>
        v = (store x, store y))"

lemma parse_digits_dec_value:
  "list_all c_isdigit ds \<Longrightarrow> parse_digits acc ds = Some (foldl (\<lambda>n c. 10 * n + (of_char c - 48)) acc ds)"
  by (induction ds arbitrary: acc) (auto simp: c_isdigit_def digit_val_def Let_def mult.commute split: if_splits)

lemma scan_digits_iff:
  "scan_digits s = Some (n, t) \<longleftrightarrow>
     (\<exists>ds. s = ds @ t \<and> ds \<noteq> [] \<and> list_all c_isdigit ds \<and> ends_number t \<and> n = dec_value ds)"
proof
  assume scan: "scan_digits s = Some (n, t)"
  let ?ds = "takeWhile c_isdigit s"
  have digits: "list_all c_isdigit ?ds" by (auto simp: list_all_iff dest: set_takeWhileD)
  from scan parse_digits_dec_value[OF digits, of 0] have "?ds \<noteq> []" "t = dropWhile c_isdigit s" "n = dec_value ?ds"
    by (auto simp: scan_digits_def dec_value_def split: if_splits)
  with digits show "\<exists>ds. s = ds @ t \<and> ds \<noteq> [] \<and> list_all c_isdigit ds \<and> ends_number t \<and> n = dec_value ds"
    by (intro exI[of _ ?ds]) (auto simp: ends_number_def dropWhile_eq_Cons_conv split: list.split)
next
  assume "\<exists>ds. s = ds @ t \<and> ds \<noteq> [] \<and> list_all c_isdigit ds \<and> ends_number t \<and> n = dec_value ds"
  then obtain ds where ds: "s = ds @ t" "ds \<noteq> []" "list_all c_isdigit ds" "ends_number t" "n = dec_value ds" by blast
  then have "takeWhile c_isdigit s = ds" "dropWhile c_isdigit s = t"
    by (auto simp: list_all_iff ends_number_def split: list.splits)
  with ds parse_digits_dec_value[OF ds(3), of 0] show "scan_digits s = Some (n, t)"
    by (simp add: scan_digits_def dec_value_def)
qed

lemma c_isdigit_sign: "c_isdigit c \<Longrightarrow> c \<noteq> CHR ''+'' \<and> c \<noteq> CHR ''-''"
  by (auto simp: c_isdigit_def digit_val_def)

text \<open>Where white space ends: at a sign or a digit.\<close>

lemma scan_int_iff:
  "scan_int s = Some (v, t) \<longleftrightarrow> (\<exists>a. s = a @ t \<and> reads_int a v \<and> ends_number t)"
proof
  assume scan: "scan_int s = Some (v, t)"
  let ?ws = "takeWhile c_isspace s"
  have ws: "list_all c_isspace ?ws" by (auto simp: list_all_iff dest: set_takeWhileD)
  from scan obtain c u where u: "dropWhile c_isspace s = c # u" by (auto simp: scan_int_def split: list.splits)
  obtain sign ds where ds: "c # u = sign @ ds @ t" "ds \<noteq> []" "list_all c_isdigit ds" "ends_number t"
    "sign \<in> {[], ''+''} \<and> v = int (dec_value ds) \<or> sign = ''-'' \<and> v = - int (dec_value ds)"
  proof (cases "c = CHR ''-''")
    case True
    with scan u obtain n where "scan_digits u = Some (n, t)" "v = - int n" by (auto simp: scan_int_def)
    with True that[of "''-''"] show thesis by (auto simp: scan_digits_iff)
  next
    case False
    with scan u obtain n where "scan_digits (if c = CHR ''+'' then u else c # u) = Some (n, t)" "v = int n"
      by (auto simp: scan_int_def)
    with False that[of "''+''"] that[of "[]"] show thesis by (auto simp: scan_digits_iff split: if_splits)
  qed
  have "s = (?ws @ sign @ ds) @ t" using ds(1) u by (metis append_assoc takeWhile_dropWhile_id)
  moreover have "reads_int (?ws @ sign @ ds) v" unfolding reads_int_def using ws ds by blast
  ultimately show "\<exists>a. s = a @ t \<and> reads_int a v \<and> ends_number t" using ds(4) by blast
next
  assume "\<exists>a. s = a @ t \<and> reads_int a v \<and> ends_number t"
  then obtain a where a: "s = a @ t" "ends_number t" "reads_int a v" by blast
  from a(3) obtain ws sign ds where "a = ws @ sign @ ds" and s: "list_all c_isspace ws" "ds \<noteq> []" "list_all c_isdigit ds"
    "sign \<in> {[], ''+''} \<and> v = int (dec_value ds) \<or> sign = ''-'' \<and> v = - int (dec_value ds)"
    unfolding reads_int_def by (elim exE conjE)
  with a(1) have st: "s = ws @ sign @ ds @ t" by simp
  obtain d rest where d: "ds = d # rest" "c_isdigit d" using s(2,3) by (cases ds) auto
  have "\<not> c_isspace CHR ''+''" "\<not> c_isspace CHR ''-''" "\<not> c_isspace d"
    using c_isspace_not_digit d(2) by (auto simp: c_isspace_def)
  then have "dropWhile c_isspace s = sign @ ds @ t"
    using st s(1,4) d(1) by (auto simp: dropWhile_append list_all_iff)
  moreover have "scan_digits (ds @ t) = Some (dec_value ds, t)" using s(2,3) a(2) by (auto simp: scan_digits_iff)
  ultimately show "scan_int s = Some (v, t)"
    using s(4) d c_isdigit_sign[OF d(2)] by (auto simp: scan_int_def)
qed

lemma sscanf_version_iff: "sscanf_version store s = Some v \<longleftrightarrow> names_version store s v"
proof
  assume "sscanf_version store s = Some v"
  then obtain x y t label where "scan_int s = Some (x, CHR ''.'' # t)" "scan_int t = Some (y, label)" "v = (store x, store y)"
    by (auto simp: sscanf_version_def split: option.splits list.splits char.splits bool.splits)
  then show "names_version store s v" unfolding scan_int_iff names_version_def by fastforce
next
  assume "names_version store s v"
  then obtain a b x y label where "s = a @ ''.'' @ b @ label" "reads_int a x" "reads_int b y" "ends_number label"
    "v = (store x, store y)" by (auto simp: names_version_def)
  moreover have "ends_number (CHR ''.'' # b @ label)" by (simp add: ends_number_def c_isdigit_def digit_val_def)
  ultimately have "scan_int s = Some (x, CHR ''.'' # b @ label)" "scan_int (b @ label) = Some (y, label)"
    by (auto simp: scan_int_iff)
  with \<open>v = _\<close> show "sscanf_version store s = Some v" by (simp add: sscanf_version_def)
qed

section \<open>Loading the modules\<close>

text \<open>What loading promises: the directories are tried in order, the first one that has a module decides, and
  if none has one the kernel needs no modules.\<close>

inductive load_tries :: "('m, 's) guest_os \<Rightarrow> string list \<Rightarrow> 's \<Rightarrow> bool \<times> 's \<Rightarrow> bool" for os where
  tries_none: "load_tries os [] s (True, s)"
| tries_loaded: "load_from os path s = (retval, k, s') \<Longrightarrow> 0 < k \<Longrightarrow> load_tries os (path # paths) s (retval, s')"
| tries_nothing: "load_from os path s = (retval, k, s') \<Longrightarrow> k \<le> 0 \<Longrightarrow> load_tries os paths s' r \<Longrightarrow>
    load_tries os (path # paths) s r"

lemma load_first_tries:
  assumes "\<And>s. load_tries os paths s (rest s)"
  shows "load_tries os (map (\<lambda>d. MODULE_BASE_DIR @ ''/'' @ d) dirs @ paths) s0
    (case load_first os dirs s0 of (Some retval, s) \<Rightarrow> (retval, s) | (None, s) \<Rightarrow> rest s)"
proof (induction dirs arbitrary: s0)
  case (Cons d dirs)
  obtain retval k s1 where l: "load_from os (MODULE_BASE_DIR @ ''/'' @ d) s0 = (retval, k, s1)"
    by (metis prod_cases3)
  show ?case
  proof (cases "0 < k")
    case True
    with l show ?thesis by (auto intro: tries_loaded)
  next
    case False
    with l Cons.IH[of s1] show ?thesis by (auto intro: tries_nothing)
  qed
qed (simp add: assms)

text \<open>Without a kernel version or a listing of the base directory nothing is loaded.\<close>

lemma LoadKernelModules_fails:
  assumes "uname_release os s = None \<or> (\<exists>release. uname_release os s = Some release \<and>
      (\<nexists>v. names_version (store_int os) release v)) \<or> opendir_entries os MODULE_BASE_DIR s = None"
  shows "LoadKernelModules os s = (False, s)"
proof -
  have "sscanf_version (store_int os) release = None" if "\<nexists>v. names_version (store_int os) release v" for release
    using that sscanf_version_iff by (metis not_None_eq)
  with assms show ?thesis by (auto simp: LoadKernelModules_def split: option.splits)
qed

text \<open>C36: The modules are looked for in the directories whose names start with the version of the running kernel, and in
  no other: all the entries of the base directory that are directories and whose names start with the same two
  numbers as the release of the kernel (5.1 is not 5.10, and \<open>.\<close> and \<open>..\<close> are no versions), each once, in
  alphabetical order, and then the base directory itself. The first of these places that has modules decides.\<close>

theorem modules_of_running_kernel:
  assumes "uname_release os s = Some release" "names_version (store_int os) release version"
    and "opendir_entries os MODULE_BASE_DIR s = Some entries"
  shows "\<exists>dirs. sorted dirs \<and>
    mset dirs = image_mset d_name
      (filter_mset (\<lambda>e. d_type e = DT_DIR \<and> names_version (store_int os) (d_name e) version) (mset entries)) \<and>
    load_tries os (map (\<lambda>d. MODULE_BASE_DIR @ ''/'' @ d) dirs @ [MODULE_BASE_DIR]) s (LoadKernelModules os s)"
proof -
  let ?dirs = "sort (matching_dirs (store_int os) version entries)"
  let ?rest = "\<lambda>s. case load_from os MODULE_BASE_DIR s of (retval, k, s) \<Rightarrow> if k > 0 then (retval, s) else (True, s)"
  have "sscanf_version (store_int os) release = Some version" using assms(2) by (simp add: sscanf_version_iff)
  with assms(1,3) have "LoadKernelModules os s =
      (case load_first os ?dirs s of (Some retval, s) \<Rightarrow> (retval, s) | (None, s) \<Rightarrow> ?rest s)"
    by (simp add: LoadKernelModules_def)
  moreover have "load_tries os [MODULE_BASE_DIR] s' (?rest s')" for s'
    by (auto split: prod.split intro: tries_loaded tries_nothing tries_none)
  ultimately have "load_tries os (map (\<lambda>d. MODULE_BASE_DIR @ ''/'' @ d) ?dirs @ [MODULE_BASE_DIR]) s (LoadKernelModules os s)"
    using load_first_tries[of os "[MODULE_BASE_DIR]" ?rest ?dirs s] by simp
  moreover have "mset ?dirs = image_mset d_name
      (filter_mset (\<lambda>e. d_type e = DT_DIR \<and> names_version (store_int os) (d_name e) version) (mset entries))"
    by (simp add: matching_dirs_def sscanf_version_iff)
  ultimately show ?thesis by (intro exI[of _ ?dirs] conjI sorted_sort)
qed

text \<open>A machine that records where modules are looked for and has modules in one directory.\<close>

definition sample_guest :: "(string, string list) guest_os" where
  "sample_guest =
     \<lparr>uname_release = (\<lambda>_. Some ''5.10.43-android12''), store_int = (\<lambda>i. i),
      opendir_entries = (\<lambda>_ _. Some [\<lparr>d_type = 4, d_name = ''.''\<rparr>, \<lparr>d_type = 4, d_name = ''5.1''\<rparr>,
        \<lparr>d_type = 4, d_name = ''5.10-gki''\<rparr>, \<lparr>d_type = 4, d_name = ''5.10''\<rparr>, \<lparr>d_type = 8, d_name = ''5.10-log''\<rparr>]),
      modprobe_new = (\<lambda>dirs s. (hd dirs, s @ dirs)), LoadListedModules = (\<lambda>m s. (True, m, s)),
      GetModuleCount = (\<lambda>m. if m = ''/lib/modules/5.10-gki'' then 3 else 0),
      clearenv = (\<lambda>s. (0, s)), execv = (\<lambda>_ _ _. True)\<rparr>"

lemma sample_guest_loads:
  "LoadKernelModules sample_guest [] = (True, [''/lib/modules/5.10'', ''/lib/modules/5.10-gki''])"
  by code_simp

theorem modules_of_running_kernel_witness:
  "\<exists>dirs. sorted dirs \<and> mset dirs = {#''5.10'', ''5.10-gki''#} \<and>
    load_tries sample_guest (map (\<lambda>d. MODULE_BASE_DIR @ ''/'' @ d) dirs @ [MODULE_BASE_DIR]) []
      (True, [''/lib/modules/5.10'', ''/lib/modules/5.10-gki''])"
proof -
  let ?entries = "[\<lparr>d_type = 4, d_name = ''.''\<rparr>, \<lparr>d_type = 4, d_name = ''5.1''\<rparr>,
        \<lparr>d_type = 4, d_name = ''5.10-gki''\<rparr>, \<lparr>d_type = 4, d_name = ''5.10''\<rparr>, \<lparr>d_type = 8, d_name = ''5.10-log''\<rparr>]"
  have store: "store_int sample_guest = (\<lambda>i. i)" by (simp add: sample_guest_def)
  have scan: "sscanf_version (\<lambda>i. i) ''5.10.43-android12'' = Some (5, 10)" "sscanf_version (\<lambda>i. i) ''.'' = None"
    "sscanf_version (\<lambda>i. i) ''5.1'' = Some (5, 1)" "sscanf_version (\<lambda>i. i) ''5.10-gki'' = Some (5, 10)"
    "sscanf_version (\<lambda>i. i) ''5.10'' = Some (5, 10)"
    by code_simp+
  have "uname_release sample_guest [] = Some ''5.10.43-android12''"
    "names_version (store_int sample_guest) ''5.10.43-android12'' (5, 10)"
    "opendir_entries sample_guest MODULE_BASE_DIR [] = Some ?entries"
    by (simp_all only: store scan flip: sscanf_version_iff) (simp_all add: sample_guest_def)
  from modules_of_running_kernel[OF this] show ?thesis
    by (simp add: sample_guest_loads DT_DIR_def store scan add_mset_commute flip: sscanf_version_iff)
qed

section \<open>The message\<close>

text \<open>The arguments that \<open>vsock_config.json\<close> leaves for init (the kernel takes \<open>rdinit=\<close> for itself).\<close>

definition test_params :: "string list" where
  "test_params = [''bin/vsock_client'', ''2'', ''45678'', ''HelloWorld'']"

lemma test_params_eq:
  "test_params = [''bin/vsock_client'', show_nat VMADDR_CID_HOST, show_nat kGuestPort, kTestMessage]"
  by (simp add: test_params_def VMADDR_CID_HOST_def kGuestPort_def kTestMessage_def show_nat.simps[of 45678]
      show_nat.simps[of 4567] show_nat.simps[of 456] show_nat.simps[of 45] show_nat.simps[of 4] show_nat.simps[of 2]
      digit_char_def char_of_def bit_0)

text \<open>With those arguments, init becomes the client, and the client sends to the host exactly what the test waits for.\<close>

lemma guest_sends_test_message:
  assumes "clearenv os s = (0, s0)" "LoadKernelModules os s0 = (True, s1)" "execv os (hd test_params) test_params s1"
    and "\<And>k. k < 2 ^ 32 \<Longrightarrow> ParseUint api (show_nat k) = Some k"
    and "vsock_socket api n = (Some fd, n1)" "vsock_connect api fd VMADDR_CID_HOST kGuestPort n1 = (True, n2)"
    and "WriteStringToFd api kTestMessage fd n2 = (True, n3)"
  shows "init_main os (init # test_params) s = (Exec ''bin/vsock_client'' test_params, s1)"
    "vsock_guest_main api test_params n = (EXIT_SUCCESS, close_fd api fd n3)"
proof -
  show "init_main os (init # test_params) s = (Exec ''bin/vsock_client'' test_params, s1)"
    using assms(1-3) by (simp add: init_main_def EXIT_SUCCESS_def test_params_def)
  show "vsock_guest_main api test_params n = (EXIT_SUCCESS, close_fd api fd n3)"
    unfolding test_params_eq vsock_guest_main_def
    using assms(5-7) assms(4)[of VMADDR_CID_HOST] assms(4)[of kGuestPort]
    by (simp add: VMADDR_CID_HOST_def kGuestPort_def)
qed

end
