(* ===== verification/Spec2Isabelle.thy ===== *)
theory Spec2Isabelle
  imports Editor_Correct Verifier Verifier_Tests Inode_Tests Fusefs_Correct Compos_Correct Zipfuse_Dir Vm_Tool
    Payload_Correct Services Guest_Init
begin

text \<open>
  Verification of the programs of the Android Virtualization module: the file systems \<open>authfs\<close> and \<open>zipfuse\<close>, the
  file server \<open>fd_server\<close>, the \<open>compos\<close> programs, the VM service \<open>virtmanager\<close> with its tool \<open>vm\<close>, and the payload tools
  of microdroid. Paths below are relative to \<open>src/\<close>.

  \<^bold>\<open>The system.\<close> \<open>pvm_exec\<close> (host) is asked to run a command with some of its file descriptors. It starts
  \<open>fd_server\<close>, which serves these descriptors over binder, and calls \<open>compsvc\<close> in the VM. \<open>compsvc\<close> runs
  \<open>compsvc_worker\<close> in a jail; the worker starts \<open>authfs\<close>, waits for its mount, opens the mounted files that stand for
  the descriptors and starts the task with them. \<open>authfs\<close> trusts neither host nor transport: a file that is read
  is checked chunk by chunk against a signed fs-verity Merkle tree, and a file that is written has its tree
  maintained inside the VM. Independently, \<open>virtmanager\<close> starts VMs with \<open>crosvm\<close> for clients such as \<open>vm\<close>,
  \<open>mk_payload\<close> makes the payload disk of a VM, and inside a VM \<open>zipfuse\<close> mounts the APK of that disk.

  \<^bold>\<open>Conventions\<close> (\<open>Prelude\<close>). A fallible function returns a \<open>res\<close>: \<open>Ok\<close>, \<open>Err\<close>, \<open>Panic\<close> for a Rust panic (failed assertion,
  \<open>unwrap\<close>, index or overflow in a debug build), \<open>Hang\<close> for a call that does not return. \<open>try_r\<close> is the operator \<open>?\<close>;
  methods that change their object return the new state as well, also when they fail (\<open>and_then\<close>). Unsigned machine
  integers are natural numbers, and every addition, subtraction and multiplication that may leave the type goes through
  \<open>uadd\<close>, \<open>usub\<close>, \<open>umul\<close>, which panic or wrap around as the build profile (the first argument \<open>p\<close>) says; bytes are
  words. Code that is not in the repository is a parameter: a record of its functions, and where a theorem needs it
  a predicate with the documented behaviour, which a sample instance satisfies: BoringSSL (\<open>sha256_ffi\<close>, \<open>sha256_spec\<close>),
  files (\<open>file_api\<close>, \<open>regular_file\<close>), the FUSE crate (\<open>fuse_lib\<close>), clap and StructOpt (\<open>worker_clap\<close>, \<open>fd_server_clap\<close>,
  \<open>authfs_structopt\<close>), Minijail and the system calls of the worker (\<open>vm_os\<close>), the zip crate (\<open>zip_archive\<close>,
  \<open>zip_crate\<close>), binder (\<open>binder_lib\<close>, \<open>service_manager_spec\<close>), jsoncpp, protobuf and the composite disk library.

  \<^bold>\<open>Integrity layer of authfs\<close> (\<open>authfs/src\<close>).
  \<^item> \<open>Authfs_Common\<close>: \<open>common.rs\<close>. The chunk iterator is folding over the reference list \<open>chunk_items\<close>.
  \<^item> \<open>Crypto\<close>: \<open>crypto.rs\<close>, \<open>auth.rs\<close>. \<open>Fsverity_Common\<close>: \<open>fsverity/common.rs\<close>, \<open>fsverity/sys.rs\<close>.
  \<^item> \<open>File_Blocks\<close>: the abstract file, a byte string read in blocks. \<open>Host_File\<close>: \<open>std::fs::File\<close>.
  \<^item> \<open>File_Traits\<close>: \<open>file.rs\<close>, \<open>file/local_file.rs\<close>. The traits are the locales \<open>read_by_chunk\<close>, its weakening
    \<open>reads_blocks\<close>, and \<open>random_access_file\<close>; local files, the remote editor and the in-memory file of the unit tests
    are instances.
  \<^item> \<open>Merkle_Builder\<close>: \<open>fsverity/builder.rs\<close>. In a release build the digest equals the recursive definition
    \<open>fsverity_digest\<close>; in a build with debug assertions it panics for more than one block.
  \<^item> \<open>Verifier\<close>: \<open>fsverity/verifier.rs\<close>. The walk from a chunk to the root finds the nodes of the reference tree, the reader
    is complete for honest data and sound for any data unless a second preimage occurs in the run, and the digest
    of the builder is the one under which the reader accepts a file. \<open>Tampering\<close>: damage to a page of the tree
    affects exactly the chunks below it.
  \<^item> \<open>Editor\<close>, \<open>Editor_Correct\<close>: \<open>fsverity/editor.rs\<close>. The editor refines a plain byte string on storage that works,
    keeps the right leaves on storage that does not, and what it does not protect (\<open>resize\<close>, short writes).
  \<^item> \<open>Remote_File\<close>: \<open>file/remote_file.rs\<close> and the AIDL interface, with the locale \<open>virt_fd_file\<close> for what a service
    promises. \<open>Fd_Server\<close>: \<open>fd_server/src\<close> (\<open>main.rs\<close>, \<open>fsverity.rs\<close>), interpreted as such a service; every method on
    every branch, and that writes stay in the writable entries.
  \<^item> \<open>Fusefs\<close>, \<open>Fusefs_Correct\<close>: \<open>fusefs.rs\<close>, every handler. Reads return the exact range, authentic for verified files; what is
    written is read back; read-only files stay unchanged.
  \<^item> \<open>Rust_Str\<close>, \<open>Authfs_Main\<close>: \<open>main.rs\<close>, the option parsers and the file pool.

  \<^bold>\<open>compos and services.\<close> \<open>Compos\<close>, \<open>Compos_Correct\<close>: \<open>compos/src\<close> (\<open>pvm_exec.rs\<close>, \<open>compsvc.rs\<close>, \<open>compsvc_worker.rs\<close>). The worker
  gets the request, leaves no process behind that Minijail could end (the predicate \<open>minijail\<close>: a jail whose \<open>wait\<close> or
  \<open>kill\<close> has failed may still run), and its wait for the mount ends. \<open>Services\<close>: the \<open>main\<close> functions of
  the servers and the lookups of the clients. This theory composes all of them: a task reads and writes the
  host's files.

  \<^bold>\<open>zipfuse\<close> (\<open>zipfuse/src\<close>). \<open>Zip_Inode\<close>: \<open>inode.rs\<close>, the table is a tree that describes the archive. \<open>Zipfuse\<close>: \<open>main.rs\<close>, with
  the crate interface in \<open>Fuse_Lib\<close>. \<open>Zipfuse_Correct\<close>: the tables of open files and directories are two instances of
  the locale \<open>handle_table\<close>; reads in every reachable state return the file of the archive, a file that comes
  first among the entries at and below its path can be read completely, \<open>getattr\<close> describes the archive, and the
  flaws of the reference count. \<open>Zipfuse_Dir\<close>: listing a directory page by page ends and is complete.

  \<^bold>\<open>virtmanager and vm.\<close> \<open>Virt_Manager\<close>: \<open>virtmanager/src\<close> as operations on a world of instances, references and monitor
  threads, and the step relation \<open>vm_step\<close> for all interleavings. \<open>Virt_Manager_Correct\<close>: VMs are killed exactly when
  unreferenced, CIDs are unique. \<open>Vm_Tool\<close>: \<open>vm/src\<close>, concurrent with the service.

  \<^bold>\<open>microdroid\<close> (\<open>microdroid/signature\<close>). \<open>Payload\<close>, \<open>Payload_Correct\<close>: \<open>signature.cc\<close>, \<open>mk_payload.cc\<close>; the signature
  describes the APEXes of the configuration and the partitions that follow it, provided the writes whose result the
  tool does not check were complete.

  \<^bold>\<open>Tests.\<close> \<open>Editor_Tests\<close>, \<open>Authfs_Tests\<close>, \<open>Verifier_Tests\<close>, \<open>Inode_Tests\<close>: the unit tests of the Rust sources as definitions, and
  that they pass; where a test quotes a SHA-256 value it passes exactly if the value is that of the hash function.
  \<open>Guest_Init\<close>: \<open>tests/init/main.cc\<close> and \<open>tests/vsock_guest.cc\<close>, the programs of the test VM; the directories that are
  searched for modules are those whose name starts with the two numbers of the running kernel.

  \<^bold>\<open>Bounds.\<close> Contents are below \<open>2 ^ 63\<close> bytes, the largest file offset, and below \<open>2 ^ 61\<close> for the verifying reader, whose
  node sizes overflow beyond. The open counters of zipfuse have 32 bits: statements on reachable states are for
  fewer than \<open>2 ^ 32 - 1\<close> requests. There is no fuel: loops are total functions with a measure, and the two that may
  run forever (\<open>write_all_at_loop\<close>, \<open>wait_loop\<close>) are partial functions whose result is proved to exist where it is used.

  \<^bold>\<open>Not modelled.\<close>
  \<^item> Log messages, printing and usage texts: no effect on results.
  \<^item> I/O errors of a host file after it was opened, where a theorem assumes \<open>regular_file\<close>; two descriptors of one file.
  \<^item> Whether a \<open>kill\<close> or a callback of \<open>virtmanager\<close> that was called succeeded: its result is only logged.
  \<^item> Locks and their poisoning: every guarded section is one atomic step; after a panic nothing is said.
  \<^item> The parsing of command lines and of JSON by libraries, the \<open>ioctl\<close> macro, binder's marshalling, the kernel side of
    FUSE, crosvm, Minijail: not in the repository, they are the parameters above.
  \<^item> The mount tests of \<open>zipfuse/src/main.rs\<close>, the body of \<open>tests/vsock_test.cc\<close> and the Java tests: they drive a kernel or a
    device, and their outcome depends on that code; the handlers and programs they exercise are modelled.
  \<^item> \<open>zipfuse\<close>'s \<open>main\<close>, which hands two arguments to \<open>run_fuse\<close>; module declarations, imports and derived traits.
\<close>

section \<open>From the host's file descriptor to the task in the VM\<close>

lemma fd_server_reader:
  assumes "regular_file api content" "fd_pool st fd = Some config"
  shows "reads_blocks (RemoteFileReader_read_chunk p (fd_server q api) st fd) (content (config_file config))"
proof -
  have "serves (svc_readFile (fd_server q api) st fd) (content (config_file config))"
    using readFile_serves[OF assms] by (simp add: fd_server_def)
  from read_by_chunk_within[OF remote_reader_reads[OF this]] show ?thesis
    by (simp add: RemoteFileReader_read_chunk_def[abs_def])
qed

text \<open>C14: A task that \<open>pvm_exec\<close> runs in the VM reads the host's files. The descriptors given to \<open>pvm_exec\<close>, once it
  has parsed its own command line, go through five command lines (\<open>fd_server\<close>'s, the request to \<open>compsvc\<close>, the worker's, authfs's, the names
  of the mounted files); at the end, reading the file named like the descriptor from the authfs mount
  returns the requested range of the file the host has open under that descriptor.\<close>

theorem task_reads_host_file:
  assumes "worker_clap wgm" "authfs_structopt agm" "fd_server_clap sgm"
    and "regular_file api content" "env_service env = fd_server q api"
    and "metadata_ok meta" "fds_distinct meta" "fds_ok api fds meta" "args \<noteq> []"
    and "a \<in> set (input_fd_annotations meta)" "c = content (file_from_raw_fd fds (input_fd a))"
    and "input_file_size a = int (length c)"
    and "collects wr out" "off < 2 ^ 64"
  shows "\<exists>ro rw argv config aargs pool fpool w'.
    sgm (fd_server_args_of meta) = (ro, rw) \<and> parse_args api fds ro rw = Ok pool \<and>
    build_worker_args self args meta = (Ok argv :: (status, string list) res) \<and>
    worker_parse_args (wgm argv) = Ok config \<and>
    Args_from_matches (agm (authfs_args_of config)) = Ok aargs \<and>
    prepare_file_pool p env \<lparr>fd_pool = pool\<rparr> disk aargs = Ok fpool \<and>
    fs_read p env \<lparr>fd_pool = pool\<rparr> (AuthFs_new fpool max_wr) (nat (input_fd a)) wr w n off =
      Ok (length (take n (drop off c)), w') \<and> out w' = out w @ take n (drop off c)"
proof -
  let ?config = "worker_config_of self args meta" and ?st = "\<lparr>fd_pool = served_pool fds meta\<rparr>"
  let ?rd = "RemoteFileReader_read_chunk p (env_service env) ?st (input_fd a)"
  obtain ro rw where sgm: "sgm (fd_server_args_of meta) = (ro, rw)" by fastforce
  with fd_server_parses_args[OF assms(3,6,8)] have srv: "parse_args api fds ro rw = Ok (served_pool fds meta)"
    by simp
  from worker_parses_args[OF assms(1,9,6), of self]
  obtain argv where argv: "build_worker_args self args meta = (Ok argv :: (status, string list) res)"
    "worker_parse_args (wgm argv) = Ok ?config" by blast
  from authfs_parses_args[OF assms(2) worker_config_ok[OF assms(6)], of self args p env ?st disk]
  obtain aargs where aargs: "Args_from_matches (agm (authfs_args_of ?config)) = Ok aargs"
    "prepare_file_pool p env ?st disk aargs = Ok (task_pool ?config)" by blast
  have pools: "served_pool fds meta (input_fd a) = Some (Readonly (file_from_raw_fd fds (input_fd a)) None None)"
    by (simp_all add: pools_agree(1)[OF assms(6,7,10)])
  have "reads_blocks ?rd c"
    using fd_server_reader[OF assms(4), of ?st "input_fd a" _ p q] pools assms(5,11)
    by (auto simp: config_file_def)
  moreover have "length c < 2 ^ 63" using assms(6,10,12) by (auto simp: metadata_ok_def)
  ultimately obtain w' where read: "read_chunks p wr w ?rd (length c) off n = Ok (length (take n (drop off c)), w')"
    "out w' = out w @ take n (drop off c)"
    using read_chunks_complete[OF assms(13) _ _ assms(14)] by blast
  have "fs_read p env ?st (AuthFs_new (task_pool ?config) max_wr) (nat (input_fd a)) wr w n off =
      Ok (length (take n (drop off c)), w')"
    using read(1) assms(12)
    by (simp add: fs_read_def AuthFs_new_def AuthFs_get_file_config_def config_reader_def
        pools_agree(1)[OF assms(6,7,10)])
  with sgm srv argv aargs read(2) show ?thesis by blast
qed

definition sample_fds :: "bytes fd_env" where
  "sample_fds = \<lparr>fcntl_getfd = (\<lambda>fd. 0), file_from_raw_fd = (\<lambda>fd. if fd = 3 then sample_block else [])\<rparr>"

lemma sample_request:
  "fds_distinct sample_metadata" "fds_ok mem_file sample_fds sample_metadata"
  "env_service sample_env = fd_server debug_profile mem_file"
  by (simp_all add: fds_distinct_def fds_ok_def sample_metadata_def sample_fds_def is_fd_valid_def mem_file_def
      sample_env_def)

theorem task_reads_host_file_witness:
  "\<exists>ro rw argv config aargs pool fpool w'.
    sample_fd_server_matches (fd_server_args_of sample_metadata) = (ro, rw) \<and>
    parse_args mem_file sample_fds ro rw = Ok pool \<and>
    build_worker_args sample_comp_service [''sh''] sample_metadata = (Ok argv :: (status, string list) res) \<and>
    worker_parse_args (sample_worker_matches argv) = Ok config \<and>
    Args_from_matches (sample_authfs_matches (authfs_args_of config)) = Ok aargs \<and>
    prepare_file_pool debug_profile sample_env \<lparr>fd_pool = pool\<rparr> undefined aargs = Ok fpool \<and>
    fs_read debug_profile sample_env \<lparr>fd_pool = pool\<rparr> (AuthFs_new fpool 65536) (nat 3) append_writer [] 20 30 =
      Ok (length (take 20 (drop 30 sample_block)), w') \<and> w' = [] @ take 20 (drop 30 sample_block)"
proof -
  let ?a = "\<lparr>input_fd = 3, input_file_size = 4096\<rparr>"
  have "?a \<in> set (input_fd_annotations sample_metadata)" by (simp add: sample_metadata_def)
  from task_reads_host_file[OF worker_clap_sample authfs_structopt_sample fd_server_clap_sample regular_mem_file
      sample_request(3) sample_metadata_ok sample_request(1,2) _ this refl _ collects_append,
      of "[''sh'']" 30 sample_comp_service debug_profile undefined 65536 "[]" 20]
  show ?thesis by (simp add: sample_fds_def sample_block_simps)
qed

text \<open>C15: A task writes the host's files. What the task writes to the authfs file named like an output
  descriptor arrives in the host's file under that descriptor, at the same place, and authfs's view
  of the file and the Merkle tree it keeps privately describe the same content.\<close>

theorem task_writes_host_file:
  assumes "worker_clap wgm" "authfs_structopt agm" "fd_server_clap sgm"
    and "regular_file api content" "env_service env = fd_server q api" "sha256_spec (env_ffi env) sha"
    and "metadata_ok meta" "fds_distinct meta" "fds_ok api fds meta" "args \<noteq> []"
    and "b \<in> set (output_fd_annotations meta)"
    and "read_exact n = Ok buf" "length buf = n" "off + n < 2 ^ 63"
  shows "\<exists>ro rw argv config aargs pool fpool fs' st' f' tree.
    sgm (fd_server_args_of meta) = (ro, rw) \<and> parse_args api fds ro rw = Ok pool \<and>
    build_worker_args self args meta = (Ok argv :: (status, string list) res) \<and>
    worker_parse_args (wgm argv) = Ok config \<and>
    Args_from_matches (agm (authfs_args_of config)) = Ok aargs \<and>
    prepare_file_pool p env \<lparr>fd_pool = pool\<rparr> disk aargs = Ok fpool \<and>
    fs_write p env (AuthFs_new fpool max_wr, \<lparr>fd_pool = pool\<rparr>) (nat (output_fd b)) read_exact n off =
      (Ok n, fs', st') \<and>
    fd_pool st' (output_fd b) = Some (ReadWrite f') \<and> content f' = write_bytes [] off buf \<and>
    file_pool fs' (nat (output_fd b)) = Some (RemoteVerifiedNewFile (output_fd b) tree) \<and>
    tree = merkle_of sha (content f')"
proof -
  let ?fd = "output_fd b" and ?f = "file_from_raw_fd fds (output_fd b)"
  let ?config = "worker_config_of self args meta" and ?st = "\<lparr>fd_pool = served_pool fds meta\<rparr>"
  let ?fs = "AuthFs_new (task_pool ?config) max_wr"
  obtain ro rw where sgm: "sgm (fd_server_args_of meta) = (ro, rw)" by fastforce
  with fd_server_parses_args[OF assms(3,7,9)] have srv: "parse_args api fds ro rw = Ok (served_pool fds meta)"
    by simp
  from worker_parses_args[OF assms(1,10,7), of self]
  obtain argv where argv: "build_worker_args self args meta = (Ok argv :: (status, string list) res)"
    "worker_parse_args (wgm argv) = Ok ?config" by blast
  from authfs_parses_args[OF assms(2) worker_config_ok[OF assms(7)], of self args p env ?st disk]
  obtain aargs where aargs: "Args_from_matches (agm (authfs_args_of ?config)) = Ok aargs"
    "prepare_file_pool p env ?st disk aargs = Ok (task_pool ?config)" by blast
  have pool: "served_pool fds meta ?fd = Some (ReadWrite ?f)"
    by (simp add: pools_agree(2)[OF assms(7,8,11)])
  have "content ?f = []"
    using assms(9,11) regular_file_len[OF assms(4), of ?f] by (auto simp: fds_ok_def)
  with pool have empty: "rw_content content ?fd ?st = []" "rw_wf content ?fd ?st"
    by (simp_all add: rw_content_def rw_wf_def)
  have inv: "editor_inv sha (rw_content content ?fd) (rw_wf content ?fd) (editor_of ?st MerkleLeaves_new)"
    using empty by (simp add: editor_inv_def editor_of_def MerkleLeaves_new_def merkle_of_def leaves_of_def num_blocks_def)
  have contract: "random_access_file (RemoteFileEditor p (env_service env) ?fd) (rw_content content ?fd) (rw_wf content ?fd)"
    unfolding assms(5) by (rule virt_fd_file.remote_editor_contract[OF fd_server_meets_contract[OF assms(4)]])
  obtain ed where ed: "VerifiedFileEditor_write_at p (env_ffi env) (RemoteFileEditor p (env_service env) ?fd)
      (editor_of ?st MerkleLeaves_new) buf off = (Ok n, ed)"
    and inv': "editor_inv sha (rw_content content ?fd) (rw_wf content ?fd) ed"
    and c: "rw_content content ?fd (ed_file ed) = write_bytes [] off buf"
    using random_access_file.editor_write_at_ok[OF contract assms(6) inv, of off buf p] assms(13,14) empty
    by (auto simp: editor_of_def)
  obtain f' where f': "fd_pool (ed_file ed) ?fd = Some (ReadWrite f')" "content f' = write_bytes [] off buf"
    using inv' c by (auto simp: editor_inv_def elim: rw_wfE)
  have "fs_write p env (?fs, ?st) (nat ?fd) read_exact n off =
      (Ok n, put_tree ?fs (nat ?fd) ?fd (ed_merkle_tree ed), ed_file ed)"
    using ed assms(12)
    by (simp add: fs_write_def AuthFs_get_file_config_def AuthFs_new_def pools_agree(2)[OF assms(7,8,11)])
  moreover have "ed_merkle_tree ed = merkle_of sha (content f')"
    using inv' c f' by (simp add: editor_inv_def)
  ultimately show ?thesis
    using sgm srv argv aargs f' by (auto simp: put_tree_def intro!: exI)
qed

theorem task_writes_host_file_witness:
  "\<exists>ro rw argv config aargs pool fpool fs' st' f' tree.
    sample_fd_server_matches (fd_server_args_of sample_metadata) = (ro, rw) \<and>
    parse_args mem_file sample_fds ro rw = Ok pool \<and>
    build_worker_args sample_comp_service [''sh''] sample_metadata = (Ok argv :: (status, string list) res) \<and>
    worker_parse_args (sample_worker_matches argv) = Ok config \<and>
    Args_from_matches (sample_authfs_matches (authfs_args_of config)) = Ok aargs \<and>
    prepare_file_pool debug_profile sample_env \<lparr>fd_pool = pool\<rparr> undefined aargs = Ok fpool \<and>
    fs_write debug_profile sample_env (AuthFs_new fpool 65536, \<lparr>fd_pool = pool\<rparr>) (nat 4) (\<lambda>n. Ok (replicate n 9)) 5000 100 =
      (Ok 5000, fs', st') \<and>
    fd_pool st' 4 = Some (ReadWrite f') \<and> f' = write_bytes [] 100 (replicate 5000 9) \<and>
    file_pool fs' (nat 4) = Some (RemoteVerifiedNewFile 4 tree) \<and> tree = merkle_of sample_sha f'"
proof -
  have sha: "sha256_spec (env_ffi sample_env) sample_sha" by (simp add: sample_env_def sample_sha256_spec)
  have "\<lparr>output_fd = 4\<rparr> \<in> set (output_fd_annotations sample_metadata)" by (simp add: sample_metadata_def)
  from task_writes_host_file[OF worker_clap_sample authfs_structopt_sample fd_server_clap_sample regular_mem_file
      sample_request(3) sha sample_metadata_ok sample_request(1,2) _ this,
      of "[''sh'']" "\<lambda>n. Ok (replicate n 9)" 5000 "replicate 5000 9" 100 sample_comp_service debug_profile undefined 65536]
  show ?thesis by simp
qed

end
